(* ===== verification/Json.thy ===== *)
theory Json
  imports Prelude
begin

unbundle bit_operations_syntax

text \<open>
  \<open>serde_json::Value\<close> as the program uses it: the value type (with the \<open>preserve_order\<close>
  feature of Cargo.toml, so an object is an insertion-ordered list of pairs), the accessors
  \<open>get\<close>, \<open>as_str\<close>, \<open>as_array\<close>, \<open>as_object\<close>, \<open>as_bool\<close> and \<open>as_u64\<close>, object insertion, and the
  equality of \<open>Value\<close>, which ignores the order of object entries.
  A floating-point number is kept as its IEEE 754 bits.
\<close>

datatype json_number = PosInt u64 | NegInt u64 | Float u64

datatype json =
    JNull
  | JBool bool
  | JNumber json_number
  | JString string
  | JArray "json list"
  | JObject "(string \<times> json) list"

type_synonym json_object = "(string \<times> json) list"

section \<open>Accessors\<close>

fun as_str :: "json \<Rightarrow> string option" where
  "as_str (JString s) = Some s"
| "as_str _ = None"

fun as_array :: "json \<Rightarrow> json list option" where
  "as_array (JArray xs) = Some xs"
| "as_array _ = None"

fun as_object :: "json \<Rightarrow> json_object option" where
  "as_object (JObject m) = Some m"
| "as_object _ = None"

fun as_bool :: "json \<Rightarrow> bool option" where
  "as_bool (JBool b) = Some b"
| "as_bool _ = None"

fun as_u64 :: "json \<Rightarrow> u64 option" where
  "as_u64 (JNumber (PosInt n)) = Some n"
| "as_u64 _ = None"

definition obj_get :: "json_object \<Rightarrow> string \<Rightarrow> json option" where
  "obj_get m k = map_of m k"

text \<open>\<open>Value::get\<close> with a string key: \<open>None\<close> unless the value is an object that has the key.\<close>

definition json_get :: "json \<Rightarrow> string \<Rightarrow> json option" where
  "json_get v k = Option.bind (as_object v) (\<lambda>m. obj_get m k)"

text \<open>\<open>value.get(k).and_then(Value::as_str)\<close> and its companions.\<close>

definition get_str :: "json \<Rightarrow> string \<Rightarrow> string option" where
  "get_str v k = Option.bind (json_get v k) as_str"

definition get_array :: "json \<Rightarrow> string \<Rightarrow> json list option" where
  "get_array v k = Option.bind (json_get v k) as_array"

text \<open>\<open>Map::insert\<close>: an existing key keeps its position, a new one goes to the end.\<close>

definition obj_insert :: "string \<Rightarrow> json \<Rightarrow> json_object \<Rightarrow> json_object" where
  "obj_insert k v m = AList.update k v m"

lemma json_get_JObject [simp]: "json_get (JObject m) k = map_of m k"
  by (simp add: json_get_def obj_get_def)

lemma json_get_non_object [simp]:
  "json_get JNull k = None" "json_get (JBool b) k = None" "json_get (JNumber n) k = None"
  "json_get (JString s) k = None" "json_get (JArray xs) k = None"
  by (simp_all add: json_get_def)

lemma obj_get_insert [simp]:
  "obj_get (obj_insert k v m) k' = (if k' = k then Some v else obj_get m k')"
  by (simp add: obj_get_def obj_insert_def)

lemma map_of_obj_insert [simp]:
  "map_of (obj_insert k v m) k' = (if k' = k then Some v else map_of m k')"
  by (simp add: obj_insert_def)

lemma as_str_Some_iff [simp]: "as_str v = Some s \<longleftrightarrow> v = JString s"
  by (cases v) auto

lemma as_array_Some_iff [simp]: "as_array v = Some xs \<longleftrightarrow> v = JArray xs"
  by (cases v) auto

lemma as_object_Some_iff [simp]: "as_object v = Some m \<longleftrightarrow> v = JObject m"
  by (cases v) auto

lemma get_str_Some_iff: "get_str v k = Some s \<longleftrightarrow> json_get v k = Some (JString s)"
  by (auto simp: get_str_def bind_eq_Some_conv)

section \<open>Equality of values\<close>

text \<open>IEEE equality on non-NaN bits (a JSON number is never NaN): equal bits, or both zero.\<close>

definition float_eq :: "u64 \<Rightarrow> u64 \<Rightarrow> bool" where
  "float_eq a b \<longleftrightarrow> a = b \<or> (a AND 0x7FFFFFFFFFFFFFFF = 0 \<and> b AND 0x7FFFFFFFFFFFFFFF = 0)"

fun number_eq :: "json_number \<Rightarrow> json_number \<Rightarrow> bool" where
  "number_eq (PosInt a) (PosInt b) \<longleftrightarrow> a = b"
| "number_eq (NegInt a) (NegInt b) \<longleftrightarrow> a = b"
| "number_eq (Float a) (Float b) \<longleftrightarrow> float_eq a b"
| "number_eq _ _ \<longleftrightarrow> False"

lemma size_json_pair [termination_simp]:
  "(k, v) \<in> set m \<Longrightarrow> size (v::json) < Suc (size_list (size_prod (\<lambda>_. 0) size) m)"
  by (induction m) auto

lemma size_zip_fst [termination_simp]:
  "p \<in> set (zip xs ys) \<Longrightarrow> size (fst p) < Suc (size_list size xs)"
  by (cases p) (auto dest!: set_zip_leftD simp: less_Suc_eq_le intro: size_list_estimation')

fun json_eq :: "json \<Rightarrow> json \<Rightarrow> bool" where
  "json_eq JNull JNull = True"
| "json_eq (JBool a) (JBool b) = (a = b)"
| "json_eq (JNumber a) (JNumber b) = number_eq a b"
| "json_eq (JString a) (JString b) = (a = b)"
| "json_eq (JArray xs) (JArray ys) =
     (length xs = length ys \<and> (\<forall>p \<in> set (zip xs ys). json_eq (fst p) (snd p)))"
| "json_eq (JObject a) (JObject b) =
     (length a = length b \<and>
      (\<forall>p \<in> set a. case map_of b (fst p) of None \<Rightarrow> False | Some w \<Rightarrow> json_eq (snd p) w))"
| "json_eq _ _ = False"

text \<open>Equality of \<open>Option<&Value>\<close>.\<close>

fun json_opt_eq :: "json option \<Rightarrow> json option \<Rightarrow> bool" where
  "json_opt_eq None None = True"
| "json_opt_eq (Some a) (Some b) = json_eq a b"
| "json_opt_eq _ _ = False"

lemma json_eq_JString [simp]: "json_eq (JString s) v \<longleftrightarrow> v = JString s"
  by (cases v) auto

lemma json_eq_JString2 [simp]: "json_eq v (JString s) \<longleftrightarrow> v = JString s"
  by (cases v) auto

end
