(* ===== verification/Tool_Schema.thy ===== *)
theory Tool_Schema
  imports Json
begin

text \<open>
  The default methods of the \<open>Tool\<close> trait, \<open>src/agent/tools/base.rs\<close>: casting the arguments of a
  tool call to the types of the tool's JSON Schema, and validating them.  Both recurse over
  the value, following the schema.

  Parameters: floating-point arithmetic and parsing (\<open>float_ops\<close>), \<open>Display\<close> and \<open>Debug\<close> of a
  value, and \<open>str::to_lowercase\<close>, gathered in the record \<open>value_ops\<close>.  The lemmas show that an
  argument object which already satisfies the schema is passed on unchanged and that validation
  reports nothing exactly when the value conforms to the schema.
\<close>

record value_ops =
  vo_parse_f64 :: "string \<Rightarrow> u64 option"
  vo_f64_finite :: "u64 \<Rightarrow> bool"
  vo_as_f64 :: "json_number \<Rightarrow> u64"
  vo_f64_less :: "u64 \<Rightarrow> u64 \<Rightarrow> bool"
  vo_show_f64 :: "u64 \<Rightarrow> string"
  vo_show_json :: "json \<Rightarrow> string"
  vo_debug_type :: "json option \<Rightarrow> string"
  vo_lower :: "string \<Rightarrow> string"

section \<open>Results of a tool\<close>

record tool_result =
  tr_content :: string
  tr_is_error :: bool

definition tool_result_ok :: "string \<Rightarrow> tool_result" where
  "tool_result_ok content = \<lparr>tr_content = content, tr_is_error = False\<rparr>"

definition tool_result_error :: "string \<Rightarrow> tool_result" where
  "tool_result_error content = \<lparr>tr_content = content, tr_is_error = True\<rparr>"

definition is_error_text :: "string \<Rightarrow> bool" where
  "is_error_text t \<longleftrightarrow> prefix ''Error'' t"

definition tool_result_from_text :: "string \<Rightarrow> tool_result" where
  "tool_result_from_text t = \<lparr>tr_content = t, tr_is_error = is_error_text t\<rparr>"

section \<open>Kinds of values\<close>

fun is_string :: "json \<Rightarrow> bool" where "is_string (JString _) = True" | "is_string _ = False"
fun is_number :: "json \<Rightarrow> bool" where "is_number (JNumber _) = True" | "is_number _ = False"
fun is_boolean :: "json \<Rightarrow> bool" where "is_boolean (JBool _) = True" | "is_boolean _ = False"
fun is_array :: "json \<Rightarrow> bool" where "is_array (JArray _) = True" | "is_array _ = False"
fun is_obj :: "json \<Rightarrow> bool" where "is_obj (JObject _) = True" | "is_obj _ = False"

text \<open>\<open>as_i64().is_some() || as_u64().is_some()\<close>: any number that is not a float.\<close>

fun is_integer :: "json \<Rightarrow> bool" where
  "is_integer (JNumber (Float _)) = False"
| "is_integer (JNumber _) = True"
| "is_integer _ = False"

text \<open>\<open>json_type_map\<close>.\<close>

definition json_type_map :: "string \<Rightarrow> string list option" where
  "json_type_map = map_of
     [(''string'', [''String'']),
      (''integer'', [''i64'', ''i32'', ''u64'', ''u32'', ''usize'']),
      (''number'', [''f64'', ''f32'', ''i64'', ''i32'', ''u64'', ''u32'']),
      (''boolean'', [''bool'']),
      (''array'', [''Vec<T>'']),
      (''object'', [''serde_json::Map<String, serde_json::Value>'',
                    ''std::collections::HashMap<String, serde_json::Value>''])]"

text \<open>\<open>i64::from_str\<close>: an optional sign, at least one digit, in range.\<close>

definition parse_i64 :: "string \<Rightarrow> int option" where
  "parse_i64 s =
     (let (neg, ds) = (case s of
          [] \<Rightarrow> (False, [])
        | c # cs \<Rightarrow> if c = CHR ''-'' then (True, cs) else if c = CHR ''+'' then (False, cs)
                    else (False, s));
          n = (if neg then - int (digits_value ds) else int (digits_value ds))
      in if ds \<noteq> [] \<and> list_all is_digit ds \<and> - (2 ^ 63) \<le> n \<and> n < 2 ^ 63 then Some n else None)"

definition json_of_i64 :: "int \<Rightarrow> json" where
  "json_of_i64 i = JNumber (if 0 \<le> i then PosInt (word_of_int i) else NegInt (word_of_int i))"

text \<open>\<open>Value::from(f64)\<close>: null for an infinity or NaN.\<close>

definition json_of_f64 :: "value_ops \<Rightarrow> u64 \<Rightarrow> json" where
  "json_of_f64 vo x = (if vo_f64_finite vo x then JNumber (Float x) else JNull)"

section \<open>Casting\<close>

definition schema_type :: "json \<Rightarrow> json" where
  "schema_type schema = (case json_get schema ''type'' of Some t \<Rightarrow> t | None \<Rightarrow> JString ''any'')"

definition schema_props :: "json \<Rightarrow> json_object" where
  "schema_props schema =
     (case Option.bind (json_get schema ''properties'') as_object of Some p \<Rightarrow> p | None \<Rightarrow> [])"

text \<open>The early return for a value whose Rust type already matches the type map.\<close>

definition type_matches :: "json \<Rightarrow> json \<Rightarrow> bool" where
  "type_matches target val =
     (case target of
        JString t \<Rightarrow>
          (case json_type_map t of
             Some rust \<Rightarrow>
               t \<notin> {''boolean'', ''integer'', ''array'', ''object''} \<and>
               (let first = (case rust of [] \<Rightarrow> [] | x # _ \<Rightarrow> x) in
                if first = ''String'' then is_string val
                else if first \<in> {''f64'', ''f32''} then is_number val
                else if first \<in> {''usize'', ''u64'', ''i64'', ''i32''} then is_number val
                else False)
           | None \<Rightarrow> False)
      | _ \<Rightarrow> False)"

lemma size_json_item: "x \<in> set xs \<Longrightarrow> 2 * size (x::json) \<le> Suc (2 * size_list size xs)"
  using size_list_estimation' [of x xs "size x" size] by simp

function (sequential) cast_value :: "value_ops \<Rightarrow> json \<Rightarrow> json \<Rightarrow> json"
  and cast_object :: "value_ops \<Rightarrow> json \<Rightarrow> json \<Rightarrow> json" where
  "cast_value vo val schema =
     (let target = schema_type schema in
      if target = JString ''boolean'' \<and> is_boolean val then val
      else if target = JString ''integer'' \<and> is_number val then val
      else if type_matches target val then val
      else if target = JString ''integer'' \<and> is_string val
      then (case as_str val of
              Some s \<Rightarrow> (case parse_i64 s of Some i \<Rightarrow> json_of_i64 i | None \<Rightarrow> val)
            | None \<Rightarrow> val)
      else if target = JString ''number'' \<and> is_string val
      then (case as_str val of
              Some s \<Rightarrow> (case vo_parse_f64 vo s of Some x \<Rightarrow> json_of_f64 vo x | None \<Rightarrow> val)
            | None \<Rightarrow> val)
      else if target = JString ''string''
      then (if val = JNull then val else JString (vo_show_json vo val))
      else if target = JString ''boolean'' \<and> is_string val
      then (case as_str val of
              Some s \<Rightarrow>
                (let low = vo_lower vo s in
                 if low \<in> {''true'', ''1'', ''yes''} then JBool True
                 else if low \<in> {''false'', ''0'', ''no''} then JBool False
                 else val)
            | None \<Rightarrow> val)
      else if target = JString ''array'' \<and> is_array val
      then (case (json_get schema ''items'', val) of
              (Some item_schema, JArray xs) \<Rightarrow> JArray (map (\<lambda>x. cast_value vo x item_schema) xs)
            | _ \<Rightarrow> val)
      else if target = JString ''object'' \<and> is_obj val then cast_object vo val schema
      else val)"
| "cast_object vo (JObject obj) schema =
     JObject (map (\<lambda>(k, v). (k, case map_of (schema_props schema) k of
                                  Some prop_schema \<Rightarrow> cast_value vo v prop_schema
                                | None \<Rightarrow> v)) obj)"
| "cast_object vo val schema = val"
  by pat_completeness auto
termination
  by (relation "measure (case_sum (\<lambda>(vo, v, s). 2 * size v + 1) (\<lambda>(vo, v, s). 2 * size v))")
    (auto dest: size_json_pair simp: size_json_item less_Suc_eq_le)

declare cast_value.simps [simp del]

definition cast_params :: "value_ops \<Rightarrow> json \<Rightarrow> json \<Rightarrow> json" where
  "cast_params vo parameters params =
     (if (case json_get parameters ''type'' of Some t \<Rightarrow> t | None \<Rightarrow> JString ''object'') \<noteq> JString ''object''
      then params else cast_object vo params parameters)"

section \<open>Validation\<close>

definition field_str :: "json \<Rightarrow> string \<Rightarrow> string option" where
  "field_str schema k = Option.bind (json_get schema k) as_str"

definition path_label :: "string \<Rightarrow> string" where
  "path_label path = (if path = [] then ''parameter'' else path)"

definition child_path :: "string \<Rightarrow> string \<Rightarrow> string" where
  "child_path path k = (if path = [] then k else path @ ''.'' @ k)"

definition item_path :: "string \<Rightarrow> nat \<Rightarrow> string" where
  "item_path path i =
     (if path = [] then ''['' @ show_nat i @ '']'' else path @ ''['' @ show_nat i @ '']'')"

text \<open>The type check, with its early return.\<close>

definition type_error :: "json \<Rightarrow> string option \<Rightarrow> string option" where
  "type_error val t =
     (if t = Some ''integer'' then (if \<not> is_number val \<or> \<not> is_integer val then Some ''integer'' else None)
      else if t = Some ''number'' then (if \<not> is_number val then Some ''number'' else None)
      else if t = Some ''string'' then (if \<not> is_string val then Some ''string'' else None)
      else if t = Some ''boolean'' then (if \<not> is_boolean val then Some ''boolean'' else None)
      else if t = Some ''array'' then (if \<not> is_array val then Some ''array'' else None)
      else if t = Some ''object'' \<and> \<not> is_obj val then Some ''object''
      else None)"

definition as_f64 :: "value_ops \<Rightarrow> json \<Rightarrow> u64 option" where
  "as_f64 vo v = (case v of JNumber n \<Rightarrow> Some (vo_as_f64 vo n) | _ \<Rightarrow> None)"

definition enum_errors :: "value_ops \<Rightarrow> json \<Rightarrow> json \<Rightarrow> string \<Rightarrow> string list" where
  "enum_errors vo val schema label =
     (case Option.bind (json_get schema ''enum'') as_array of
        None \<Rightarrow> []
      | Some vals \<Rightarrow>
          if \<exists>ev \<in> set vals. json_eq ev val then []
          else [label @ '' must be one of '' @ vo_show_json vo (JArray vals)])"

definition number_errors :: "value_ops \<Rightarrow> json \<Rightarrow> json \<Rightarrow> string option \<Rightarrow> string \<Rightarrow> string list" where
  "number_errors vo val schema t label =
     (if t = Some ''integer'' \<or> t = Some ''number''
      then (case as_f64 vo val of
              None \<Rightarrow> []
            | Some x \<Rightarrow>
                (case Option.bind (json_get schema ''minimum'') (as_f64 vo) of
                   Some minv \<Rightarrow> if vo_f64_less vo x minv
                                 then [label @ '' must be >= '' @ vo_show_f64 vo minv] else []
                 | None \<Rightarrow> []) @
                (case Option.bind (json_get schema ''maximum'') (as_f64 vo) of
                   Some maxv \<Rightarrow> if vo_f64_less vo maxv x
                                 then [label @ '' must be <= '' @ vo_show_f64 vo maxv] else []
                 | None \<Rightarrow> []))
      else [])"

definition string_errors :: "json \<Rightarrow> json \<Rightarrow> string option \<Rightarrow> string \<Rightarrow> string list" where
  "string_errors val schema t label =
     (if t = Some ''string''
      then (case as_str val of
              None \<Rightarrow> []
            | Some s \<Rightarrow>
                (case Option.bind (json_get schema ''minLength'') as_u64 of
                   Some n \<Rightarrow> if count_chars s < unat n
                             then [label @ '' must be at least '' @ show_nat (unat n) @ '' chars'']
                             else []
                 | None \<Rightarrow> []) @
                (case Option.bind (json_get schema ''maxLength'') as_u64 of
                   Some n \<Rightarrow> if count_chars s > unat n
                             then [label @ '' must be at most '' @ show_nat (unat n) @ '' chars'']
                             else []
                 | None \<Rightarrow> []))
      else [])"

definition required_keys :: "json \<Rightarrow> string list" where
  "required_keys schema =
     (case Option.bind (json_get schema ''required'') as_array of
        None \<Rightarrow> [] | Some ks \<Rightarrow> List.map_filter as_str ks)"

definition missing_errors :: "json_object \<Rightarrow> json \<Rightarrow> string \<Rightarrow> string list" where
  "missing_errors obj schema path =
     map (\<lambda>k. ''missing required '' @ child_path path k)
       (filter (\<lambda>k. map_of obj k = None) (required_keys schema))"

function (sequential) validate :: "value_ops \<Rightarrow> json \<Rightarrow> json \<Rightarrow> string \<Rightarrow> string list" where
  "validate vo val schema path =
     (let t = field_str schema ''type''; label = path_label path in
      case type_error val t of
        Some wanted \<Rightarrow> [label @ '' should be '' @ wanted]
      | None \<Rightarrow>
          enum_errors vo val schema label @ number_errors vo val schema t label @
          string_errors val schema t label @
          (case val of
             JObject obj \<Rightarrow>
               if t = Some ''object''
               then missing_errors obj schema path @
                 concat (map (\<lambda>(k, v). case map_of (schema_props schema) k of
                                Some prop_schema \<Rightarrow> validate vo v prop_schema (child_path path k)
                              | None \<Rightarrow> []) obj)
               else []
           | JArray xs \<Rightarrow>
               (case json_get schema ''items'' of
                  Some items \<Rightarrow>
                    if t = Some ''array''
                    then concat (map (\<lambda>(i, x). validate vo x items (item_path path i))
                                  (zip [0..<length xs] xs))
                    else []
                | None \<Rightarrow> [])
           | _ \<Rightarrow> []))"
  by pat_completeness auto
termination
  by (relation "measure (\<lambda>(vo, v, s, p). size v)")
    (auto dest: size_json_pair size_list_estimation' [OF _ order_refl] set_zip_rightD
      simp: less_Suc_eq_le)

declare validate.simps [simp del]

definition validate_params :: "value_ops \<Rightarrow> json \<Rightarrow> json \<Rightarrow> string list" where
  "validate_params vo parameters params =
     (if \<not> is_obj params then [''params must be an object'']
      else
        (let schema_type = (case field_str parameters ''type'' of Some t \<Rightarrow> t | None \<Rightarrow> ''object'') in
         if schema_type \<noteq> ''object''
         then [''Schema must be object type, got '' @ vo_debug_type vo (json_get parameters ''type'')]
         else
           (let schema_obj = (case as_object parameters of Some m \<Rightarrow> m | None \<Rightarrow> []);
                merged = JObject (obj_insert ''type'' (JString ''object'') schema_obj)
            in validate vo params merged [])))"

section \<open>Conformance: the specification of validation\<close>

definition in_range :: "value_ops \<Rightarrow> json \<Rightarrow> json \<Rightarrow> bool" where
  "in_range vo schema val \<longleftrightarrow>
     (\<forall>x. as_f64 vo val = Some x \<longrightarrow>
        (\<forall>m. Option.bind (json_get schema ''minimum'') (as_f64 vo) = Some m \<longrightarrow> \<not> vo_f64_less vo x m) \<and>
        (\<forall>m. Option.bind (json_get schema ''maximum'') (as_f64 vo) = Some m \<longrightarrow> \<not> vo_f64_less vo m x))"

definition good_length :: "json \<Rightarrow> json \<Rightarrow> bool" where
  "good_length schema val \<longleftrightarrow>
     (\<forall>s. val = JString s \<longrightarrow>
        (\<forall>n. Option.bind (json_get schema ''minLength'') as_u64 = Some n \<longrightarrow> unat n \<le> count_chars s) \<and>
        (\<forall>n. Option.bind (json_get schema ''maxLength'') as_u64 = Some n \<longrightarrow> count_chars s \<le> unat n))"

inductive conforms :: "value_ops \<Rightarrow> json \<Rightarrow> json \<Rightarrow> bool" where
  conforms: "\<lbrakk>type_error val (field_str schema ''type'') = None;
     \<forall>vals. Option.bind (json_get schema ''enum'') as_array = Some vals \<longrightarrow> (\<exists>ev \<in> set vals. json_eq ev val);
     field_str schema ''type'' \<in> {Some ''integer'', Some ''number''} \<longrightarrow> in_range vo schema val;
     field_str schema ''type'' = Some ''string'' \<longrightarrow> good_length schema val;
     \<forall>obj. field_str schema ''type'' = Some ''object'' \<longrightarrow> val = JObject obj \<longrightarrow>
       (\<forall>k \<in> set (required_keys schema). map_of obj k \<noteq> None) \<and>
       (\<forall>k v s. (k, v) \<in> set obj \<longrightarrow> map_of (schema_props schema) k = Some s \<longrightarrow> conforms vo s v);
     \<forall>xs s. field_str schema ''type'' = Some ''array'' \<longrightarrow> val = JArray xs \<longrightarrow>
       json_get schema ''items'' = Some s \<longrightarrow> (\<forall>x \<in> set xs. conforms vo s x)\<rbrakk>
   \<Longrightarrow> conforms vo schema val"

inductive_simps conforms_iff: "conforms vo schema val"

lemma enum_errors_Nil:
  "enum_errors vo val schema label = [] \<longleftrightarrow>
   (\<forall>vals. Option.bind (json_get schema ''enum'') as_array = Some vals \<longrightarrow> (\<exists>ev \<in> set vals. json_eq ev val))"
  by (auto simp: enum_errors_def split: option.splits)

lemma number_errors_Nil:
  "number_errors vo val schema t label = [] \<longleftrightarrow>
   (t \<in> {Some ''integer'', Some ''number''} \<longrightarrow> in_range vo schema val)"
  by (auto simp: number_errors_def in_range_def split: option.splits)

lemma string_errors_Nil:
  "string_errors val schema t label = [] \<longleftrightarrow> (t = Some ''string'' \<longrightarrow> good_length schema val)"
  by (cases val) (auto simp: string_errors_def good_length_def not_less split: option.splits)

lemma missing_errors_Nil:
  "missing_errors obj schema path = [] \<longleftrightarrow> (\<forall>k \<in> set (required_keys schema). map_of obj k \<noteq> None)"
  by (auto simp: missing_errors_def filter_empty_conv)

lemma concat_map_Nil: "concat (map f xs) = [] \<longleftrightarrow> (\<forall>x \<in> set xs. f x = [])"
  by auto

lemma all_zip_upt: "(\<forall>x \<in> set (zip [0..<length xs] xs). P (snd x)) \<longleftrightarrow> (\<forall>x \<in> set xs. P x)"
proof -
  have "map snd (zip [0..<length xs] xs) = xs" by simp
  then show ?thesis by (metis (no_types, lifting) image_iff list.set_map)
qed

theorem validate_Nil_iff: "validate vo val schema path = [] \<longleftrightarrow> conforms vo schema val"
proof (induction vo val schema path rule: validate.induct)
  case (1 vo val schema path)
  let ?t = "field_str schema ''type''"
  show ?case
  proof (cases "type_error val ?t")
    case (Some w)
    then show ?thesis by (simp add: validate.simps [of vo val] conforms_iff [of vo schema val] Let_def)
  next
    case None
    show ?thesis
    proof (cases val)
      case (JObject obj)
      have "validate vo v s (child_path path k) = [] \<longleftrightarrow> conforms vo s v"
        if "?t = Some ''object''" "(k, v) \<in> set obj" "map_of (schema_props schema) k = Some s" for k v s
        using 1(2) [OF refl refl None JObject that(1) that(2) refl that(3)] .
      then have "(?t = Some ''object'' \<longrightarrow> concat (map (\<lambda>(k, v). case map_of (schema_props schema) k of
            Some s \<Rightarrow> validate vo v s (child_path path k) | None \<Rightarrow> []) obj) = []) \<longleftrightarrow>
          (?t = Some ''object'' \<longrightarrow> (\<forall>k v s. (k, v) \<in> set obj \<longrightarrow>
            map_of (schema_props schema) k = Some s \<longrightarrow> conforms vo s v))"
        unfolding concat_map_Nil by (fastforce split: option.splits)
      then show ?thesis unfolding validate.simps [of vo val] conforms_iff [of vo schema val] Let_def None option.case
        by (auto simp: enum_errors_Nil number_errors_Nil string_errors_Nil missing_errors_Nil JObject)
    next
      case (JArray xs)
      have "validate vo x s (item_path path i) = [] \<longleftrightarrow> conforms vo s x"
        if "json_get schema ''items'' = Some s" "?t = Some ''array''"
          "(i, x) \<in> set (zip [0..<length xs] xs)" for s i x
        using 1(1) [OF refl refl None JArray that(1,2,3) refl] .
      then have "?t = Some ''array'' \<Longrightarrow> json_get schema ''items'' = Some s \<Longrightarrow>
          concat (map (\<lambda>(i, x). validate vo x s (item_path path i)) (zip [0..<length xs] xs)) = [] \<longleftrightarrow>
          (\<forall>x \<in> set xs. conforms vo s x)" for s
        unfolding concat_map_Nil all_zip_upt [symmetric, of xs "conforms vo s"] by fastforce
      then show ?thesis unfolding validate.simps [of vo val] conforms_iff [of vo schema val] Let_def None option.case
        by (auto simp: enum_errors_Nil number_errors_Nil string_errors_Nil JArray split: option.splits)
    qed (unfold validate.simps [of vo val] conforms_iff [of vo schema val] Let_def None option.case,
        simp_all add: enum_errors_Nil number_errors_Nil string_errors_Nil)
  qed
qed

section \<open>Casting leaves conforming values alone\<close>

lemma field_str_type: "field_str schema ''type'' = Some t \<longleftrightarrow> schema_type schema = JString t" if "t \<noteq> ''any''"
  using that by (auto simp: field_str_def schema_type_def split: option.splits)

lemma type_matches_string [simp]: "type_matches (JString ''string'') val = is_string val"
  and type_matches_number [simp]: "type_matches (JString ''number'') val = is_number val"
  by (simp_all add: type_matches_def json_type_map_def)

lemma type_matches_other [simp]:
  "type_matches (JString ''boolean'') val = False" "type_matches (JString ''integer'') val = False"
  "type_matches (JString ''array'') val = False" "type_matches (JString ''object'') val = False"
  by (simp_all add: type_matches_def json_type_map_def)

lemma cast_value_scalar:
  assumes "type_error val (field_str schema ''type'') = None"
    and "\<not> (schema_type schema = JString ''array'' \<and> is_array val)"
    and "\<not> (schema_type schema = JString ''object'' \<and> is_obj val)"
  shows "cast_value vo val schema = val"
  using assms field_str_type [of "''integer''" schema] field_str_type [of "''number''" schema]
    field_str_type [of "''string''" schema] field_str_type [of "''boolean''" schema]
    field_str_type [of "''array''" schema] field_str_type [of "''object''" schema]
  unfolding cast_value.simps [of vo val schema] Let_def
  by (cases val) (auto simp: type_error_def split: if_splits)

lemma cast_value_conforming: "conforms vo schema val \<Longrightarrow> cast_value vo val schema = val"
proof (induction rule: conforms.induct)
  case (conforms val schema vo)
  consider obj where "schema_type schema = JString ''object''" "val = JObject obj"
    | xs where "schema_type schema = JString ''array''" "val = JArray xs"
    | (scalar) "\<not> (schema_type schema = JString ''array'' \<and> is_array val)"
        "\<not> (schema_type schema = JString ''object'' \<and> is_obj val)"
    by (cases val) auto
  then show ?case
  proof cases
    case 1
    with conforms have "cast_value vo v s = v"
      if "(k, v) \<in> set obj" "map_of (schema_props schema) k = Some s" for k v s
      using that by (simp add: field_str_type)
    with 1 show ?thesis unfolding cast_value.simps [of vo val schema] Let_def
      by (auto split: option.splits intro!: map_idI)
  next
    case 2
    with conforms have "cast_value vo x s = x" if "x \<in> set xs" "json_get schema ''items'' = Some s" for x s
      using that by (simp add: field_str_type)
    with 2 show ?thesis unfolding cast_value.simps [of vo val schema] Let_def
      by (auto split: option.splits intro!: map_idI)
  next
    case scalar
    with conforms show ?thesis by (intro cast_value_scalar)
  qed
qed

text \<open>The merge of \<open>"type": "object"\<close> changes no other field of the schema.\<close>

lemma json_get_merged:
  "json_get (JObject (obj_insert ''type'' v (case as_object p of Some m \<Rightarrow> m | None \<Rightarrow> []))) k =
   (if k = ''type'' then Some v else json_get p k)"
  by (cases p) (auto simp: obj_insert_def)

lemma cast_object_conforming:
  assumes "conforms vo schema val" "schema_type schema = JString ''object''"
  shows "cast_object vo val schema = val"
proof (cases "is_obj val")
  case True
  with cast_value_conforming [OF assms(1)] assms(2) show ?thesis
    unfolding cast_value.simps [of vo val schema] Let_def by (cases val) auto
next
  case False
  then show ?thesis by (cases val) simp_all
qed

lemma cast_object_props:
  "schema_props s = schema_props s' \<Longrightarrow> cast_object vo val s = cast_object vo val s'"
  by (cases val) simp_all

lemma cast_params_valid:
  assumes "validate_params vo p params = []"
  shows "cast_params vo p params = params"
proof -
  let ?m = "JObject (obj_insert ''type'' (JString ''object'') (case as_object p of Some m \<Rightarrow> m | None \<Rightarrow> []))"
  from assms have "validate vo params ?m [] = []"
    by (auto simp: validate_params_def Let_def split: if_splits)
  then have "conforms vo ?m params" by (simp add: validate_Nil_iff)
  moreover have "schema_type ?m = JString ''object''" "schema_props ?m = schema_props p"
    unfolding schema_type_def schema_props_def json_get_merged by simp_all
  ultimately have "cast_object vo params p = params"
    using cast_object_conforming [of vo ?m params] cast_object_props [of p ?m vo params] by simp
  then show ?thesis by (simp add: cast_params_def)
qed

text \<open>What validation lets through has every required key.\<close>

lemma validate_params_required:
  assumes "validate_params vo p params = []" "k \<in> set (required_keys p)"
  shows "json_get params k \<noteq> None"
proof -
  let ?m = "JObject (obj_insert ''type'' (JString ''object'') (case as_object p of Some m \<Rightarrow> m | None \<Rightarrow> []))"
  from assms(1) have v: "conforms vo ?m params" "is_obj params"
    by (auto simp: validate_params_def validate_Nil_iff Let_def split: if_splits)
  have "required_keys ?m = required_keys p" unfolding required_keys_def json_get_merged by simp
  moreover have "field_str ?m ''type'' = Some ''object''" unfolding field_str_def json_get_merged by simp
  ultimately show ?thesis
    using v assms(2) unfolding conforms_iff [of vo ?m] by (cases params) auto
qed

end
