(* ===== verification/Tool_Registry.thy ===== *)
theory Tool_Registry
  imports Tool_Schema "HOL-Library.List_Lexorder" "HOL-Library.Char_ord"
begin

text \<open>
  The tool registry, \<open>src/agent/tools/registry.rs\<close>: registered, disabled and deferred tools, the
  tools \<open>tool_search\<close> loaded in this view, what is declared to the model, and how one call is
  resolved, cast and validated.

  A tool (\<open>dyn Tool\<close>) is the record of its methods over the state \<open>'w\<close> of the world it acts on.
  The loaded list is behind a handle that clones share; the model is one view, and
  \<open>restrict_by\<close> copies the list as the code does.
\<close>

datatype tool_exposure = Direct | Deferred

text \<open>
  How running the tool ends under a time limit in milliseconds: a result, a panic with its text,
  or the limit (only when there is one).  The first argument of \<open>tl_run\<close> is the ambient call
  identity (turn and call id), set when the turn is journaled.
\<close>

datatype tool_run = Finished tool_result | Panicked "string option" | TimedOut

record 'w tool =
  tl_name :: string
  tl_description :: string
  tl_parameters :: json
  tl_run :: "(string \<times> string) option \<Rightarrow> nat option \<Rightarrow> json \<Rightarrow> 'w \<Rightarrow> tool_run \<times> 'w"
  tl_cast :: "json \<Rightarrow> json"
  tl_validate :: "json \<Rightarrow> string list"
  tl_read_only :: bool
  tl_exclusive :: bool
  tl_replay_safe :: bool
  tl_exempt :: bool
  tl_exposure :: tool_exposure
  tl_server :: "string option"

text \<open>\<open>to_schema\<close>; the parameters survive the round trip through their own text.\<close>

definition to_schema :: "'w tool \<Rightarrow> json" where
  "to_schema tool = JObject
     [(''type'', JString ''function''),
      (''function'', JObject
         [(''name'', JString (tl_name tool)), (''description'', JString (tl_description tool)),
          (''parameters'', tl_parameters tool)])]"

definition concurrency_safe :: "'w tool \<Rightarrow> bool" where
  "concurrency_safe tool \<longleftrightarrow> tl_read_only tool \<and> \<not> tl_exclusive tool"

section \<open>The registry\<close>

datatype list_exposure = LDirect | LDeferred | LLoaded

definition is_callable :: "list_exposure \<Rightarrow> bool" where
  "is_callable e \<longleftrightarrow> e \<noteq> LDeferred"

record tool_summary =
  sm_name :: string
  sm_description :: string
  sm_exposure :: list_exposure

record catalogue_entry =
  ce_name :: string
  ce_description :: string
  ce_active :: bool

record deferred_definition =
  dd_name :: string
  dd_description :: string
  dd_parameters :: json
  dd_server_name :: "string option"
  dd_loaded :: bool

record 'w registry =
  rg_tools :: "(string \<times> 'w tool) list"
  rg_disabled :: "(string \<times> tool_summary) list"
  rg_deferred :: "string list"
  rg_loaded :: "string list"

definition registry_new :: "'w registry" where
  "registry_new = \<lparr>rg_tools = [], rg_disabled = [], rg_deferred = [], rg_loaded = []\<rparr>"

definition register :: "'w tool \<Rightarrow> 'w registry \<Rightarrow> 'w registry" where
  "register tool reg = reg\<lparr>rg_tools := AList.update (tl_name tool) tool (rg_tools reg)\<rparr>"

definition unregister :: "string \<Rightarrow> 'w registry \<Rightarrow> 'w registry" where
  "unregister name reg = reg\<lparr>rg_tools := AList.delete name (rg_tools reg)\<rparr>"

definition disable :: "string \<Rightarrow> 'w registry \<Rightarrow> 'w registry" where
  "disable name reg =
     (case map_of (rg_tools reg) name of
        None \<Rightarrow> reg
      | Some tool \<Rightarrow>
          reg\<lparr>rg_tools := AList.delete name (rg_tools reg),
              rg_disabled := AList.update name
                \<lparr>sm_name = tl_name tool, sm_description = tl_description tool,
                 sm_exposure = LDirect\<rparr> (rg_disabled reg)\<rparr>)"

definition registry_get :: "'w registry \<Rightarrow> string \<Rightarrow> 'w tool option" where
  "registry_get reg name = map_of (rg_tools reg) name"

definition registry_has :: "'w registry \<Rightarrow> string \<Rightarrow> bool" where
  "registry_has reg name \<longleftrightarrow> map_of (rg_tools reg) name \<noteq> None"

section \<open>Deferred tools\<close>

definition defer_builtins :: "string list \<Rightarrow> 'w registry \<Rightarrow> 'w registry" where
  "defer_builtins names reg = reg\<lparr>rg_deferred := rg_deferred reg @ names\<rparr>"

definition exposure_of_tool :: "'w registry \<Rightarrow> string \<Rightarrow> 'w tool \<Rightarrow> tool_exposure" where
  "exposure_of_tool reg name tool =
     (if name \<in> set (rg_deferred reg) then Deferred else tl_exposure tool)"

definition exposure_of :: "'w registry \<Rightarrow> string \<Rightarrow> tool_exposure option" where
  "exposure_of reg name = map_option (exposure_of_tool reg name) (map_of (rg_tools reg) name)"

definition has_deferred_tools :: "'w registry \<Rightarrow> bool" where
  "has_deferred_tools reg \<longleftrightarrow>
     (\<exists>(name, tool) \<in> set (rg_tools reg). exposure_of_tool reg name tool = Deferred)"

definition is_declared :: "'w registry \<Rightarrow> string \<Rightarrow> 'w tool \<Rightarrow> bool" where
  "is_declared reg name tool \<longleftrightarrow>
     exposure_of_tool reg name tool = Direct \<or> name \<in> set (rg_loaded reg)"

text \<open>The loop of \<open>load_tools\<close>: the names newly loaded, and the view with them loaded.\<close>

fun load_tools :: "string list \<Rightarrow> 'w registry \<Rightarrow> string list \<times> 'w registry" where
  "load_tools [] reg = ([], reg)"
| "load_tools (name # names) reg =
     (if exposure_of reg name = Some Deferred \<and> name \<notin> set (rg_loaded reg)
      then (case load_tools names (reg\<lparr>rg_loaded := rg_loaded reg @ [name]\<rparr>) of
              (newly, reg') \<Rightarrow> (name # newly, reg'))
      else load_tools names reg)"

definition loaded_tools :: "'w registry \<Rightarrow> string list" where
  "loaded_tools reg = filter (\<lambda>name. exposure_of reg name = Some Deferred) (rg_loaded reg)"

definition deferred_definitions :: "'w registry \<Rightarrow> deferred_definition list" where
  "deferred_definitions reg =
     sort_key dd_name
       (map (\<lambda>(name, tool).
           \<lparr>dd_name = name, dd_description = tl_description tool,
            dd_parameters = tl_parameters tool, dd_server_name = tl_server tool,
            dd_loaded = (name \<in> set (rg_loaded reg))\<rparr>)
         (filter (\<lambda>(name, tool). exposure_of_tool reg name tool = Deferred) (rg_tools reg)))"

section \<open>What the model sees\<close>

definition MCP_TOOL_PREFIX :: string where
  "MCP_TOOL_PREFIX = ''mcp_''"

definition is_mcp_tool_name :: "string \<Rightarrow> bool" where
  "is_mcp_tool_name name \<longleftrightarrow> prefix MCP_TOOL_PREFIX name"

definition schema_name :: "json \<Rightarrow> string" where
  "schema_name schema =
     (case Option.bind (Option.bind (json_get schema ''function'') (\<lambda>f. json_get f ''name'')) as_str of
        Some name \<Rightarrow> name
      | None \<Rightarrow> (case get_str schema ''name'' of Some name \<Rightarrow> name | None \<Rightarrow> []))"

text \<open>\<open>last_builtin[CACHE_BOUNDARY_KEY] = true\<close> on an object schema.\<close>

definition CACHE_BOUNDARY_KEY :: string where
  "CACHE_BOUNDARY_KEY = ''cache_boundary''"

fun mark_boundary :: "json \<Rightarrow> json" where
  "mark_boundary (JObject m) = JObject (obj_insert CACHE_BOUNDARY_KEY (JBool True) m)"
| "mark_boundary v = v"

definition mark_last :: "json list \<Rightarrow> json list" where
  "mark_last xs = (if xs = [] then [] else butlast xs @ [mark_boundary (last xs)])"

definition get_definitions :: "'w registry \<Rightarrow> json list" where
  "get_definitions reg =
     (let direct = filter (\<lambda>(name, tool). exposure_of_tool reg name tool \<noteq> Deferred) (rg_tools reg);
          mcp_tools = sort_key schema_name
            (map (\<lambda>(name, tool). to_schema tool) (filter (\<lambda>(name, tool). is_mcp_tool_name name) direct));
          builtins = sort_key schema_name
            (map (\<lambda>(name, tool). to_schema tool) (filter (\<lambda>(name, tool). \<not> is_mcp_tool_name name) direct));
          builtins = (if has_deferred_tools reg then mark_last builtins else builtins)
      in builtins @ mcp_tools @
         map to_schema (List.map_filter (\<lambda>name. map_of (rg_tools reg) name) (loaded_tools reg)))"

definition tool_names :: "'w registry \<Rightarrow> string list" where
  "tool_names reg = map fst (rg_tools reg)"

definition declared_tool_names :: "'w registry \<Rightarrow> string list" where
  "declared_tool_names reg =
     sort (map fst (filter (\<lambda>(name, tool). is_declared reg name tool) (rg_tools reg)))"

definition tool_summaries :: "'w registry \<Rightarrow> tool_summary list" where
  "tool_summaries reg =
     sort_key sm_name
       (map (\<lambda>(name, tool).
           \<lparr>sm_name = tl_name tool, sm_description = tl_description tool,
            sm_exposure = (case exposure_of_tool reg name tool of
                Direct \<Rightarrow> LDirect
              | Deferred \<Rightarrow> if name \<in> set (rg_loaded reg) then LLoaded else LDeferred)\<rparr>)
         (rg_tools reg))"

text \<open>\<open>lower\<close> stands for \<open>str::to_lowercase\<close>.\<close>

definition catalogue :: "(string \<Rightarrow> string) \<Rightarrow> 'w registry \<Rightarrow> catalogue_entry list" where
  "catalogue lower reg =
     (let active = map (\<lambda>(_, tool). \<lparr>ce_name = tl_name tool, ce_description = tl_description tool,
                                     ce_active = True\<rparr>) (rg_tools reg);
          switched_off = map (\<lambda>(_, summary). \<lparr>ce_name = sm_name summary,
                                     ce_description = sm_description summary,
                                     ce_active = False\<rparr>) (rg_disabled reg)
      in sort_key (\<lambda>entry. lower (ce_name entry))
           (filter (\<lambda>entry. \<not> is_mcp_tool_name (ce_name entry)) (active @ switched_off)))"

definition restrict_by :: "(string \<Rightarrow> bool) \<Rightarrow> 'w registry \<Rightarrow> 'w registry" where
  "restrict_by keep reg =
     \<lparr>rg_tools = filter (\<lambda>(name, _). keep name) (rg_tools reg), rg_disabled = [],
      rg_deferred = rg_deferred reg, rg_loaded = filter keep (rg_loaded reg)\<rparr>"

section \<open>Resolving and validating a call\<close>

definition resolve_tool :: "'w registry \<Rightarrow> string \<Rightarrow> string + 'w tool" where
  "resolve_tool reg name =
     (case map_of (rg_tools reg) name of
        Some tool \<Rightarrow>
          if is_declared reg name tool then Inr tool
          else Inl (''Error: Tool '' @ [CHR 0x27] @ name @ [CHR 0x27] @
                    '' is not loaded. Call tool_search first.'')
      | None \<Rightarrow>
          Inl (''Error: Tool '' @ [CHR 0x27] @ name @ [CHR 0x27] @ '' not found. Available: '' @
               join '', '' (declared_tool_names reg)))"

definition validate_call :: "string \<Rightarrow> 'w tool \<Rightarrow> json \<Rightarrow> (json \<times> string) + json" where
  "validate_call name tool params =
     (let cast = tl_cast tool params;
          errors = tl_validate tool cast
      in if errors = [] then Inr cast
         else Inl (cast,
           ''Error: Invalid parameters for tool '' @ [CHR 0x27] @ name @ [CHR 0x27] @ '': '' @
           join ''; '' errors))"

definition prepare_call :: "'w registry \<Rightarrow> string \<Rightarrow> json \<Rightarrow> 'w tool option \<times> json \<times> string option" where
  "prepare_call reg name params =
     (case resolve_tool reg name of
        Inl error \<Rightarrow> (None, params, Some error)
      | Inr tool \<Rightarrow>
          (case validate_call name tool params of
             Inr cast \<Rightarrow> (Some tool, cast, None)
           | Inl (cast, error) \<Rightarrow> (Some tool, cast, Some error)))"

section \<open>What a call can reach\<close>

lemma resolve_tool_iff:
  "resolve_tool reg name = Inr tool \<longleftrightarrow>
   map_of (rg_tools reg) name = Some tool \<and> is_declared reg name tool"
  by (auto simp: resolve_tool_def split: option.splits if_splits)

lemma prepare_call_None:
  "prepare_call reg name params = (found, cast, None) \<Longrightarrow>
   \<exists>tool. found = Some tool \<and> resolve_tool reg name = Inr tool \<and> cast = tl_cast tool params \<and>
     tl_validate tool cast = []"
  by (auto simp: prepare_call_def validate_call_def Let_def split: sum.splits if_splits)

text \<open>A restricted view resolves exactly the kept tools the source resolves.\<close>

lemma map_of_filter_key: "map_of (filter (\<lambda>(k, _). keep k) al) k = (if keep k then map_of al k else None)"
  by (induction al) auto

lemma resolve_restrict_by:
  "resolve_tool (restrict_by keep reg) name = Inr tool \<longleftrightarrow>
   keep name \<and> resolve_tool reg name = Inr tool"
  by (auto simp: resolve_tool_iff restrict_by_def map_of_filter_key is_declared_def
      exposure_of_tool_def)

section \<open>Loading\<close>

lemma load_tools_frame:
  "load_tools names reg = (newly, reg') \<Longrightarrow>
   rg_tools reg' = rg_tools reg \<and> rg_deferred reg' = rg_deferred reg \<and>
   rg_disabled reg' = rg_disabled reg \<and> rg_loaded reg' = rg_loaded reg @ newly"
proof (induction names reg arbitrary: newly reg' rule: load_tools.induct)
  case (2 name names reg)
  show ?case
  proof (cases "exposure_of reg name = Some Deferred \<and> name \<notin> set (rg_loaded reg)")
    case True
    then obtain rest where "load_tools names (reg\<lparr>rg_loaded := rg_loaded reg @ [name]\<rparr>) = (rest, reg')"
        "newly = name # rest"
      using 2(3) by (auto split: prod.splits)
    with 2(1) [OF True this(1)] show ?thesis by simp
  next
    case False
    then have "load_tools names reg = (newly, reg')" using 2(3) by (simp split: if_splits)
    from 2(2) [OF False this] show ?thesis .
  qed
qed simp

lemma exposure_of_cong:
  "rg_tools reg' = rg_tools reg \<Longrightarrow> rg_deferred reg' = rg_deferred reg \<Longrightarrow>
   exposure_of reg' = exposure_of reg"
  by (intro ext) (simp add: exposure_of_def exposure_of_tool_def map_option_case split: option.splits)

lemma load_tools_newly:
  "load_tools names reg = (newly, reg') \<Longrightarrow>
   distinct newly \<and> set newly =
     {name \<in> set names. exposure_of reg name = Some Deferred \<and> name \<notin> set (rg_loaded reg)}"
proof (induction names reg arbitrary: newly reg' rule: load_tools.induct)
  case (2 name names reg)
  show ?case
  proof (cases "exposure_of reg name = Some Deferred \<and> name \<notin> set (rg_loaded reg)")
    case True
    let ?reg = "reg\<lparr>rg_loaded := rg_loaded reg @ [name]\<rparr>"
    obtain rest where "load_tools names ?reg = (rest, reg')" "newly = name # rest"
      using 2(3) True by (auto split: prod.splits)
    moreover have "exposure_of ?reg = exposure_of reg" by (rule exposure_of_cong) simp_all
    ultimately show ?thesis using 2(1) [OF True] True by fastforce
  next
    case False
    then have "load_tools names reg = (newly, reg')" using 2(3) by (simp split: if_splits)
    from 2(2) [OF False this] False show ?thesis by auto
  qed
qed simp

lemma load_tools_declares:
  assumes "load_tools names reg = (newly, reg')" "name \<in> set names"
    and "map_of (rg_tools reg) name = Some tool"
  shows "resolve_tool reg' name = Inr tool"
proof -
  note frame = load_tools_frame [OF assms(1)] and newly = load_tools_newly [OF assms(1)]
  have "is_declared reg' name tool"
  proof (cases "exposure_of_tool reg name tool")
    case Direct
    then show ?thesis using frame by (simp add: is_declared_def exposure_of_tool_def)
  next
    case Deferred
    then have "exposure_of reg name = Some Deferred" using assms(3) by (simp add: exposure_of_def)
    then show ?thesis using frame newly assms(2) by (auto simp: is_declared_def)
  qed
  then show ?thesis using frame assms(3) by (simp add: resolve_tool_iff)
qed

text \<open>The prompt prefix survives a load: definitions are only appended.\<close>

lemma get_definitions_load:
  assumes "load_tools names reg = (newly, reg')"
  shows "get_definitions reg' = get_definitions reg @
    map to_schema (List.map_filter (map_of (rg_tools reg)) newly)"
proof -
  note frame = load_tools_frame [OF assms] and new = load_tools_newly [OF assms]
  have exp: "exposure_of_tool reg' = exposure_of_tool reg" "exposure_of reg' = exposure_of reg"
    using frame exposure_of_cong by (auto simp: exposure_of_tool_def fun_eq_iff)
  have "filter (\<lambda>name. exposure_of reg name = Some Deferred) newly = newly"
    using new by (intro filter_True) auto
  then have "loaded_tools reg' = loaded_tools reg @ newly"
    using frame by (simp add: loaded_tools_def exp)
  then show ?thesis
    using frame by (simp add: get_definitions_def has_deferred_tools_def exp Let_def)
qed

text \<open>A registry's tables have one entry per name.\<close>

definition registry_wf :: "'w registry \<Rightarrow> bool" where
  "registry_wf reg \<longleftrightarrow> distinct (map fst (rg_tools reg)) \<and> distinct (map fst (rg_disabled reg)) \<and>
     distinct (rg_loaded reg)"

lemma registry_wf_operations [store_intros]:
  "registry_wf registry_new"
  "registry_wf reg \<Longrightarrow> registry_wf (register tool reg)"
  "registry_wf reg \<Longrightarrow> registry_wf (unregister name reg)"
  "registry_wf reg \<Longrightarrow> registry_wf (disable name reg)"
  "registry_wf reg \<Longrightarrow> registry_wf (defer_builtins names reg)"
  "registry_wf reg \<Longrightarrow> registry_wf (restrict_by keep reg)"
proof -
  show "registry_wf reg \<Longrightarrow> registry_wf (restrict_by keep reg)"
    by (auto simp: registry_wf_def restrict_by_def distinct_map_filter)
qed (auto simp: registry_wf_def registry_new_def register_def unregister_def disable_def
    defer_builtins_def split: option.splits)

lemma registry_wf_load:
  "registry_wf reg \<Longrightarrow> load_tools names reg = (newly, reg') \<Longrightarrow> registry_wf reg'"
  using load_tools_frame [of names reg newly reg'] load_tools_newly [of names reg newly reg']
  by (auto simp: registry_wf_def)

end
