(* ===== verification/Text_Helpers.thy ===== *)
theory Text_Helpers
  imports Json
begin

text \<open>
  The text helpers of \<open>src/utils/helpers.rs\<close> that the journal, the inbox ledger and the tool
  pipeline share: truncation at a character boundary, safe file names, and the text of an array
  of content blocks.
\<close>

section \<open>Truncation\<close>

text \<open>\<open>while !text.is_char_boundary(end) { end -= 1; }\<close>; position 0 is always a boundary.\<close>

fun back_up :: "string \<Rightarrow> nat \<Rightarrow> nat" where
  "back_up text 0 = 0"
| "back_up text (Suc n) = (if char_boundary text (Suc n) then Suc n else back_up text n)"

definition truncate_text :: "string \<Rightarrow> nat \<Rightarrow> string" where
  "truncate_text text max_chars =
     (if max_chars = 0 \<or> length text \<le> max_chars then text
      else take (back_up text max_chars) text @ ''\<newline>... (truncated)'')"

lemma back_up_le: "back_up text n \<le> n"
  by (induction n) auto

lemma back_up_boundary: "char_boundary text (back_up text n)"
  by (induction n) (auto simp: char_boundary_def)

lemma truncate_text_short [simp]: "length text \<le> n \<Longrightarrow> truncate_text text n = text"
  by (simp add: truncate_text_def)

lemma truncate_text_length: "length (truncate_text text n) \<le> max (length text) (n + 16)"
  using back_up_le [of "text" n] by (auto simp: truncate_text_def)

text \<open>The suffix is not counted: a text cut at a character boundary exceeds the limit by 16 bytes.\<close>

lemma truncate_text_exceeds:
  "length (truncate_text t (Suc n)) \<le> Suc n + 16
   \<and> (length (truncate_text t (Suc n)) = Suc n + 16 \<longleftrightarrow> Suc n < length t \<and> char_boundary t (Suc n))"
  using back_up_le [of t n] by (auto simp: truncate_text_def)

section \<open>File names\<close>

definition UNSAFE_PATH_CHARS :: "char list" where
  "UNSAFE_PATH_CHARS = [CHR ''<'', CHR ''>'', CHR '':'', CHR 0x22, CHR ''/'', CHR 0x5C,
     CHR ''|'', CHR ''?'', CHR ''*'']"

text \<open>\<open>safe_filename\<close> of \<open>src/utils/helpers.rs\<close>; the unsafe characters are ASCII.\<close>

definition safe_filename :: "string \<Rightarrow> string" where
  "safe_filename name =
     trim (map (\<lambda>c. if c \<in> set UNSAFE_PATH_CHARS then CHR ''_'' else c) name)"

section \<open>Content blocks\<close>

text \<open>\<open>stringify_text_blocks\<close> of \<open>src/utils/helpers.rs\<close>.\<close>

definition text_of_block :: "json \<Rightarrow> string option" where
  "text_of_block block =
     (if as_object block = None then None
      else if get_str block ''type'' \<noteq> Some ''text'' then None
      else get_str block ''text'')"

fun text_parts :: "json list \<Rightarrow> string list option" where
  "text_parts [] = Some []"
| "text_parts (b # bs) =
     (case text_of_block b of None \<Rightarrow> None | Some t \<Rightarrow> map_option ((#) t) (text_parts bs))"

definition stringify_text_blocks :: "json list \<Rightarrow> string option" where
  "stringify_text_blocks blocks = map_option (join ''\<newline>'') (text_parts blocks)"

end
