(* ===== verification/Tool_Guards.thy ===== *)
theory Tool_Guards
  imports Text_Helpers
begin

text \<open>
  The state guards of the tool pipeline: the message circuit breaker
  (\<open>src/agent/circuit_breaker.rs\<close>) and the throttle on repeated external lookups with the other
  result helpers of \<open>src/utils/runtime.rs\<close>.

  The breaker is characterised by the whole history of calls it observed.  \<open>lower\<close> stands for
  \<open>str::to_lowercase\<close>; a slice off a character boundary is a panic, which is a value here.
\<close>

type_synonym arguments = "(string \<times> json) list"

section \<open>Message circuit breaker\<close>

definition DEFAULT_N_IDENTICAL_MESSAGES :: nat where
  "DEFAULT_N_IDENTICAL_MESSAGES = 5"

definition CIRCUIT_BREAKER_STOP_REASON :: string where
  "CIRCUIT_BREAKER_STOP_REASON = ''circuit_breaker''"

definition CIRCUIT_BREAKER_USER_MESSAGE :: string where
  "CIRCUIT_BREAKER_USER_MESSAGE = ''Repeated identical messages were stopped.''"

definition TRIPPED_ERROR_PREFIX :: string where
  "TRIPPED_ERROR_PREFIX = ''Error: message circuit breaker tripped''"

definition MESSAGE_TOOL_NAME :: string where
  "MESSAGE_TOOL_NAME = ''message''"

datatype circuit_decision = Allow | Tripped nat

record circuit_breaker =
  cb_threshold :: nat
  cb_last_content :: "string option"
  cb_streak :: nat
  cb_tripped :: bool

definition breaker_new :: "nat \<Rightarrow> circuit_breaker" where
  "breaker_new threshold =
     \<lparr>cb_threshold = max threshold 1, cb_last_content = None, cb_streak = 0, cb_tripped = False\<rparr>"

definition breaker_reset :: "circuit_breaker \<Rightarrow> circuit_breaker" where
  "breaker_reset b = b\<lparr>cb_last_content := None, cb_streak := 0\<rparr>"

definition message_content :: "arguments \<Rightarrow> string option" where
  "message_content arguments =
     (case Option.bind (map_of arguments ''content'') as_str of
        None \<Rightarrow> None
      | Some raw \<Rightarrow> (let trimmed = trim raw in if trimmed = [] then None else Some trimmed))"

definition observe ::
    "string \<Rightarrow> arguments \<Rightarrow> circuit_breaker \<Rightarrow> circuit_decision \<times> circuit_breaker" where
  "observe tool_name arguments b =
     (if cb_tripped b then (Tripped (cb_streak b), b)
      else if tool_name \<noteq> MESSAGE_TOOL_NAME then (Allow, breaker_reset b)
      else
        (case message_content arguments of
           None \<Rightarrow> (Allow, breaker_reset b)
         | Some content \<Rightarrow>
             (let b = (if cb_last_content b = Some content then b\<lparr>cb_streak := cb_streak b + 1\<rparr>
                       else b\<lparr>cb_last_content := Some content, cb_streak := 1\<rparr>)
              in if cb_streak b \<ge> cb_threshold b
                 then (Tripped (cb_streak b), b\<lparr>cb_tripped := True\<rparr>)
                 else (Allow, b))))"

definition tripped_error_message :: "nat \<Rightarrow> string" where
  "tripped_error_message streak =
     TRIPPED_ERROR_PREFIX @ '' after '' @ show_nat streak @ '' identical messages''"

definition is_tripped_error :: "string \<Rightarrow> bool" where
  "is_tripped_error message \<longleftrightarrow> prefix TRIPPED_ERROR_PREFIX message"

lemma is_tripped_error_message: "is_tripped_error (tripped_error_message n)"
  by (simp add: is_tripped_error_def tripped_error_message_def)

text \<open>What one observed call counts as: the trimmed text of a message, or nothing.\<close>

definition call_content :: "string \<times> arguments \<Rightarrow> string option" where
  "call_content c = (if fst c = MESSAGE_TOOL_NAME then message_content (snd c) else None)"

definition observe_all :: "(string \<times> arguments) list \<Rightarrow> circuit_breaker \<Rightarrow> circuit_breaker" where
  "observe_all calls b = foldl (\<lambda>b c. snd (observe (fst c) (snd c) b)) b calls"

definition tail_run :: "'a option list \<Rightarrow> 'a \<Rightarrow> nat" where
  "tail_run cs c = length (takeWhile (\<lambda>x. x = Some c) (rev cs))"

lemma tail_run_snoc [simp]:
  "tail_run (cs @ [x]) c = (if x = Some c then tail_run cs c + 1 else 0)"
  by (simp add: tail_run_def)

lemma tail_run_Nil [simp]: "tail_run [] c = 0"
  by (simp add: tail_run_def)

lemma suffix_replicate_iff: "suffix (replicate n (Some c)) cs \<longleftrightarrow> n \<le> tail_run cs c"
proof (induction cs arbitrary: n rule: rev_induct)
  case (snoc x cs)
  show ?case
  proof (cases n)
    case (Suc m)
    then have "replicate n (Some c) = replicate m (Some c) @ [Some c]"
      by (simp add: replicate_append_same)
    with snoc Suc show ?thesis by (auto simp: suffix_def)
  qed simp
qed simp

lemma sublist_snoc_iff: "sublist xs (ys @ [y]) \<longleftrightarrow> sublist xs ys \<or> suffix xs (ys @ [y])"
proof
  assume "sublist xs (ys @ [y])"
  then obtain ps ss where "ys @ [y] = ps @ xs @ ss" by (auto simp: sublist_def)
  then show "sublist xs ys \<or> suffix xs (ys @ [y])"
    by (cases ss rule: rev_cases) (auto simp: sublist_def suffix_def)
next
  assume "sublist xs ys \<or> suffix xs (ys @ [y])"
  then show "sublist xs (ys @ [y])"
    by (auto simp: sublist_append dest: suffix_imp_sublist)
qed

text \<open>\<open>n\<close> identical message texts in a row, anywhere in the history.\<close>

definition repeated :: "nat \<Rightarrow> string option list \<Rightarrow> bool" where
  "repeated n cs \<longleftrightarrow> (\<exists>c. sublist (replicate n (Some c)) cs)"

lemma repeated_snoc: "repeated n (cs @ [x]) \<longleftrightarrow> repeated n cs \<or> (\<exists>c. n \<le> tail_run (cs @ [x]) c)"
  unfolding repeated_def sublist_snoc_iff suffix_replicate_iff by blast

definition breaker_inv :: "nat \<Rightarrow> string option list \<Rightarrow> circuit_breaker \<Rightarrow> bool" where
  "breaker_inv n cs b \<longleftrightarrow> cb_threshold b = n \<and> (cb_tripped b \<longleftrightarrow> repeated n cs) \<and>
     (\<not> cb_tripped b \<longrightarrow>
        (case cb_last_content b of
           None \<Rightarrow> (\<forall>c. tail_run cs c = 0)
         | Some c \<Rightarrow> 0 < cb_streak b \<and> cb_streak b = tail_run cs c))"

lemma tail_run_unique: "0 < tail_run cs c \<Longrightarrow> 0 < tail_run cs d \<Longrightarrow> c = d"
  by (cases cs rule: rev_cases) (auto split: if_splits)

lemma breaker_inv_observe:
  assumes n: "0 < n" and inv: "breaker_inv n cs b"
  shows "breaker_inv n (cs @ [call_content c]) (snd (observe (fst c) (snd c) b))"
proof (cases "cb_tripped b")
  case True
  with inv show ?thesis by (simp add: breaker_inv_def observe_def repeated_snoc)
next
  case untripped: False
  show ?thesis
  proof (cases "call_content c")
    case None
    then have "snd (observe (fst c) (snd c) b) = breaker_reset b"
      using untripped by (auto simp: observe_def call_content_def split: option.splits if_splits)
    with untripped inv n None show ?thesis
      by (simp add: breaker_inv_def breaker_reset_def repeated_snoc)
  next
    case (Some m)
    then have m: "fst c = MESSAGE_TOOL_NAME" "message_content (snd c) = Some m"
      by (auto simp: call_content_def split: if_splits)
    have run: "(if cb_last_content b = Some m then cb_streak b + 1 else 1) = tail_run cs m + 1"
    proof (cases "cb_last_content b")
      case None
      then show ?thesis using inv untripped by (simp add: breaker_inv_def)
    next
      case (Some d)
      then show ?thesis using inv untripped tail_run_unique [of cs d m]
        by (auto simp: breaker_inv_def)
    qed
    have rep: "repeated n (cs @ [Some m]) \<longleftrightarrow> n \<le> tail_run cs m + 1"
      using inv untripped n by (auto simp: breaker_inv_def repeated_snoc split: if_splits)
    show ?thesis
      using untripped inv m run rep Some
      by (auto simp: breaker_inv_def observe_def Let_def split: if_splits)
  qed
qed

lemma breaker_inv_all:
  "0 < n \<Longrightarrow> breaker_inv n cs b \<Longrightarrow> breaker_inv n (cs @ map call_content calls) (observe_all calls b)"
proof (induction calls arbitrary: cs b)
  case (Cons c calls)
  from Cons.IH [OF Cons.prems(1) breaker_inv_observe [OF Cons.prems, of c]]
  show ?case by (simp add: observe_all_def)
qed (simp add: observe_all_def)

text \<open>The breaker is open exactly when some text was sent that often in a row.\<close>

lemma breaker_tripped_iff:
  "cb_tripped (observe_all calls (breaker_new t)) \<longleftrightarrow> repeated (max t 1) (map call_content calls)"
proof -
  have "\<not> repeated (max t 1) []" by (auto simp: repeated_def)
  then have "breaker_inv (max t 1) [] (breaker_new t)"
    by (simp add: breaker_inv_def breaker_new_def)
  from breaker_inv_all [OF _ this] show ?thesis by (simp add: breaker_inv_def)
qed

section \<open>Repeated external lookups\<close>

definition MAX_REPEAT_EXTERNAL_LOOKUPS :: nat where
  "MAX_REPEAT_EXTERNAL_LOOKUPS = 3"

definition arg_str :: "json option \<Rightarrow> string" where
  "arg_str v = (case Option.bind v as_str of Some s \<Rightarrow> s | None \<Rightarrow> [])"

definition external_lookup_signature ::
    "(string \<Rightarrow> string) \<Rightarrow> string \<Rightarrow> arguments \<Rightarrow> string option" where
  "external_lookup_signature lower tool_name arguments =
     (if tool_name = ''web_fetch''
      then (let url = lower (trim (arg_str (map_of arguments ''url'')))
            in if url \<noteq> [] then Some (''web_fetch:'' @ url) else None)
      else if tool_name = ''web_search''
      then (let query = lower (trim (arg_str
                  (case map_of arguments ''query'' of
                     Some v \<Rightarrow> Some v | None \<Rightarrow> map_of arguments ''search_term'')))
            in if query \<noteq> [] then Some (''web_search:'' @ query) else None)
      else None)"

definition REPEATED_LOOKUP_ERROR :: string where
  "REPEATED_LOOKUP_ERROR = ''Error: repeated external lookup blocked. '' @
     ''Use the results you already have to answer, or try a meaningfully different source.''"

text \<open>
  The result is the guard's verdict or a panic: the warning slices the signature at byte 160,
  and its arguments are only evaluated when the logger is enabled for warnings.
\<close>

datatype 'a returns = Panics | Returns 'a

type_synonym lookup_counts = "(string \<times> nat) list"

definition repeated_external_lookup_error ::
    "(string \<Rightarrow> string) \<Rightarrow> bool \<Rightarrow> string \<Rightarrow> arguments \<Rightarrow> lookup_counts \<Rightarrow>
     string option returns \<times> lookup_counts" where
  "repeated_external_lookup_error lower log_warn tool_name arguments seen_counts =
     (case external_lookup_signature lower tool_name arguments of
        None \<Rightarrow> (Returns None, seen_counts)
      | Some signature \<Rightarrow>
          (let count = (case map_of seen_counts signature of Some n \<Rightarrow> n | None \<Rightarrow> 0) + 1;
               seen_counts = AList.update signature count seen_counts
           in if count \<le> MAX_REPEAT_EXTERNAL_LOOKUPS then (Returns None, seen_counts)
              else if log_warn \<and> \<not> char_boundary signature (min (length signature) 160)
              then (Panics, seen_counts)
              else (Returns (Some REPEATED_LOOKUP_ERROR), seen_counts)))"

definition count_of :: "lookup_counts \<Rightarrow> string \<Rightarrow> nat" where
  "count_of counts signature = (case map_of counts signature of Some n \<Rightarrow> n | None \<Rightarrow> 0)"

lemma count_of_update [simp]:
  "count_of (AList.update s n counts) s' = (if s' = s then n else count_of counts s')"
  by (simp add: count_of_def)

lemma repeated_lookup_counts:
  "count_of (snd (repeated_external_lookup_error lower w name args counts)) s =
   count_of counts s + (if external_lookup_signature lower name args = Some s then 1 else 0)"
  by (auto simp: repeated_external_lookup_error_def Let_def count_of_def split: option.splits)

lemma repeated_lookup_result:
  "fst (repeated_external_lookup_error lower w name args counts) =
   (case external_lookup_signature lower name args of
      None \<Rightarrow> Returns None
    | Some s \<Rightarrow>
        if count_of counts s < MAX_REPEAT_EXTERNAL_LOOKUPS then Returns None
        else if w \<and> \<not> char_boundary s (min (length s) 160) then Panics
        else Returns (Some REPEATED_LOOKUP_ERROR))"
  by (auto simp: repeated_external_lookup_error_def Let_def count_of_def split: option.splits)

text \<open>The calls seen so far, and the same signature among them.\<close>

definition lookup_all ::
    "(string \<Rightarrow> string) \<Rightarrow> bool \<Rightarrow> (string \<times> arguments) list \<Rightarrow> lookup_counts \<Rightarrow> lookup_counts" where
  "lookup_all lower w calls counts =
     foldl (\<lambda>n c. snd (repeated_external_lookup_error lower w (fst c) (snd c) n)) counts calls"

lemma count_of_lookup_all:
  "count_of (lookup_all lower w calls counts) s = count_of counts s +
   length (filter (\<lambda>c. external_lookup_signature lower (fst c) (snd c) = Some s) calls)"
  by (induction calls arbitrary: counts) (auto simp: lookup_all_def repeated_lookup_counts)

lemma lookup_verdict:
  "fst (repeated_external_lookup_error lower w name args (lookup_all lower w calls [])) =
   (case external_lookup_signature lower name args of
      None \<Rightarrow> Returns None
    | Some s \<Rightarrow>
        if length (filter (\<lambda>c. external_lookup_signature lower (fst c) (snd c) = Some s) calls)
           < MAX_REPEAT_EXTERNAL_LOOKUPS then Returns None
        else if w \<and> \<not> char_boundary s (min (length s) 160) then Panics
        else Returns (Some REPEATED_LOOKUP_ERROR))"
  unfolding repeated_lookup_result count_of_lookup_all
  by (cases "external_lookup_signature lower name args") (simp_all add: count_of_def)

section \<open>Shaping results\<close>

definition empty_tool_result_message :: "string \<Rightarrow> string" where
  "empty_tool_result_message tool_name = ''('' @ tool_name @ '' completed with no output)''"

definition ensure_nonempty_tool_result :: "string \<Rightarrow> json \<Rightarrow> json" where
  "ensure_nonempty_tool_result tool_name content =
     (case content of
        JNull \<Rightarrow> JString (empty_tool_result_message tool_name)
      | JString s \<Rightarrow> if trim s = [] then JString (empty_tool_result_message tool_name) else content
      | JArray blocks \<Rightarrow>
          if blocks = [] then JString (empty_tool_result_message tool_name)
          else (case stringify_text_blocks blocks of
                  Some t \<Rightarrow> if trim t = [] then JString (empty_tool_result_message tool_name) else content
                | None \<Rightarrow> content)
      | _ \<Rightarrow> content)"

definition is_content_block_array :: "json \<Rightarrow> bool" where
  "is_content_block_array v =
     (case v of
        JArray items \<Rightarrow> items \<noteq> [] \<and> (\<forall>block \<in> set items. get_str block ''type'' \<noteq> None)
      | _ \<Rightarrow> False)"

text \<open>\<open>parse\<close> stands for \<open>serde_json::from_str\<close>.\<close>

definition coerce_tool_execute_result :: "(string \<Rightarrow> json option) \<Rightarrow> string \<Rightarrow> json" where
  "coerce_tool_execute_result parse result =
     (if prefix ''['' (trim_start result)
      then (case parse result of
              Some v \<Rightarrow> if is_content_block_array v then v else JString result
            | None \<Rightarrow> JString result)
      else JString result)"

definition is_blank_text :: "string option \<Rightarrow> bool" where
  "is_blank_text content \<longleftrightarrow> (case content of None \<Rightarrow> True | Some s \<Rightarrow> trim s = [])"

end
