(* ===== verification/Journal.thy ===== *)
theory Journal
  imports Json
begin

text \<open>
  The per-session run journal, \<open>src/session/journal.rs\<close>: the record types, the scan result
  with its sequence gaps, the \<open>JournalStore\<close> trait, the \<open>RunJournal\<close> handle and the in-memory
  store.

  The trait is the record \<open>journal_store\<close> of its operations over a store state, so that the
  clients (turn journal, inbox ledger, recovery) take "any store" as the code does with
  \<open>dyn JournalStore\<close>.  What the trait's documentation promises is the locale \<open>journal_laws\<close>;
  it is interpreted on the in-memory store below and proved for the file store in
  \<open>Journal_File\<close>.

  The clock is an argument (the RFC 3339 text of \<open>Utc::now()\<close>), an \<open>io::Error\<close> is its message,
  and the \<open>u64\<close> sequence numbers are natural numbers: 2 to the 64 appends are out of reach.
\<close>

section \<open>Records\<close>

datatype turn_outcome = Completed | Cancelled | Failed | Abandoned

datatype tool_call_status = Intent | CallDone | CallError | CallBlocked | CallCancelled

definition is_terminal :: "tool_call_status \<Rightarrow> bool" where
  "is_terminal s \<longleftrightarrow> s \<noteq> Intent"

declare is_terminal_def [simp]

text \<open>
  The order in which a call's status can develop: an intent may become anything, a terminal
  status stays.
\<close>

instantiation tool_call_status :: order
begin

definition less_eq_tool_call_status :: "tool_call_status \<Rightarrow> tool_call_status \<Rightarrow> bool" where
  "less_eq_tool_call_status s t \<longleftrightarrow> s = Intent \<or> s = t"

definition less_tool_call_status :: "tool_call_status \<Rightarrow> tool_call_status \<Rightarrow> bool" where
  "less_tool_call_status s t \<longleftrightarrow> s = Intent \<and> t \<noteq> Intent"

instance
  by standard (auto simp: less_eq_tool_call_status_def less_tool_call_status_def)

end

lemma status_le_iff [simp]: "s \<le> t \<longleftrightarrow> s = Intent \<or> s = (t :: tool_call_status)"
  by (simp add: less_eq_tool_call_status_def)

datatype step_kind = PreModel | PreTool | PreCompaction | FinalStep

datatype inbox_state = Queued | Processing | InboxDone

text \<open>
  The fields in the source's order.  \<open>TurnStart\<close>: turn id, session key, request id, user
  message, attempt, channel, chat id.  \<open>ToolIntent\<close>: turn id, call id, tool name, args,
  replay safe, status, result.  \<open>Inbox\<close>: request id, channel, chat id, session key, state,
  outcome, turn id, message.
\<close>

datatype journal_record =
    TurnStart string string "string option" "json option" u32 "string option" "string option"
  | TurnEnd string turn_outcome
  | TurnRestored string
  | ToolIntent string string string json bool tool_call_status "string option"
  | StepCheckpoint string step_kind json
  | Inbox string string string string inbox_state "string option" "string option" "json option"
  | Degraded "string option" string

fun record_turn_id :: "journal_record \<Rightarrow> string option" where
  "record_turn_id (TurnStart t _ _ _ _ _ _) = Some t"
| "record_turn_id (TurnEnd t _) = Some t"
| "record_turn_id (TurnRestored t) = Some t"
| "record_turn_id (ToolIntent t _ _ _ _ _ _) = Some t"
| "record_turn_id (StepCheckpoint t _ _) = Some t"
| "record_turn_id (Inbox _ _ _ _ _ _ t _) = t"
| "record_turn_id (Degraded t _) = t"

record journal_entry =
  entry_v :: u32
  entry_seq :: nat
  entry_ts :: string
  entry_record :: journal_record

definition JOURNAL_SCHEMA_VERSION :: u32 where
  "JOURNAL_SCHEMA_VERSION = 1"

text \<open>\<open>JournalEntry::new\<close>, with the current time as an argument.\<close>

definition new_entry :: "string \<Rightarrow> nat \<Rightarrow> journal_record \<Rightarrow> journal_entry" where
  "new_entry now seq r =
     \<lparr>entry_v = JOURNAL_SCHEMA_VERSION, entry_seq = seq, entry_ts = now, entry_record = r\<rparr>"

lemma new_entry_simps [simp]:
  "entry_v (new_entry now n r) = JOURNAL_SCHEMA_VERSION" "entry_seq (new_entry now n r) = n"
  "entry_ts (new_entry now n r) = now" "entry_record (new_entry now n r) = r"
  by (simp_all add: new_entry_def)

section \<open>Scans and sequence gaps\<close>

record journal_scan =
  scan_entries :: "journal_entry list"
  skipped_lines :: nat
  seq_gaps :: "(nat \<times> nat) list"

text \<open>The loop of \<open>JournalScan::from_entries\<close>: state is the gaps found and the expected number.\<close>

fun gap_step :: "(nat \<times> nat) list \<times> nat option \<Rightarrow> journal_entry \<Rightarrow> (nat \<times> nat) list \<times> nat option" where
  "gap_step (gaps, expected) e =
     ((case expected of
         Some n \<Rightarrow> if entry_seq e \<noteq> n then gaps @ [(n, entry_seq e)] else gaps
       | None \<Rightarrow> gaps),
      Some (entry_seq e + 1))"

definition from_entries :: "journal_entry list \<Rightarrow> nat \<Rightarrow> journal_scan" where
  "from_entries es skipped =
     \<lparr>scan_entries = es, skipped_lines = skipped, seq_gaps = fst (foldl gap_step ([], None) es)\<rparr>"

lemma scan_entries_from_entries [simp]: "scan_entries (from_entries es n) = es"
  by (simp add: from_entries_def)

lemma skipped_from_entries [simp]: "skipped_lines (from_entries es n) = n"
  by (simp add: from_entries_def)

text \<open>Consecutive numbers: what a journal looks like that lost nothing.\<close>

fun consecutive :: "nat list \<Rightarrow> bool" where
  "consecutive [] = True"
| "consecutive [x] = True"
| "consecutive (x # y # ys) = (y = x + 1 \<and> consecutive (y # ys))"

lemma gap_fold_prefix:
  "\<exists>more. fst (foldl gap_step (gaps, expected) es) = gaps @ more"
proof (induction es arbitrary: gaps expected)
  case (Cons e es)
  obtain g n where step: "gap_step (gaps, expected) e = (g, n)" by (cases "gap_step (gaps, expected) e")
  then have "\<exists>m. g = gaps @ m" by (auto split: option.splits if_splits)
  with Cons [of g n] step show ?case by auto
qed simp

lemma gap_fold_expected:
  "fst (foldl gap_step (gaps, Some n) es) = gaps \<longleftrightarrow>
   consecutive (map entry_seq es) \<and> (es \<noteq> [] \<longrightarrow> entry_seq (hd es) = n)"
proof (induction es arbitrary: gaps n)
  case (Cons e es)
  show ?case
  proof (cases "entry_seq e = n")
    case True
    then show ?thesis using Cons [of gaps "n + 1"] by (cases es) auto
  next
    case False
    obtain more where "fst (foldl gap_step (gaps @ [(n, entry_seq e)], Some (entry_seq e + 1)) es)
        = (gaps @ [(n, entry_seq e)]) @ more"
      using gap_fold_prefix by blast
    with False show ?thesis by simp
  qed
qed simp

lemma no_gaps_iff_consecutive:
  "seq_gaps (from_entries es n) = [] \<longleftrightarrow> consecutive (map entry_seq es)"
proof (cases es)
  case (Cons e es')
  then show ?thesis
    using gap_fold_expected [of "[]" "entry_seq e + 1" es']
    by (cases es') (auto simp: from_entries_def)
qed (simp add: from_entries_def)

section \<open>The \<open>JournalStore\<close> trait\<close>

datatype durability = Flushed | Synced

type_synonym io_error = string

text \<open>
  The operations of \<open>dyn JournalStore\<close>.  \<open>js_append\<close> takes the time stamp of the entry after
  the session key.  \<open>js_rewrite\<close> takes the closure as a function on the entries.
\<close>

record 'st journal_store =
  js_append :: "'st \<Rightarrow> string \<Rightarrow> string \<Rightarrow> journal_record \<Rightarrow> durability \<Rightarrow> (io_error + nat) \<times> 'st"
  js_scan :: "'st \<Rightarrow> string \<Rightarrow> journal_scan"
  js_scan_all :: "'st \<Rightarrow> journal_scan list"
  js_rewrite :: "'st \<Rightarrow> string \<Rightarrow> (journal_entry list \<Rightarrow> journal_entry list) \<Rightarrow> (io_error + unit) \<times> 'st"
  js_delete :: "'st \<Rightarrow> string \<Rightarrow> (io_error + unit) \<times> 'st"

text \<open>The entries of one session in a store.\<close>

abbreviation entries_of :: "('st, 'z) journal_store_scheme \<Rightarrow> 'st \<Rightarrow> string \<Rightarrow> journal_entry list" where
  "entries_of ops st key \<equiv> scan_entries (js_scan ops st key)"

text \<open>Entries this version can read back: no future schema version.\<close>

definition readable :: "journal_entry list \<Rightarrow> bool" where
  "readable es \<longleftrightarrow> (\<forall>e\<in>set es. entry_v e \<le> JOURNAL_SCHEMA_VERSION)"

lemma readable_simps [simp]:
  "readable []" "readable (e # es) \<longleftrightarrow> entry_v e \<le> JOURNAL_SCHEMA_VERSION \<and> readable es"
  "readable (es @ fs) \<longleftrightarrow> readable es \<and> readable fs"
  by (auto simp: readable_def)

lemma readable_filter [simp, intro]: "readable es \<Longrightarrow> readable (filter p es)"
  by (auto simp: readable_def)

text \<open>
  What the trait promises.  \<open>slot\<close> is where a session's journal is kept: operations on one slot
  never touch another.  \<open>next_number\<close> is the number the next successful append returns.
\<close>

locale journal_laws =
  fixes ops :: "'st journal_store"
    and inv :: "'st \<Rightarrow> bool"
    and slot :: "string \<Rightarrow> 'k"
    and next_number :: "'st \<Rightarrow> string \<Rightarrow> nat"
  assumes slot_scan: "inv st \<Longrightarrow> slot key' = slot key \<Longrightarrow> js_scan ops st key' = js_scan ops st key"
    and scan_readable: "inv st \<Longrightarrow> readable (entries_of ops st key)"
    and append_inv: "inv st \<Longrightarrow> js_append ops st key now r d = (res, st') \<Longrightarrow> inv st'"
    and append_ok: "inv st \<Longrightarrow> js_append ops st key now r d = (Inr n, st') \<Longrightarrow>
      n = next_number st key \<and> next_number st' key = Suc n \<and>
      entries_of ops st' key = entries_of ops st key @ [new_entry now n r]"
    and append_err: "inv st \<Longrightarrow> js_append ops st key now r d = (Inl err, st') \<Longrightarrow>
      entries_of ops st' key = entries_of ops st key \<or>
      entries_of ops st' key = entries_of ops st key @ [new_entry now (next_number st key) r]"
    and append_frame: "inv st \<Longrightarrow> js_append ops st key now r d = (res, st') \<Longrightarrow>
      slot key' \<noteq> slot key \<Longrightarrow> js_scan ops st' key' = js_scan ops st key'"
    and rewrite_inv: "inv st \<Longrightarrow> js_rewrite ops st key f = (wres, st') \<Longrightarrow>
      readable (f (entries_of ops st key)) \<Longrightarrow> inv st'"
    and rewrite_ok: "inv st \<Longrightarrow> js_rewrite ops st key f = (Inr u, st') \<Longrightarrow>
      readable (f (entries_of ops st key)) \<Longrightarrow>
      entries_of ops st' key = f (entries_of ops st key)"
    and rewrite_err: "inv st \<Longrightarrow> js_rewrite ops st key f = (Inl err, st') \<Longrightarrow>
      entries_of ops st' key = entries_of ops st key"
    and rewrite_frame: "inv st \<Longrightarrow> js_rewrite ops st key f = (wres, st') \<Longrightarrow>
      slot key' \<noteq> slot key \<Longrightarrow> js_scan ops st' key' = js_scan ops st key'"
    and rewrite_number: "inv st \<Longrightarrow> js_rewrite ops st key f = (wres, st') \<Longrightarrow>
      next_number st key \<le> next_number st' key"
    and delete_inv: "inv st \<Longrightarrow> js_delete ops st key = (wres, st') \<Longrightarrow> inv st'"
    and delete_ok: "inv st \<Longrightarrow> js_delete ops st key = (Inr u, st') \<Longrightarrow> entries_of ops st' key = []"
    and delete_frame: "inv st \<Longrightarrow> js_delete ops st key = (wres, st') \<Longrightarrow>
      slot key' \<noteq> slot key \<Longrightarrow> js_scan ops st' key' = js_scan ops st key'"

section \<open>The per-session handle\<close>

text \<open>\<open>RunJournal\<close>: the store is threaded beside it; \<open>rj_degraded\<close> is its \<open>AtomicBool\<close>.\<close>

record run_journal =
  rj_session_key :: string
  rj_degraded :: bool

definition rj_new :: "string \<Rightarrow> run_journal" where
  "rj_new key = \<lparr>rj_session_key = key, rj_degraded = False\<rparr>"

definition rj_append ::
    "'st journal_store \<Rightarrow> run_journal \<Rightarrow> string \<Rightarrow> journal_record \<Rightarrow> 'st \<Rightarrow> (io_error + nat) \<times> 'st" where
  "rj_append ops rj now r st = js_append ops st (rj_session_key rj) now r Flushed"

definition rj_append_synced ::
    "'st journal_store \<Rightarrow> run_journal \<Rightarrow> string \<Rightarrow> journal_record \<Rightarrow> 'st \<Rightarrow> (io_error + nat) \<times> 'st" where
  "rj_append_synced ops rj now r st = js_append ops st (rj_session_key rj) now r Synced"

definition rj_scan :: "'st journal_store \<Rightarrow> run_journal \<Rightarrow> 'st \<Rightarrow> journal_scan" where
  "rj_scan ops rj st = js_scan ops st (rj_session_key rj)"

definition rj_rewrite ::
    "'st journal_store \<Rightarrow> run_journal \<Rightarrow> (journal_entry list \<Rightarrow> journal_entry list) \<Rightarrow> 'st \<Rightarrow>
     (io_error + unit) \<times> 'st" where
  "rj_rewrite ops rj f st = js_rewrite ops st (rj_session_key rj) f"

text \<open>
  \<open>RunJournal::compact\<close>: the number dropped is the captured counter of the closure, which sees
  the entries the store reads, the ones a scan returns.
\<close>

definition rj_compact ::
    "'st journal_store \<Rightarrow> run_journal \<Rightarrow> (journal_entry \<Rightarrow> bool) \<Rightarrow> 'st \<Rightarrow> (io_error + nat) \<times> 'st" where
  "rj_compact ops rj keep st =
     (let total = length (scan_entries (rj_scan ops rj st));
          kept = length (filter keep (scan_entries (rj_scan ops rj st)))
      in case rj_rewrite ops rj (filter keep) st of
           (Inl e, st') \<Rightarrow> (Inl e, st')
         | (Inr _, st') \<Rightarrow> (Inr (total - kept), st'))"

definition rj_mark_degraded :: "run_journal \<Rightarrow> bool \<times> run_journal" where
  "rj_mark_degraded rj = (\<not> rj_degraded rj, rj\<lparr>rj_degraded := True\<rparr>)"

context journal_laws
begin

lemma append_entries_cases:
  assumes "inv st" and "js_append ops st key now r d = (res, st')"
  obtains "entries_of ops st' key = entries_of ops st key"
  | n where "entries_of ops st' key = entries_of ops st key @ [new_entry now n r]"
  using assms by (cases res) (auto dest: append_ok append_err)

lemma rj_append_ok:
  "inv st \<Longrightarrow> rj_append ops rj now r st = (Inr n, st') \<Longrightarrow>
   scan_entries (rj_scan ops rj st') = scan_entries (rj_scan ops rj st) @ [new_entry now n r]"
  by (simp add: rj_append_def rj_scan_def append_ok)

lemma rj_append_synced_ok:
  "inv st \<Longrightarrow> rj_append_synced ops rj now r st = (Inr n, st') \<Longrightarrow>
   scan_entries (rj_scan ops rj st') = scan_entries (rj_scan ops rj st) @ [new_entry now n r]"
  by (simp add: rj_append_synced_def rj_scan_def append_ok)

lemma rj_compact_ok:
  assumes inv: "inv st" and run: "rj_compact ops rj keep st = (Inr n, st')"
  shows "scan_entries (rj_scan ops rj st') = filter keep (scan_entries (rj_scan ops rj st))"
    and "n + length (scan_entries (rj_scan ops rj st')) = length (scan_entries (rj_scan ops rj st))"
proof -
  let ?es = "entries_of ops st (rj_session_key rj)"
  have rd: "readable (filter keep ?es)" using scan_readable [OF inv] by auto
  from run obtain u where w: "js_rewrite ops st (rj_session_key rj) (filter keep) = (Inr u, st')"
      and n: "n = length ?es - length (filter keep ?es)"
    by (auto simp: rj_compact_def rj_rewrite_def rj_scan_def Let_def split: prod.splits sum.splits)
  show eq: "scan_entries (rj_scan ops rj st') = filter keep (scan_entries (rj_scan ops rj st))"
    using rewrite_ok [OF inv w rd] by (simp add: rj_scan_def)
  show "n + length (scan_entries (rj_scan ops rj st')) = length (scan_entries (rj_scan ops rj st))"
    unfolding eq n by (simp add: rj_scan_def)
qed

lemma rj_compact_err:
  assumes "inv st" "rj_compact ops rj keep st = (Inl e, st')"
  shows "scan_entries (rj_scan ops rj st') = scan_entries (rj_scan ops rj st)"
  using assms
  by (auto simp: rj_compact_def rj_rewrite_def rj_scan_def Let_def
      split: prod.splits sum.splits dest: rewrite_err)

lemma rj_compact_inv:
  assumes inv: "inv st" and run: "rj_compact ops rj keep st = (res, st')"
  shows "inv st'"
proof -
  have rd: "readable (filter keep (entries_of ops st (rj_session_key rj)))"
    using scan_readable [OF inv] by auto
  from run obtain res' where "js_rewrite ops st (rj_session_key rj) (filter keep) = (res', st')"
    by (auto simp: rj_compact_def rj_rewrite_def Let_def split: prod.splits sum.splits)
  from rewrite_inv [OF inv this rd] show ?thesis .
qed

end

end
