(* ===== verification/Journal_Memory.thy ===== *)
theory Journal_Memory
  imports Journal
begin

text \<open>
  \<open>InMemoryJournalStore\<close> of \<open>src/session/journal.rs\<close>, the second implementation of the trait:
  a map from session key to entries and next sequence number.  It satisfies \<open>journal_laws\<close>
  with one slot per session key and never fails.
\<close>

record memory_journal =
  mem_entries :: "journal_entry list"
  mem_next_seq :: nat

type_synonym memory_store = "(string \<times> memory_journal) list"

definition memory_default :: memory_journal where
  "memory_default = \<lparr>mem_entries = [], mem_next_seq = 0\<rparr>"

text \<open>\<open>sessions.entry(key).or_default()\<close>.\<close>

definition mem_journal :: "memory_store \<Rightarrow> string \<Rightarrow> memory_journal" where
  "mem_journal st key = (case map_of st key of None \<Rightarrow> memory_default | Some j \<Rightarrow> j)"

definition mem_append ::
    "memory_store \<Rightarrow> string \<Rightarrow> string \<Rightarrow> journal_record \<Rightarrow> durability \<Rightarrow>
     (io_error + nat) \<times> memory_store" where
  "mem_append st key now r d =
     (let journal = mem_journal st key;
          seq = max (mem_next_seq journal) 1
      in (Inr seq,
          AList.update key
            (journal\<lparr>mem_entries := mem_entries journal @ [new_entry now seq r],
                     mem_next_seq := seq + 1\<rparr>) st))"

definition mem_scan :: "memory_store \<Rightarrow> string \<Rightarrow> journal_scan" where
  "mem_scan st key =
     from_entries (case map_of st key of None \<Rightarrow> [] | Some j \<Rightarrow> mem_entries j) 0"

definition mem_scan_all :: "memory_store \<Rightarrow> journal_scan list" where
  "mem_scan_all st =
     map (\<lambda>j. from_entries (mem_entries j) 0)
       (filter (\<lambda>j. mem_entries j \<noteq> []) (map snd st))"

definition mem_rewrite ::
    "memory_store \<Rightarrow> string \<Rightarrow> (journal_entry list \<Rightarrow> journal_entry list) \<Rightarrow>
     (io_error + unit) \<times> memory_store" where
  "mem_rewrite st key f =
     (let journal = mem_journal st key;
          highest = (if mem_entries journal = [] then 0 else entry_seq (last (mem_entries journal)))
      in (Inr (),
          AList.update key
            (journal\<lparr>mem_next_seq := max (mem_next_seq journal) (highest + 1),
                     mem_entries := f (mem_entries journal)\<rparr>) st))"

definition mem_delete :: "memory_store \<Rightarrow> string \<Rightarrow> (io_error + unit) \<times> memory_store" where
  "mem_delete st key =
     (case map_of st key of
        None \<Rightarrow> (Inr (), st)
      | Some journal \<Rightarrow> (Inr (), AList.update key (journal\<lparr>mem_entries := []\<rparr>) st))"

definition memory_ops :: "memory_store journal_store" where
  "memory_ops =
     \<lparr>js_append = mem_append, js_scan = mem_scan, js_scan_all = mem_scan_all,
      js_rewrite = mem_rewrite, js_delete = mem_delete\<rparr>"

lemma memory_ops_simps [simp]:
  "js_append memory_ops = mem_append" "js_scan memory_ops = mem_scan"
  "js_scan_all memory_ops = mem_scan_all" "js_rewrite memory_ops = mem_rewrite"
  "js_delete memory_ops = mem_delete"
  by (simp_all add: memory_ops_def)

lemma memory_default_simps [simp]: "mem_entries memory_default = []" "mem_next_seq memory_default = 0"
  by (simp_all add: memory_default_def)

lemma scan_entries_mem [simp]: "scan_entries (mem_scan st key) = mem_entries (mem_journal st key)"
  by (auto simp: mem_scan_def mem_journal_def split: option.splits)

lemma mem_scan_cong: "map_of st' key = map_of st key \<Longrightarrow> mem_scan st' key = mem_scan st key"
  by (simp add: mem_scan_def)

lemma mem_journal_update [simp]:
  "mem_journal (AList.update key j st) key' = (if key' = key then j else mem_journal st key')"
  by (simp add: mem_journal_def)

text \<open>The store invariant: one journal per key, everything in it readable.\<close>

definition mem_inv :: "memory_store \<Rightarrow> bool" where
  "mem_inv st \<longleftrightarrow> distinct (map fst st) \<and> (\<forall>key. readable (mem_entries (mem_journal st key)))"

lemma mem_inv_empty: "mem_inv []"
  by (simp add: mem_inv_def mem_journal_def)

definition mem_next_number :: "memory_store \<Rightarrow> string \<Rightarrow> nat" where
  "mem_next_number st key = max (mem_next_seq (mem_journal st key)) 1"

lemma mem_journal_None: "map_of st key = None \<Longrightarrow> mem_journal st key = memory_default"
  by (simp add: mem_journal_def)

interpretation mem: journal_laws memory_ops mem_inv "\<lambda>key. key" mem_next_number
  by unfold_locales
    (auto simp: mem_inv_def mem_next_number_def mem_append_def mem_rewrite_def mem_delete_def
       Let_def mem_journal_None split: option.splits intro!: mem_scan_cong)

end
