(* ===== verification/Turn_Journal.thy ===== *)
theory Turn_Journal
  imports Journal_Memory
begin

text \<open>
  Journaling of one agent turn, \<open>src/agent/turn_journal.rs\<close>: best-effort and strict mode, the
  degraded marker, tool-call intents with their in-flight guard, and the turn guard.

  The journal handle (whose degraded flag is shared) and the store are threaded as a pair; a
  guard's \<open>Drop\<close> is an explicit operation, with \<open>std::thread::panicking()\<close> as an argument.
  Every operation takes the time stamp its records get.
\<close>

section \<open>The handle\<close>

datatype journal_mode = BestEffort | Strict

record turn_journal =
  tj_turn_id :: string
  tj_mode :: journal_mode

datatype intent_not_persisted = IntentNotPersisted string

definition tj_new :: "string \<Rightarrow> turn_journal" where
  "tj_new turn_id = \<lparr>tj_turn_id = turn_id, tj_mode = BestEffort\<rparr>"

definition with_mode :: "journal_mode \<Rightarrow> turn_journal \<Rightarrow> turn_journal" where
  "with_mode mode turn = turn\<lparr>tj_mode := mode\<rparr>"

type_synonym 'st journal_world = "run_journal \<times> 'st"

definition degrade ::
    "'st journal_store \<Rightarrow> string \<Rightarrow> turn_journal \<Rightarrow> string \<Rightarrow> 'st journal_world \<Rightarrow> 'st journal_world" where
  "degrade ops now turn reason w =
     (case w of (journal, st) \<Rightarrow>
        (case rj_mark_degraded journal of (first, journal') \<Rightarrow>
           if first
           then (journal', snd (rj_append ops journal' now (Degraded (Some (tj_turn_id turn)) reason) st))
           else (journal', st)))"

definition turn_append ::
    "'st journal_store \<Rightarrow> string \<Rightarrow> turn_journal \<Rightarrow> journal_record \<Rightarrow> bool \<Rightarrow> 'st journal_world \<Rightarrow>
     bool \<times> 'st journal_world" where
  "turn_append ops now turn r sync w =
     (case w of (journal, st) \<Rightarrow>
        (case (if sync then rj_append_synced ops journal now r st else rj_append ops journal now r st) of
           (Inr n, st') \<Rightarrow> (True, (journal, st'))
         | (Inl err, st') \<Rightarrow> (False, degrade ops now turn err (journal, st'))))"

definition record_turn_end ::
    "'st journal_store \<Rightarrow> string \<Rightarrow> turn_journal \<Rightarrow> turn_outcome \<Rightarrow> 'st journal_world \<Rightarrow> 'st journal_world" where
  "record_turn_end ops now turn outcome w =
     snd (turn_append ops now turn (TurnEnd (tj_turn_id turn) outcome) True w)"

section \<open>Tool calls in flight\<close>

record in_flight_call =
  ic_turn :: turn_journal
  ic_call_id :: string
  ic_tool_name :: string
  ic_args :: json
  ic_replay_safe :: bool
  ic_finished :: bool

definition call_write ::
    "'st journal_store \<Rightarrow> string \<Rightarrow> in_flight_call \<Rightarrow> tool_call_status \<Rightarrow> string option \<Rightarrow> bool \<Rightarrow>
     'st journal_world \<Rightarrow> bool \<times> 'st journal_world" where
  "call_write ops now call status result sync w =
     turn_append ops now (ic_turn call)
       (ToolIntent (tj_turn_id (ic_turn call)) (ic_call_id call) (ic_tool_name call)
          (ic_args call) (ic_replay_safe call) status result) sync w"

text \<open>\<open>Drop\<close> of an \<open>InFlightToolCall\<close>.\<close>

definition drop_call ::
    "'st journal_store \<Rightarrow> string \<Rightarrow> bool \<Rightarrow> in_flight_call \<Rightarrow> 'st journal_world \<Rightarrow> 'st journal_world" where
  "drop_call ops now panicking call w =
     (if \<not> ic_finished call \<and> \<not> panicking then snd (call_write ops now call CallCancelled None False w)
      else w)"

text \<open>\<open>finish\<close> consumes the call: it is dropped, finished, at the end.\<close>

definition finish_call ::
    "'st journal_store \<Rightarrow> string \<Rightarrow> in_flight_call \<Rightarrow> tool_call_status \<Rightarrow> string \<Rightarrow> 'st journal_world \<Rightarrow>
     'st journal_world" where
  "finish_call ops now call status result w =
     (let call = call\<lparr>ic_finished := True\<rparr>
      in drop_call ops now False call (snd (call_write ops now call status (Some result) False w)))"

definition STRICT_REFUSAL :: string where
  "STRICT_REFUSAL = ''intent could not be journaled (strict durability mode)''"

definition begin_tool_call ::
    "'st journal_store \<Rightarrow> string \<Rightarrow> turn_journal \<Rightarrow> string \<Rightarrow> string \<Rightarrow> json \<Rightarrow> bool \<Rightarrow> 'st journal_world \<Rightarrow>
     (intent_not_persisted + in_flight_call) \<times> 'st journal_world" where
  "begin_tool_call ops now turn call_id tool_name args replay_safe w =
     (let call = \<lparr>ic_turn = turn, ic_call_id = call_id, ic_tool_name = tool_name, ic_args = args,
                  ic_replay_safe = replay_safe, ic_finished = False\<rparr>
      in case call_write ops now call Intent None (\<not> replay_safe) w of
           (intent_written, w1) \<Rightarrow>
             if intent_written \<or> tj_mode turn = BestEffort then (Inr call, w1)
             else
               (let call = call\<lparr>ic_finished := True\<rparr>;
                    w2 = snd (call_write ops now call CallBlocked (Some STRICT_REFUSAL) False w1)
                in (Inl (IntentNotPersisted tool_name), drop_call ops now False call w2)))"

definition record_blocked_call ::
    "'st journal_store \<Rightarrow> string \<Rightarrow> turn_journal \<Rightarrow> string \<Rightarrow> string \<Rightarrow> json \<Rightarrow> string \<Rightarrow>
     'st journal_world \<Rightarrow> 'st journal_world" where
  "record_blocked_call ops now turn call_id tool_name args reason w =
     (let call = \<lparr>ic_turn = turn, ic_call_id = call_id, ic_tool_name = tool_name, ic_args = args,
                  ic_replay_safe = False, ic_finished = True\<rparr>
      in drop_call ops now False call
           (snd (call_write ops now call CallBlocked (Some reason) False w)))"

section \<open>The guard of the turn\<close>

record turn_guard =
  tg_turn :: turn_journal
  tg_finished :: bool

definition turn_guard_of :: "turn_journal \<Rightarrow> turn_guard" where
  "turn_guard_of turn = \<lparr>tg_turn = turn, tg_finished = False\<rparr>"

definition drop_guard ::
    "'st journal_store \<Rightarrow> string \<Rightarrow> bool \<Rightarrow> turn_guard \<Rightarrow> 'st journal_world \<Rightarrow> 'st journal_world" where
  "drop_guard ops now panicking guard w =
     (if \<not> tg_finished guard \<and> \<not> panicking then record_turn_end ops now (tg_turn guard) Cancelled w
      else w)"

definition finish_guard ::
    "'st journal_store \<Rightarrow> string \<Rightarrow> turn_guard \<Rightarrow> turn_outcome \<Rightarrow> 'st journal_world \<Rightarrow> 'st journal_world" where
  "finish_guard ops now guard outcome w =
     (let guard = guard\<lparr>tg_finished := True\<rparr>
      in drop_guard ops now False guard (record_turn_end ops now (tg_turn guard) outcome w))"

lemma finish_guard_once:
  "finish_guard ops now guard outcome w = record_turn_end ops now (tg_turn guard) outcome w"
  by (simp add: finish_guard_def drop_guard_def)

lemma finish_call_once:
  "finish_call ops now call status result w =
   snd (call_write ops now (call\<lparr>ic_finished := True\<rparr>) status (Some result) False w)"
  by (simp add: finish_call_def drop_call_def)

lemma record_blocked_once:
  "record_blocked_call ops now turn call_id tool_name args reason w =
   snd (turn_append ops now turn
     (ToolIntent (tj_turn_id turn) call_id tool_name args False CallBlocked (Some reason)) False w)"
  by (simp add: record_blocked_call_def call_write_def drop_call_def Let_def)

section \<open>What reaches the journal\<close>

abbreviation world_entries :: "'st journal_store \<Rightarrow> 'st journal_world \<Rightarrow> journal_entry list" where
  "world_entries ops w \<equiv> scan_entries (rj_scan ops (fst w) (snd w))"

text \<open>
  A journal grows by the records \<open>rs\<close>: its new entries are exactly some of them, in order, with
  numbers and stamps of the store's choice.
\<close>

definition grows_by :: "journal_entry list \<Rightarrow> journal_entry list \<Rightarrow> journal_record list \<Rightarrow> bool" where
  "grows_by es es' rs \<longleftrightarrow> (\<exists>new. es' = es @ new \<and> subseq (map entry_record new) rs)"

lemma grows_by_refl [simp]: "grows_by es es rs"
  by (simp add: grows_by_def)

lemma grows_by_one: "grows_by es (es @ [new_entry now n r]) [r]"
  by (simp add: grows_by_def)

lemma grows_by_trans:
  "grows_by es es' rs \<Longrightarrow> grows_by es' es'' ss \<Longrightarrow> grows_by es es'' (rs @ ss)"
  unfolding grows_by_def by (metis append.assoc list_emb_append_mono map_append)

lemma grows_by_prefix: "grows_by es es' rs \<Longrightarrow> prefix es es'"
  by (auto simp: grows_by_def prefix_def)

context journal_laws
begin

lemma turn_append_grows:
  assumes inv: "inv (snd w)" and run: "turn_append ops now turn r sync w = (ok, w')"
  shows "inv (snd w')" "rj_session_key (fst w') = rj_session_key (fst w)"
    and "ok \<Longrightarrow> \<exists>n. world_entries ops w' = world_entries ops w @ [new_entry now n r]"
    and "\<exists>why. grows_by (world_entries ops w) (world_entries ops w') [r, Degraded (Some (tj_turn_id turn)) why]"
proof -
  obtain j st where w: "w = (j, st)" by (cases w)
  let ?d = "if sync then Synced else Flushed"
  obtain res st1 where a: "js_append ops st (rj_session_key j) now r ?d = (res, st1)"
    by (cases "js_append ops st (rj_session_key j) now r ?d")
  have run1: "(if sync then rj_append_synced ops j now r st else rj_append ops j now r st) = (res, st1)"
    using a by (cases sync) (simp_all add: rj_append_def rj_append_synced_def)
  have inv0: "inv st" using inv w by simp
  have inv1: "inv st1" using append_inv [OF inv0 a] .
  note entries = rj_scan_def [of ops]
  have "inv (snd w') \<and> rj_session_key (fst w') = rj_session_key (fst w) \<and>
    (ok \<longrightarrow> (\<exists>n. world_entries ops w' = world_entries ops w @ [new_entry now n r])) \<and>
    (\<exists>why. grows_by (world_entries ops w) (world_entries ops w') [r, Degraded (Some (tj_turn_id turn)) why])"
  proof (cases res)
    case (Inr n)
    with run run1 have w': "ok" "w' = (j, st1)" by (simp_all add: turn_append_def w)
    have "entries_of ops st1 (rj_session_key j) = entries_of ops st (rj_session_key j) @ [new_entry now n r]"
      using append_ok [OF inv0] a Inr by blast
    then show ?thesis using inv1 w' by (auto simp: w entries grows_by_def)
  next
    case (Inl err)
    let ?j = "j\<lparr>rj_degraded := True\<rparr>" and ?deg = "Degraded (Some (tj_turn_id turn)) err"
    from run run1 Inl have w': "\<not> ok" "w' = degrade ops now turn err (j, st1)"
      by (simp_all add: turn_append_def w)
    have g1: "grows_by (world_entries ops w) (world_entries ops (j, st1)) [r]"
      using append_err [OF inv0 a [unfolded Inl]] by (auto simp: w entries grows_by_def)
    have "inv (snd w') \<and> rj_session_key (fst w') = rj_session_key j \<and>
        grows_by (world_entries ops (j, st1)) (world_entries ops w') [?deg]"
    proof (cases "rj_degraded j")
      case True
      then show ?thesis using inv1
        by (simp add: w' degrade_def rj_mark_degraded_def entries grows_by_def)
    next
      case False
      obtain res2 st2 where b: "js_append ops st1 (rj_session_key ?j) now ?deg Flushed = (res2, st2)"
        by (cases "js_append ops st1 (rj_session_key ?j) now ?deg Flushed")
      from append_entries_cases [OF inv1 b] append_inv [OF inv1 b] False b show ?thesis
        by (fastforce simp: w' degrade_def rj_mark_degraded_def rj_append_def entries grows_by_def)
    qed
    with grows_by_trans [OF g1, of _ "[?deg]"] w' show ?thesis by (auto simp: w)
  qed
  then show "inv (snd w')" "rj_session_key (fst w') = rj_session_key (fst w)"
    and "ok \<Longrightarrow> \<exists>n. world_entries ops w' = world_entries ops w @ [new_entry now n r]"
    and "\<exists>why. grows_by (world_entries ops w) (world_entries ops w') [r, Degraded (Some (tj_turn_id turn)) why]"
    by blast+
qed

lemma turn_append_inv: "inv (snd w) \<Longrightarrow> inv (snd (snd (turn_append ops now turn r sync w)))"
  using turn_append_grows(1) [of w now turn r sync] by (cases "turn_append ops now turn r sync w") simp

lemma turn_append_prefix:
  assumes "inv (snd w)"
  shows "prefix (world_entries ops w) (world_entries ops (snd (turn_append ops now turn r sync w)))"
  using turn_append_grows(4) [OF assms, of now turn r sync]
  by (cases "turn_append ops now turn r sync w") (auto dest: grows_by_prefix)

text \<open>In strict mode a call is let through only with its intent in the journal.\<close>

lemma begin_tool_call_strict:
  assumes inv: "inv (snd w)" and mode: "tj_mode turn = Strict"
    and run: "begin_tool_call ops now turn c name args safe w = (Inr call, w')"
  shows "\<exists>n. world_entries ops w' = world_entries ops w @
    [new_entry now n (ToolIntent (tj_turn_id turn) c name args safe Intent None)]"
proof -
  let ?r = "ToolIntent (tj_turn_id turn) c name args safe Intent None"
  obtain ok w1 where a: "turn_append ops now turn ?r (\<not> safe) w = (ok, w1)"
    by (cases "turn_append ops now turn ?r (\<not> safe) w")
  with run mode have "ok" "w' = w1"
    by (auto simp: begin_tool_call_def call_write_def Let_def split: if_splits)
  with turn_append_grows(3) [OF inv a] show ?thesis by simp
qed

lemma begin_tool_call_inv:
  assumes "inv (snd w)" "begin_tool_call ops now turn c name args safe w = (res, w')"
  shows "inv (snd w')" "prefix (world_entries ops w) (world_entries ops w')"
proof -
  let ?r = "\<lambda>status result. ToolIntent (tj_turn_id turn) c name args safe status result"
  obtain ok w1 where a: "turn_append ops now turn (?r Intent None) (\<not> safe) w = (ok, w1)"
    by (cases "turn_append ops now turn (?r Intent None) (\<not> safe) w")
  have i1: "inv (snd w1)" using turn_append_grows(1) [OF assms(1) a] .
  have p1: "prefix (world_entries ops w) (world_entries ops w1)"
    using turn_append_prefix [OF assms(1), of now turn "?r Intent None" "\<not> safe"] a by simp
  from assms(2) a have "w' = w1 \<or>
      w' = snd (turn_append ops now turn (?r CallBlocked (Some STRICT_REFUSAL)) False w1)"
    by (auto simp: begin_tool_call_def call_write_def drop_call_def Let_def split: if_splits)
  with i1 p1 turn_append_inv [OF i1] turn_append_prefix [OF i1]
  show "inv (snd w')" "prefix (world_entries ops w) (world_entries ops w')"
    by (auto intro: prefix_order.trans)
qed

text \<open>Everything a begin can leave: its intent, a refusal, and a marker after each.\<close>

lemma begin_tool_call_grows:
  assumes "inv (snd w)" "begin_tool_call ops now turn c name args safe w = (res, w')"
  defines "deg \<equiv> \<lambda>why. Degraded (Some (tj_turn_id turn)) why"
  shows "\<exists>a b. grows_by (world_entries ops w) (world_entries ops w')
    [ToolIntent (tj_turn_id turn) c name args safe Intent None, deg a,
     ToolIntent (tj_turn_id turn) c name args safe CallBlocked (Some STRICT_REFUSAL), deg b]"
proof -
  let ?r = "\<lambda>status result. ToolIntent (tj_turn_id turn) c name args safe status result"
  obtain ok w1 where a: "turn_append ops now turn (?r Intent None) (\<not> safe) w = (ok, w1)"
    by (cases "turn_append ops now turn (?r Intent None) (\<not> safe) w")
  obtain ok2 w2 where b: "turn_append ops now turn (?r CallBlocked (Some STRICT_REFUSAL)) False w1 = (ok2, w2)"
    by (cases "turn_append ops now turn (?r CallBlocked (Some STRICT_REFUSAL)) False w1")
  have i1: "inv (snd w1)" using turn_append_grows(1) [OF assms(1) a] .
  obtain x y where
      g1: "grows_by (world_entries ops w) (world_entries ops w1) [?r Intent None, deg x]"
    and g2: "grows_by (world_entries ops w1) (world_entries ops w2)
        [?r CallBlocked (Some STRICT_REFUSAL), deg y]"
    using turn_append_grows(4) [OF assms(1) a] turn_append_grows(4) [OF i1 b] deg_def by auto
  have g: "grows_by (world_entries ops w) (world_entries ops w2)
      ([?r Intent None, deg x] @ [?r CallBlocked (Some STRICT_REFUSAL), deg y])"
    by (rule grows_by_trans [OF g1 g2])
  have "grows_by (world_entries ops w) (world_entries ops w1)
      ([?r Intent None, deg x] @ [?r CallBlocked (Some STRICT_REFUSAL), deg y])"
    using grows_by_trans [OF g1 grows_by_refl] .
  moreover from assms(2) a b have "w' = w1 \<or> w' = w2"
    by (auto simp: begin_tool_call_def call_write_def drop_call_def Let_def split: if_splits)
  ultimately show ?thesis using g by auto
qed

lemma finish_call_inv:
  assumes "inv (snd w)"
  shows "inv (snd (finish_call ops now call status result w))"
    and "prefix (world_entries ops w) (world_entries ops (finish_call ops now call status result w))"
  using turn_append_inv [OF assms] turn_append_prefix [OF assms]
  by (simp_all add: finish_call_once call_write_def)

end

section \<open>Without a failing disk\<close>

text \<open>The in-memory store never fails: each operation then writes exactly its record.\<close>

lemma mem_turn_append:
  "\<exists>n st'. turn_append memory_ops now turn r sync w = (True, (fst w, st')) \<and>
     world_entries memory_ops (fst w, st') = world_entries memory_ops w @ [new_entry now n r]"
  by (cases w) (auto simp: turn_append_def rj_append_def rj_append_synced_def mem_append_def
      Let_def rj_scan_def)

lemma mem_begin_tool_call:
  obtains call st' where "begin_tool_call memory_ops now turn c name args safe w = (Inr call, (fst w, st'))"
    and "ic_turn call = turn" "ic_call_id call = c"
proof -
  obtain n st' where "turn_append memory_ops now turn
      (ToolIntent (tj_turn_id turn) c name args safe Intent None) (\<not> safe) w = (True, (fst w, st'))"
    using mem_turn_append by blast
  then show thesis by (intro that) (auto simp: begin_tool_call_def call_write_def Let_def)
qed

end
