(* ===== verification/Checkpoint_Payload.thy ===== *)
theory Checkpoint_Payload
  imports Json
begin

text \<open>
  \<open>src/agent/checkpoint_payload.rs\<close>: the one place that knows the shape of a runtime
  checkpoint.  The runner writes payloads with \<open>build_payload\<close>, crash recovery reads them back
  with \<open>materialize\<close>.  \<open>Utc::now().to_rfc3339()\<close> is the argument \<open>now\<close>.

  The lemmas show that the reader inverts the writer, and that a materialised turn leaves no
  requested tool call without a result.
\<close>

definition INTERRUPTED_TOOL_RESULT :: string where
  "INTERRUPTED_TOOL_RESULT = ''Error: Task interrupted before this tool finished.''"

definition TYPE_AWAITING_TOOLS :: string where
  "TYPE_AWAITING_TOOLS = ''awaiting_tools''"

definition TYPE_TOOLS_COMPLETED :: string where
  "TYPE_TOOLS_COMPLETED = ''tools_completed''"

definition TYPE_PRE_MODEL :: string where
  "TYPE_PRE_MODEL = ''pre_model''"

definition TYPE_FINAL :: string where
  "TYPE_FINAL = ''final_response''"

section \<open>Reading one message\<close>

definition has_role :: "string \<Rightarrow> json \<Rightarrow> bool" where
  "has_role role message \<longleftrightarrow> get_str message ''role'' = Some role"

text \<open>The closure of \<open>rposition\<close> in \<open>last_tool_request\<close>.\<close>

definition requests_tools :: "json \<Rightarrow> bool" where
  "requests_tools message \<longleftrightarrow>
     has_role ''assistant'' message \<and>
     (case get_array message ''tool_calls'' of None \<Rightarrow> False | Some calls \<Rightarrow> calls \<noteq> [])"

definition tool_call_id :: "json \<Rightarrow> string option" where
  "tool_call_id tool_call = get_str tool_call ''id''"

definition tool_call_name :: "json \<Rightarrow> string" where
  "tool_call_name tool_call =
     (case Option.bind (Option.bind (json_get tool_call ''function'') (\<lambda>f. json_get f ''name'')) as_str of
        Some name \<Rightarrow> name | None \<Rightarrow> ''tool'')"

definition tool_result_message :: "string \<Rightarrow> json \<Rightarrow> string \<Rightarrow> json" where
  "tool_result_message now tool_call content =
     JObject
       [(''role'', JString ''tool''),
        (''tool_call_id'', case json_get tool_call ''id'' of Some v \<Rightarrow> v | None \<Rightarrow> JNull),
        (''name'', JString (tool_call_name tool_call)),
        (''content'', JString content),
        (''timestamp'', JString now)]"

section \<open>Writing a payload\<close>

text \<open>\<open>Iterator::rposition\<close>: the last index whose element satisfies the predicate.\<close>

fun rposition :: "('a \<Rightarrow> bool) \<Rightarrow> 'a list \<Rightarrow> nat option" where
  "rposition p [] = None"
| "rposition p (x # xs) =
     (case rposition p xs of Some i \<Rightarrow> Some (Suc i) | None \<Rightarrow> if p x then Some 0 else None)"

record tool_request =
  assistant_message :: json
  completed_results :: "json list"
  pending_calls :: "json list"

definition answered :: "json list \<Rightarrow> json \<Rightarrow> bool" where
  "answered results call \<longleftrightarrow>
     (\<exists>result \<in> set results. json_opt_eq (json_get result ''tool_call_id'') (json_get call ''id''))"

definition last_tool_request :: "json list \<Rightarrow> tool_request option" where
  "last_tool_request turn_messages =
     Option.bind (rposition requests_tools turn_messages) (\<lambda>index.
       let message = turn_messages ! index;
           results = filter (has_role ''tool'') (drop (Suc index) turn_messages)
       in Option.bind (get_array message ''tool_calls'') (\<lambda>calls.
            Some \<lparr>assistant_message = message, completed_results = results,
                  pending_calls = filter (\<lambda>call. \<not> answered results call) calls\<rparr>))"

definition build_payload :: "string \<Rightarrow> json list \<Rightarrow> json" where
  "build_payload kind turn_messages =
     (let payload = [(''type'', JString kind), (''turn_messages'', JArray turn_messages)]
      in case last_tool_request turn_messages of
           None \<Rightarrow> JObject payload
         | Some r \<Rightarrow>
             JObject (obj_insert ''pending_tool_calls'' (JArray (pending_calls r))
               (obj_insert ''completed_tool_results'' (JArray (completed_results r))
                 (obj_insert ''assistant_message'' (assistant_message r) payload))))"

section \<open>Reading a payload\<close>

definition payload_turn_messages :: "json \<Rightarrow> json list option" where
  "payload_turn_messages payload = get_array payload ''turn_messages''"

definition payload_pending_tool_calls :: "json \<Rightarrow> json list" where
  "payload_pending_tool_calls payload =
     (case get_array payload ''pending_tool_calls'' of Some calls \<Rightarrow> calls | None \<Rightarrow> [])"

definition with_timestamp :: "string \<Rightarrow> json_object \<Rightarrow> json" where
  "with_timestamp now message =
     JObject (if obj_get message ''timestamp'' = None
              then obj_insert ''timestamp'' (JString now) message else message)"

definition is_object :: "json \<Rightarrow> bool" where
  "is_object v \<longleftrightarrow> as_object v \<noteq> None"

text \<open>
  \<open>materialize\<close>: the journal shape carries \<open>turn_messages\<close>; the older three-key shape is
  expanded.  Pending calls get what \<open>resolve\<close> returns for them.
\<close>

definition materialize :: "string \<Rightarrow> json_object \<Rightarrow> (json \<Rightarrow> string) \<Rightarrow> json list" where
  "materialize now checkpoint resolve =
     (case Option.bind (obj_get checkpoint ''turn_messages'') as_array of
        Some turn \<Rightarrow> turn
      | None \<Rightarrow>
          (case Option.bind (obj_get checkpoint ''assistant_message'') as_object of
             Some assistant \<Rightarrow> [with_timestamp now assistant] | None \<Rightarrow> []) @
          (case Option.bind (obj_get checkpoint ''completed_tool_results'') as_array of
             Some results \<Rightarrow> map (with_timestamp now) (List.map_filter as_object results)
           | None \<Rightarrow> [])) @
     (case Option.bind (obj_get checkpoint ''pending_tool_calls'') as_array of
        Some pending \<Rightarrow>
          map (\<lambda>call. tool_result_message now call (resolve call)) (filter is_object pending)
      | None \<Rightarrow> [])"

section \<open>The reader inverts the writer\<close>

lemma rposition_SomeD:
  "rposition p xs = Some i \<Longrightarrow> i < length xs \<and> p (xs ! i) \<and> (\<forall>j. i < j \<and> j < length xs \<longrightarrow> \<not> p (xs ! j))"
proof (induction xs arbitrary: i)
  case (Cons x xs)
  have none: "rposition p xs = None \<Longrightarrow> \<forall>y\<in>set xs. \<not> p y"
    by (induction xs) (auto split: option.splits if_splits)
  from Cons show ?case
    by (auto split: option.splits if_splits simp: nth_Cons' less_Suc_eq_0_disj dest: none)
qed simp

text \<open>The calls a payload leaves open, as messages of the restored transcript.\<close>

definition open_results :: "string \<Rightarrow> (json \<Rightarrow> string) \<Rightarrow> json list \<Rightarrow> json list" where
  "open_results now resolve turn_messages =
     (case last_tool_request turn_messages of
        None \<Rightarrow> []
      | Some r \<Rightarrow> map (\<lambda>call. tool_result_message now call (resolve call))
                    (filter is_object (pending_calls r)))"

lemma build_payload_object:
  obtains p where "build_payload kind ms = JObject p"
    "map_of p ''turn_messages'' = Some (JArray ms)"
    "map_of p ''pending_tool_calls'' =
       map_option (\<lambda>r. JArray (pending_calls r)) (last_tool_request ms)"
  by (cases "last_tool_request ms") (auto simp: build_payload_def Let_def)

lemma materialize_turn_messages:
  assumes "map_of p ''turn_messages'' = Some (JArray ms)"
    and "map_of p ''pending_tool_calls'' =
       map_option (\<lambda>r. JArray (pending_calls r)) (last_tool_request ms)"
  shows "materialize now p resolve = ms @ open_results now resolve ms"
  using assms
  by (cases "last_tool_request ms") (auto simp: materialize_def obj_get_def open_results_def)

lemma materialize_build_payload:
  "build_payload kind ms = JObject p \<Longrightarrow>
   materialize now p resolve = ms @ open_results now resolve ms"
  using build_payload_object [of kind ms] materialize_turn_messages by (metis json.inject(5))

lemma has_role_tool_result [simp]: "has_role ''tool'' (tool_result_message now call content)"
  by (simp add: has_role_def get_str_def tool_result_message_def)

lemma tool_result_message_id:
  "tool_call_id call = Some cid \<Longrightarrow>
   json_get (tool_result_message now call content) ''tool_call_id'' = Some (JString cid)"
  by (simp add: tool_result_message_def tool_call_id_def get_str_Some_iff)

lemma is_object_of_id: "tool_call_id call = Some cid \<Longrightarrow> is_object call"
  by (cases call) (auto simp: tool_call_id_def get_str_def is_object_def)

lemma answered_by_result_message:
  "tool_call_id call = Some cid \<Longrightarrow> tool_result_message now call content \<in> set rs \<Longrightarrow>
   answered rs call"
  unfolding answered_def
  by (rule bexI [of _ "tool_result_message now call content"])
    (simp_all add: tool_result_message_id tool_call_id_def get_str_Some_iff)

lemma answered_mono: "answered rs call \<Longrightarrow> set rs \<subseteq> set ts \<Longrightarrow> answered ts call"
  by (auto simp: answered_def)

text \<open>Every call of the last tool request that has an id is answered after the restore.\<close>

lemma restored_calls_answered:
  assumes i: "rposition requests_tools ms = Some i"
    and calls: "get_array (ms ! i) ''tool_calls'' = Some calls"
    and call: "call \<in> set calls" and id: "tool_call_id call = Some cid"
  shows "answered (filter (has_role ''tool'') (drop (Suc i) (ms @ open_results now resolve ms))) call"
proof -
  let ?done = "filter (has_role ''tool'') (drop (Suc i) ms)"
  define r where "r = \<lparr>assistant_message = ms ! i, completed_results = ?done,
    pending_calls = filter (\<lambda>c. \<not> answered ?done c) calls\<rparr>"
  have r: "last_tool_request ms = Some r"
    using i calls by (simp add: last_tool_request_def r_def Let_def)
  have len: "Suc i \<le> length ms" using rposition_SomeD [OF i] by simp
  show ?thesis
  proof (cases "answered ?done call")
    case True
    then show ?thesis by (rule answered_mono) (use len in auto)
  next
    case False
    then have "tool_result_message now call (resolve call) \<in> set (open_results now resolve ms)"
      using call is_object_of_id [OF id] by (auto simp: open_results_def r r_def)
    with id len show ?thesis
      by (intro answered_by_result_message [OF id]) auto
  qed
qed

end
