(* ===== verification/Recovery.thy ===== *)
theory Recovery
  imports Journal Checkpoint_Payload
begin

text \<open>
  \<open>src/agent/recovery.rs\<close>: what crash recovery decides from the entries of a journal.  Pure
  folds over the entries: the latest state per tool call, the unfinished turns, the turns whose
  messages still have to reach the transcript, and what compaction may drop.

  The lemmas characterise each fold by the records of one call or one turn, so that the
  policy (never repeat a finished call, replay a safe one at most once) is a statement about
  the journal and not about the fold, and show that pruning changes no decision.
\<close>

section \<open>Tool calls\<close>

datatype tool_recovery = Skip | Replay json | Synthesize

record tool_call_state =
  tcs_turn_id :: string
  tcs_call_id :: string
  tcs_tool_name :: string
  tcs_args :: json
  tcs_replay_safe :: bool
  tcs_status :: tool_call_status
  tcs_result :: "string option"
  tcs_intent_count :: nat

definition was_replayed :: "tool_call_state \<Rightarrow> bool" where
  "was_replayed s \<longleftrightarrow> tcs_intent_count s > 1"

type_synonym call_key = "string \<times> string"

definition first_call_state ::
    "string \<Rightarrow> string \<Rightarrow> string \<Rightarrow> json \<Rightarrow> bool \<Rightarrow> tool_call_status \<Rightarrow> string option \<Rightarrow> tool_call_state" where
  "first_call_state t c name args safe status result =
     \<lparr>tcs_turn_id = t, tcs_call_id = c, tcs_tool_name = name, tcs_args = args,
      tcs_replay_safe = safe, tcs_status = status, tcs_result = result,
      tcs_intent_count = (if status = Intent then 1 else 0)\<rparr>"

text \<open>The \<open>Some(state)\<close> branch: a terminal state is final, every intent is counted.\<close>

definition bump_call_state ::
    "tool_call_status \<Rightarrow> string option \<Rightarrow> tool_call_state \<Rightarrow> tool_call_state" where
  "bump_call_state status result s =
     (let s1 = (if status = Intent then s\<lparr>tcs_intent_count := tcs_intent_count s + 1\<rparr> else s)
      in if \<not> is_terminal (tcs_status s1)
         then s1\<lparr>tcs_status := status, tcs_result := result\<rparr> else s1)"

type_synonym call_fold = "call_key list \<times> (call_key \<rightharpoonup> tool_call_state)"

fun call_step :: "call_fold \<Rightarrow> journal_entry \<Rightarrow> call_fold" where
  "call_step (order, states) e =
     (case entry_record e of
        ToolIntent t c name args safe status result \<Rightarrow>
          (case states (t, c) of
             Some s \<Rightarrow> (order, states((t, c) \<mapsto> bump_call_state status result s))
           | None \<Rightarrow> (order @ [(t, c)],
                     states((t, c) \<mapsto> first_call_state t c name args safe status result)))
      | _ \<Rightarrow> (order, states))"

text \<open>\<open>order.into_iter().filter_map(|key| states.remove(&key))\<close>.\<close>

fun drain_states :: "call_key list \<Rightarrow> (call_key \<rightharpoonup> tool_call_state) \<Rightarrow> tool_call_state list" where
  "drain_states [] m = []"
| "drain_states (k # ks) m =
     (case m k of None \<Rightarrow> drain_states ks m | Some s \<Rightarrow> s # drain_states ks (m(k := None)))"

definition tool_call_states :: "journal_entry list \<Rightarrow> tool_call_state list" where
  "tool_call_states entries =
     (case foldl call_step ([], Map.empty) entries of (order, states) \<Rightarrow> drain_states order states)"

definition decide_tool_recovery :: "tool_call_state \<Rightarrow> bool \<Rightarrow> tool_recovery" where
  "decide_tool_recovery s already_replayed =
     (if is_terminal (tcs_status s) then Skip
      else if tcs_replay_safe s \<and> \<not> already_replayed then Replay (tcs_args s)
      else Synthesize)"

section \<open>Turns\<close>

datatype turn_recovery = Resume u32 | Abandon

definition decide_turn_recovery :: "u32 \<Rightarrow> u32 \<Rightarrow> turn_recovery" where
  "decide_turn_recovery attempts_so_far max_resume_attempts =
     (if attempts_so_far \<ge> max_resume_attempts then Abandon else Resume (attempts_so_far + 1))"

record unfinished_turn =
  ut_turn_id :: string
  ut_session_key :: string
  ut_attempts :: u32
  ut_channel :: "string option"
  ut_chat_id :: "string option"
  ut_request_id :: "string option"
  ut_started_at :: string

fun unfinished_step ::
    "unfinished_turn list \<times> string list \<Rightarrow> journal_entry \<Rightarrow> unfinished_turn list \<times> string list" where
  "unfinished_step (turns, ended) e =
     (case entry_record e of
        TurnStart t key req msg attempt channel chat \<Rightarrow>
          (if \<exists>turn \<in> set turns. ut_turn_id turn = t
           then (update_first (\<lambda>turn. ut_turn_id turn = t)
                   (\<lambda>turn. turn\<lparr>ut_attempts := max (ut_attempts turn) attempt\<rparr>) turns, ended)
           else (turns @ [\<lparr>ut_turn_id = t, ut_session_key = key, ut_attempts = attempt,
                           ut_channel = channel, ut_chat_id = chat, ut_request_id = req,
                           ut_started_at = entry_ts e\<rparr>], ended))
      | TurnEnd t outcome \<Rightarrow> (turns, ended @ [t])
      | TurnRestored t \<Rightarrow> (turns, ended @ [t])
      | _ \<Rightarrow> (turns, ended))"

definition unfinished_turns :: "journal_entry list \<Rightarrow> unfinished_turn list" where
  "unfinished_turns entries =
     (case foldl unfinished_step ([], []) entries of
        (turns, ended) \<Rightarrow> filter (\<lambda>turn. ut_turn_id turn \<notin> set ended) turns)"

fun restore_step :: "string list \<times> string list \<Rightarrow> journal_entry \<Rightarrow> string list \<times> string list" where
  "restore_step (candidates, settled) e =
     (case entry_record e of
        TurnStart t key req msg attempt channel chat \<Rightarrow>
          (if t \<in> set candidates then (candidates, settled) else (candidates @ [t], settled))
      | TurnEnd t outcome \<Rightarrow>
          (if outcome = Completed \<or> outcome = Failed then (candidates, settled @ [t])
           else (candidates, settled))
      | TurnRestored t \<Rightarrow> (candidates, settled @ [t])
      | _ \<Rightarrow> (candidates, settled))"

definition turns_to_restore :: "journal_entry list \<Rightarrow> string list" where
  "turns_to_restore entries =
     (case foldl restore_step ([], []) entries of
        (candidates, settled) \<Rightarrow> filter (\<lambda>t. t \<notin> set settled) candidates)"

section \<open>Rebuilding a turn\<close>

definition pending_call_content :: "tool_call_state list \<Rightarrow> string \<Rightarrow> string \<Rightarrow> string" where
  "pending_call_content states turn_id call_id =
     (case List.find (\<lambda>s. tcs_turn_id s = turn_id \<and> tcs_call_id s = call_id) states of
        Some s \<Rightarrow>
          (case (tcs_status s, tcs_result s) of
             (CallDone, Some result) \<Rightarrow> result
           | (CallError, Some result) \<Rightarrow> result
           | (CallBlocked, Some reason) \<Rightarrow> ''Error: tool call blocked by hook: '' @ reason
           | _ \<Rightarrow> INTERRUPTED_TOOL_RESULT)
      | None \<Rightarrow> INTERRUPTED_TOOL_RESULT)"

definition checkpoint_of :: "string \<Rightarrow> journal_entry \<Rightarrow> json option" where
  "checkpoint_of turn_id e =
     (case entry_record e of
        StepCheckpoint t step payload \<Rightarrow> if t = turn_id then Some payload else None
      | _ \<Rightarrow> None)"

definition user_message_of :: "string \<Rightarrow> journal_entry \<Rightarrow> json list option" where
  "user_message_of turn_id e =
     (case entry_record e of
        TurnStart t key req (Some msg) attempt channel chat \<Rightarrow>
          if t = turn_id then Some [msg] else None
      | _ \<Rightarrow> None)"

definition turn_messages_for_restore :: "string \<Rightarrow> journal_entry list \<Rightarrow> string \<Rightarrow> json list" where
  "turn_messages_for_restore now entries turn_id =
     (let states = tool_call_states entries in
      case Option.bind (find_map (checkpoint_of turn_id) (rev entries)) as_object of
        Some payload \<Rightarrow>
          materialize now payload (\<lambda>tool_call.
            pending_call_content states turn_id
              (case tool_call_id tool_call of Some c \<Rightarrow> c | None \<Rightarrow> []))
      | None \<Rightarrow>
          (case find_map (user_message_of turn_id) entries of Some ms \<Rightarrow> ms | None \<Rightarrow> []))"

section \<open>Compaction\<close>

definition open_turn_ids :: "journal_entry list \<Rightarrow> string set" where
  "open_turn_ids entries =
     set (turns_to_restore entries) \<union> set (map ut_turn_id (unfinished_turns entries))"

definition is_prunable_given :: "string set \<Rightarrow> journal_entry \<Rightarrow> bool" where
  "is_prunable_given open_ids e =
     (case entry_record e of
        Inbox _ _ _ _ _ _ _ _ \<Rightarrow> False
      | r \<Rightarrow> (case record_turn_id r of None \<Rightarrow> False | Some t \<Rightarrow> t \<notin> open_ids))"

definition is_prunable :: "journal_entry list \<Rightarrow> journal_entry \<Rightarrow> bool" where
  "is_prunable entries e = is_prunable_given (open_turn_ids entries) e"

definition prune_journal ::
    "'st journal_store \<Rightarrow> run_journal \<Rightarrow> 'st \<Rightarrow> (io_error + nat) \<times> 'st" where
  "prune_journal ops rj st =
     (let open_ids = open_turn_ids (scan_entries (rj_scan ops rj st))
      in rj_compact ops rj (\<lambda>e. \<not> is_prunable_given open_ids e) st)"

section \<open>What a call's state is, from its records alone\<close>

text \<open>One record of a call: tool name, arguments, replay safe, status, result.\<close>

type_synonym call_record = "string \<times> json \<times> bool \<times> tool_call_status \<times> string option"

definition call_key_of :: "journal_entry \<Rightarrow> call_key option" where
  "call_key_of e =
     (case entry_record e of ToolIntent t c name args safe status result \<Rightarrow> Some (t, c) | _ \<Rightarrow> None)"

definition call_record_of :: "call_key \<Rightarrow> journal_entry \<Rightarrow> call_record option" where
  "call_record_of k e =
     (case entry_record e of
        ToolIntent t c name args safe status result \<Rightarrow>
          if (t, c) = k then Some (name, args, safe, status, result) else None
      | _ \<Rightarrow> None)"

definition call_records :: "call_key \<Rightarrow> journal_entry list \<Rightarrow> call_record list" where
  "call_records k entries = List.map_filter (call_record_of k) entries"

fun rec_status :: "call_record \<Rightarrow> tool_call_status" where
  "rec_status (name, args, safe, status, result) = status"

fun rec_result :: "call_record \<Rightarrow> string option" where
  "rec_result (name, args, safe, status, result) = result"

text \<open>
  The reference: name, arguments and safety come from the first record, status and result from
  the first terminal one (or the last record if there is none), the count from all intents.
\<close>

definition deciding_record :: "call_record list \<Rightarrow> call_record" where
  "deciding_record rs =
     (case List.find (\<lambda>r. is_terminal (rec_status r)) rs of Some r \<Rightarrow> r | None \<Rightarrow> last rs)"

definition intents :: "call_record list \<Rightarrow> nat" where
  "intents rs = length (filter (\<lambda>r. rec_status r = Intent) rs)"

definition call_spec :: "call_key \<Rightarrow> call_record list \<Rightarrow> tool_call_state option" where
  "call_spec k rs =
     (case rs of
        [] \<Rightarrow> None
      | (name, args, safe, status, result) # _ \<Rightarrow>
          Some \<lparr>tcs_turn_id = fst k, tcs_call_id = snd k, tcs_tool_name = name, tcs_args = args,
                tcs_replay_safe = safe, tcs_status = rec_status (deciding_record rs),
                tcs_result = rec_result (deciding_record rs), tcs_intent_count = intents rs\<rparr>)"

lemma call_records_snoc [simp]:
  "call_records k (es @ [e]) =
   (case call_record_of k e of None \<Rightarrow> call_records k es | Some r \<Rightarrow> call_records k es @ [r])"
  by (simp add: call_records_def map_filter_Cons split: option.splits)

lemma deciding_record_snoc:
  "rs \<noteq> [] \<Longrightarrow> deciding_record (rs @ [r]) =
   (if is_terminal (rec_status (deciding_record rs)) then deciding_record rs else r)"
proof (cases "List.find (\<lambda>r. is_terminal (rec_status r)) rs")
  case None
  assume "rs \<noteq> []"
  then have "last rs \<in> set rs" by simp
  with None have "rec_status (last rs) = Intent" by (auto simp: find_None_iff_all)
  then show ?thesis unfolding deciding_record_def find_append None by simp
next
  case (Some t)
  then have "is_terminal (rec_status t)" by (auto dest: find_SomeD)
  then show ?thesis unfolding deciding_record_def find_append Some by simp
qed

lemma call_spec_snoc:
  "call_spec (t, c) (rs @ [(name, args, safe, status, result)]) =
   Some (case call_spec (t, c) rs of
           None \<Rightarrow> first_call_state t c name args safe status result
         | Some s \<Rightarrow> bump_call_state status result s)"
proof (cases rs)
  case Nil
  then show ?thesis
    by (simp add: call_spec_def first_call_state_def deciding_record_def intents_def)
next
  case (Cons r rs')
  obtain n a sf st re where r: "r = (n, a, sf, st, re)" by (cases r)
  have "rs \<noteq> []" using Cons by simp
  from deciding_record_snoc [OF this, of "(name, args, safe, status, result)"]
  show ?thesis unfolding Cons r
    by (simp add: call_spec_def bump_call_state_def Let_def intents_def)
qed

lemma call_spec_None_iff: "call_spec k rs = None \<longleftrightarrow> rs = []"
  by (cases rs) (auto simp: call_spec_def)

lemma call_records_Nil_iff: "call_records k es = [] \<longleftrightarrow> k \<notin> set (List.map_filter call_key_of es)"
proof -
  have "call_record_of k e = None \<longleftrightarrow> call_key_of e \<noteq> Some k" for e
    by (auto simp: call_record_of_def call_key_of_def split: journal_record.splits)
  then show ?thesis by (auto simp: call_records_def set_map_filter map_filter_Nil_iff)
qed

lemma call_fold:
  "foldl call_step ([], Map.empty) es =
   (firsts (List.map_filter call_key_of es), \<lambda>k. call_spec k (call_records k es))"
proof (induction es rule: rev_induct)
  case Nil
  show ?case by (simp add: call_records_def call_spec_def)
next
  case (snoc e es)
  show ?case
  proof (cases "\<exists>t c name args safe status result.
      entry_record e = ToolIntent t c name args safe status result")
    case False
    then have "call_key_of e = None" "\<And>k. call_record_of k e = None" "\<And>p. call_step p e = p"
      by (auto simp: call_key_of_def call_record_of_def split: journal_record.splits)
    then show ?thesis using snoc by (simp add: map_filter_Cons)
  next
    case True
    then obtain t c name args safe status result
      where r: "entry_record e = ToolIntent t c name args safe status result" by blast
    let ?r = "(name, args, safe, status, result)"
    have key: "call_key_of e = Some (t, c)" by (simp add: call_key_of_def r)
    have recs: "call_records k (es @ [e]) =
        (if k = (t, c) then call_records k es @ [?r] else call_records k es)" for k
      by (auto simp: call_record_of_def r)
    have fresh: "call_spec (t, c) (call_records (t, c) es) = None \<longleftrightarrow>
        (t, c) \<notin> set (List.map_filter call_key_of es)"
      by (simp add: call_spec_None_iff call_records_Nil_iff)
    have spec: "call_spec (t, c) (call_records (t, c) es @ [?r]) =
        Some (case call_spec (t, c) (call_records (t, c) es) of
           None \<Rightarrow> first_call_state t c name args safe status result
         | Some s \<Rightarrow> bump_call_state status result s)"
      by (rule call_spec_snoc)
    show ?thesis
    proof (cases "call_spec (t, c) (call_records (t, c) es)")
      case None
      with fresh spec show ?thesis
        by (simp add: snoc r recs key map_filter_Cons fun_eq_iff del: call_records_snoc)
    next
      case (Some s)
      with fresh spec show ?thesis
        by (simp add: snoc r recs key map_filter_Cons fun_eq_iff del: call_records_snoc)
    qed
  qed
qed

lemma drain_states_distinct:
  "distinct ks \<Longrightarrow> drain_states ks m = List.map_filter m ks"
proof (induction ks arbitrary: m)
  case (Cons k ks)
  have "List.map_filter (m(k := None)) ks = List.map_filter m ks"
    using Cons.prems by (auto simp: List.map_filter_def intro!: map_cong filter_cong)
  with Cons show ?case by (auto simp: map_filter_Cons split: option.splits)
qed simp

text \<open>The fold computes the reference for every call, in order of first appearance.\<close>

lemma tool_call_states_eq:
  "tool_call_states es =
   map (\<lambda>k. the (call_spec k (call_records k es))) (firsts (List.map_filter call_key_of es))"
proof -
  let ?ks = "firsts (List.map_filter call_key_of es)"
  have "\<forall>k\<in>set ?ks. call_spec k (call_records k es) \<noteq> None"
    by (simp add: call_spec_None_iff call_records_Nil_iff)
  then have "List.map_filter (\<lambda>k. call_spec k (call_records k es)) ?ks =
      map (\<lambda>k. the (call_spec k (call_records k es))) ?ks"
    by (simp add: List.map_filter_def comp_def filter_True)
  then show ?thesis
    by (simp add: tool_call_states_def call_fold drain_states_distinct)
qed

section \<open>The tool-call policy\<close>

abbreviation key_of_state :: "tool_call_state \<Rightarrow> call_key" where
  "key_of_state s \<equiv> (tcs_turn_id s, tcs_call_id s)"

lemma call_spec_key: "call_spec k rs = Some s \<Longrightarrow> key_of_state s = k"
  by (cases k) (auto simp: call_spec_def split: list.splits)

lemma in_tool_call_states:
  "s \<in> set (tool_call_states es) \<longleftrightarrow> call_spec (key_of_state s) (call_records (key_of_state s) es) = Some s"
proof
  assume "s \<in> set (tool_call_states es)"
  then obtain k where k: "k \<in> set (List.map_filter call_key_of es)"
    and s: "s = the (call_spec k (call_records k es))" by (auto simp: tool_call_states_eq)
  from k have "call_spec k (call_records k es) \<noteq> None"
    by (simp add: call_spec_None_iff call_records_Nil_iff)
  with s have "call_spec k (call_records k es) = Some s" by auto
  moreover from call_spec_key [OF this] have "key_of_state s = k" .
  ultimately show "call_spec (key_of_state s) (call_records (key_of_state s) es) = Some s" by simp
next
  assume "call_spec (key_of_state s) (call_records (key_of_state s) es) = Some s"
  moreover from this have "call_records (key_of_state s) es \<noteq> []" by (auto simp: call_spec_def)
  then have "key_of_state s \<in> set (List.map_filter call_key_of es)"
    using call_records_Nil_iff by blast
  ultimately show "s \<in> set (tool_call_states es)"
    by (force simp: tool_call_states_eq)
qed

lemma distinct_tool_call_states: "distinct (map key_of_state (tool_call_states es))"
proof -
  have "key_of_state (the (call_spec k (call_records k es))) = k"
    if "k \<in> set (List.map_filter call_key_of es)" for k
    using that call_records_Nil_iff call_spec_None_iff call_spec_key
    by (metis option.exhaust_sel)
  then have "map key_of_state (tool_call_states es) = firsts (List.map_filter call_key_of es)"
    by (simp add: tool_call_states_eq comp_def) (rule map_idI, simp)
  then show ?thesis by simp
qed

lemma call_spec_Some_cases:
  assumes "call_spec k rs = Some s"
  obtains name args safe status result rest where "rs = (name, args, safe, status, result) # rest"
    "tcs_tool_name s = name" "tcs_args s = args" "tcs_replay_safe s = safe"
    "tcs_status s = rec_status (deciding_record rs)" "tcs_result s = rec_result (deciding_record rs)"
    "tcs_intent_count s = intents rs"
  using assms by (cases rs) (auto simp: call_spec_def)

lemma deciding_record_in: "rs \<noteq> [] \<Longrightarrow> deciding_record rs \<in> set rs"
  by (auto simp: deciding_record_def split: option.splits dest: find_SomeD)

lemma deciding_terminal_iff:
  "rs \<noteq> [] \<Longrightarrow> is_terminal (rec_status (deciding_record rs)) \<longleftrightarrow> (\<exists>r\<in>set rs. is_terminal (rec_status r))"
proof (cases "List.find (\<lambda>r. is_terminal (rec_status r)) rs")
  case None
  assume "rs \<noteq> []"
  then have l: "last rs \<in> set rs" by simp
  have all: "\<not> (\<exists>x\<in>set rs. is_terminal (rec_status x))"
    using None [unfolded find_None_iff_all] by blast
  with l have "\<not> is_terminal (rec_status (last rs))" by blast
  with all show ?thesis unfolding deciding_record_def None option.case by blast
next
  case (Some r)
  then have "r \<in> set rs \<and> is_terminal (rec_status r)" by (rule find_SomeD)
  with Some show ?thesis by (auto simp: deciding_record_def)
qed

lemma intents_all: "(\<forall>r\<in>set rs. rec_status r = Intent) \<Longrightarrow> intents rs = length rs"
  by (simp add: intents_def)

text \<open>A call is replayed exactly if its only record is one replay-safe intent.\<close>

lemma replay_iff_single_safe_intent:
  assumes "s \<in> set (tool_call_states es)"
  shows "decide_tool_recovery s (was_replayed s) = Replay args \<longleftrightarrow>
    (\<exists>name result. call_records (key_of_state s) es = [(name, args, True, Intent, result)])"
    (is "?lhs \<longleftrightarrow> ?rhs")
proof -
  let ?rs = "call_records (key_of_state s) es"
  from assms have spec: "call_spec (key_of_state s) ?rs = Some s" by (simp add: in_tool_call_states)
  from spec obtain name a safe status result rest
    where rs: "?rs = (name, a, safe, status, result) # rest"
    and f: "tcs_args s = a" "tcs_replay_safe s = safe"
      "tcs_status s = rec_status (deciding_record ?rs)" "tcs_intent_count s = intents ?rs"
    by (rule call_spec_Some_cases)
  have tst: "is_terminal (tcs_status s) \<longleftrightarrow> (\<exists>r\<in>set ?rs. is_terminal (rec_status r))"
    using deciding_terminal_iff [of ?rs] f rs by simp
  have "?lhs \<longleftrightarrow> (\<forall>r\<in>set ?rs. rec_status r = Intent) \<and> safe \<and> intents ?rs \<le> 1 \<and> args = a"
    using tst f by (auto simp: decide_tool_recovery_def was_replayed_def)
  also have "\<dots> \<longleftrightarrow> (\<forall>r\<in>set ?rs. rec_status r = Intent) \<and> safe \<and> length ?rs \<le> 1 \<and> args = a"
    using intents_all by metis
  also have "\<dots> \<longleftrightarrow> ?rhs" using rs by auto
  finally show ?thesis .
qed

lemma terminal_record_skips:
  assumes "s \<in> set (tool_call_states es)"
    and "r \<in> set (call_records (key_of_state s) es)" and "is_terminal (rec_status r)"
  shows "decide_tool_recovery s already = Skip"
proof -
  let ?rs = "call_records (key_of_state s) es"
  from assms(1) have "call_spec (key_of_state s) ?rs = Some s" by (simp add: in_tool_call_states)
  then have "tcs_status s = rec_status (deciding_record ?rs)" by (rule call_spec_Some_cases)
  then have "is_terminal (tcs_status s)" using assms(2,3) deciding_terminal_iff [of ?rs] by force
  then show ?thesis by (simp add: decide_tool_recovery_def)
qed

text \<open>As the journal grows, the status a call folds to only goes up.\<close>

lemma deciding_status_mono:
  "rs \<noteq> [] \<Longrightarrow> rec_status (deciding_record rs) \<le> rec_status (deciding_record (rs @ ss))"
proof (induction ss rule: rev_induct)
  case (snoc r ss)
  then have ne: "rs @ ss \<noteq> []" by simp
  have "rec_status (deciding_record (rs @ ss)) \<le> rec_status (deciding_record ((rs @ ss) @ [r]))"
    unfolding deciding_record_snoc [OF ne] by auto
  with snoc show ?case by (metis append.assoc order_trans)
qed simp

lemma call_status_mono:
  assumes "s \<in> set (tool_call_states es)"
  obtains s' where "s' \<in> set (tool_call_states (es @ fs))" "key_of_state s' = key_of_state s"
    "tcs_status s \<le> tcs_status s'" "tcs_args s' = tcs_args s" "tcs_intent_count s \<le> tcs_intent_count s'"
proof -
  let ?k = "key_of_state s" and ?rs = "call_records (key_of_state s) es"
  let ?ss = "call_records (key_of_state s) fs"
  from assms have spec: "call_spec ?k ?rs = Some s" by (simp add: in_tool_call_states)
  have app: "call_records ?k (es @ fs) = ?rs @ ?ss" by (simp add: call_records_def)
  from spec have ne: "?rs \<noteq> []" by (metis call_spec_None_iff option.distinct(1))
  then obtain s' where s': "call_spec ?k (?rs @ ?ss) = Some s'"
    by (metis append_is_Nil_conv call_spec_None_iff not_None_eq)
  have key: "key_of_state s' = ?k" using call_spec_key [OF s'] .
  have mem: "s' \<in> set (tool_call_states (es @ fs))"
    unfolding in_tool_call_states key app by (rule s')
  obtain name a safe status result rest where rs: "?rs = (name, a, safe, status, result) # rest"
    and f: "tcs_args s = a" "tcs_status s = rec_status (deciding_record ?rs)"
      "tcs_intent_count s = intents ?rs"
    using spec by (rule call_spec_Some_cases)
  have g: "tcs_args s' = a" "tcs_status s' = rec_status (deciding_record (?rs @ ?ss))"
      "tcs_intent_count s' = intents (?rs @ ?ss)"
    using s' rs by (auto elim!: call_spec_Some_cases)
  have "tcs_status s \<le> tcs_status s'" unfolding f(2) g(2) by (rule deciding_status_mono [OF ne])
  moreover have "tcs_intent_count s \<le> tcs_intent_count s'" by (simp add: f(3) g(3) intents_def)
  moreover have "tcs_args s' = tcs_args s" by (simp add: f(1) g(1))
  ultimately show thesis using that mem key by blast
qed

lemma decide_turn_recovery_bounds:
  assumes "decide_turn_recovery n m = Resume k"
  shows "unat k = Suc (unat n)" and "k \<le> m"
proof -
  from assms have lt: "n < m" and k: "k = n + 1"
    by (auto simp: decide_turn_recovery_def not_le split: if_splits)
  have "unat n < unat m" using lt by (simp add: word_less_nat_alt)
  moreover have "unat m < 2 ^ 32" using unsigned_less [of m] by simp
  ultimately show u: "unat k = Suc (unat n)" by (simp add: k unat_word_ariths)
  show "k \<le> m" using u \<open>unat n < unat m\<close> by (simp add: word_le_nat_alt)
qed

section \<open>What the turn folds compute\<close>

definition start_id :: "journal_entry \<Rightarrow> string option" where
  "start_id e = (case entry_record e of TurnStart t _ _ _ _ _ _ \<Rightarrow> Some t | _ \<Rightarrow> None)"

definition end_id :: "journal_entry \<Rightarrow> string option" where
  "end_id e = (case entry_record e of TurnEnd t _ \<Rightarrow> Some t | TurnRestored t \<Rightarrow> Some t | _ \<Rightarrow> None)"

definition settled_id :: "journal_entry \<Rightarrow> string option" where
  "settled_id e =
     (case entry_record e of
        TurnEnd t outcome \<Rightarrow> if outcome = Completed \<or> outcome = Failed then Some t else None
      | TurnRestored t \<Rightarrow> Some t
      | _ \<Rightarrow> None)"

abbreviation started :: "journal_entry list \<Rightarrow> string list" where
  "started es \<equiv> List.map_filter start_id es"

abbreviation ended :: "journal_entry list \<Rightarrow> string list" where
  "ended es \<equiv> List.map_filter end_id es"

abbreviation settled :: "journal_entry list \<Rightarrow> string list" where
  "settled es \<equiv> List.map_filter settled_id es"

lemma restore_fold:
  "foldl restore_step ([], []) es = (firsts (started es), settled es)"
proof (induction es rule: rev_induct)
  case (snoc e es)
  then show ?case
    by (auto simp: map_filter_Cons start_id_def settled_id_def split: journal_record.splits)
qed simp

lemma turns_to_restore_eq:
  "turns_to_restore es = filter (\<lambda>t. t \<notin> set (settled es)) (firsts (started es))"
  by (simp add: turns_to_restore_def restore_fold)

text \<open>The record of one turn: its first start, with the highest attempt of all its starts.\<close>

definition start_info :: "string \<Rightarrow> journal_entry \<Rightarrow> unfinished_turn option" where
  "start_info t e =
     (case entry_record e of
        TurnStart t' key req msg attempt channel chat \<Rightarrow>
          if t' = t
          then Some \<lparr>ut_turn_id = t, ut_session_key = key, ut_attempts = attempt,
                     ut_channel = channel, ut_chat_id = chat, ut_request_id = req,
                     ut_started_at = entry_ts e\<rparr>
          else None
      | _ \<Rightarrow> None)"

definition turn_spec :: "string \<Rightarrow> journal_entry list \<Rightarrow> unfinished_turn" where
  "turn_spec t es =
     (case List.map_filter (start_info t) es of
        [] \<Rightarrow> undefined
      | u # us \<Rightarrow> u\<lparr>ut_attempts := foldl max (ut_attempts u) (map ut_attempts us)\<rparr>)"

lemma start_info_None: "start_id e \<noteq> Some t \<Longrightarrow> start_info t e = None"
  by (auto simp: start_id_def start_info_def split: journal_record.splits)

lemma start_info_SomeD: "start_info t e = Some u \<Longrightarrow> ut_turn_id u = t \<and> start_id e = Some t"
  by (cases "entry_record e") (auto simp: start_info_def start_id_def split: if_splits)

lemma settled_id_end_id: "settled_id e = Some t \<Longrightarrow> end_id e = Some t"
  by (cases "entry_record e") (auto simp: settled_id_def end_id_def split: if_splits)

lemma start_infos_Nil_iff: "List.map_filter (start_info t) es = [] \<longleftrightarrow> t \<notin> set (started es)"
proof -
  have "start_info t e = None \<longleftrightarrow> start_id e \<noteq> Some t" for e
    by (auto simp: start_id_def start_info_def split: journal_record.splits)
  then show ?thesis by (auto simp: map_filter_Nil_iff set_map_filter)
qed

lemma turn_spec_id: "t \<in> set (started es) \<Longrightarrow> ut_turn_id (turn_spec t es) = t"
proof -
  assume "t \<in> set (started es)"
  then have ne: "List.map_filter (start_info t) es \<noteq> []" by (simp add: start_infos_Nil_iff)
  then obtain u us where us: "List.map_filter (start_info t) es = u # us" by (cases "List.map_filter (start_info t) es") auto
  then have "u \<in> set (List.map_filter (start_info t) es)" by simp
  then have "ut_turn_id u = t"
    using start_info_SomeD by (auto simp: set_map_filter)
  with us show ?thesis by (simp add: turn_spec_def)
qed

lemma update_first_map:
  assumes "\<And>x. x \<in> set xs \<Longrightarrow> k (f x) = x" and "distinct xs"
  shows "update_first (\<lambda>u. k u = y) g (map f xs) = map (\<lambda>x. if x = y then g (f x) else f x) xs"
  using assms
proof (induction xs)
  case (Cons x xs)
  show ?case
  proof (cases "x = y")
    case True
    with Cons.prems have "\<And>z. z \<in> set xs \<Longrightarrow> z \<noteq> y" by auto
    with True Cons.prems(1) [of x] show ?thesis by (auto intro!: map_cong)
  next
    case False
    with Cons show ?thesis by simp
  qed
qed simp

lemma unfinished_fold:
  "foldl unfinished_step ([], []) es = (map (\<lambda>t. turn_spec t es) (firsts (started es)), ended es)"
proof (induction es rule: rev_induct)
  case (snoc e es)
  have other: "turn_spec t (es @ [e]) = turn_spec t es" if "start_id e \<noteq> Some t" for t
    using start_info_None [OF that] by (simp add: turn_spec_def map_filter_Cons)
  have ids: "\<And>t. t \<in> set (firsts (started es)) \<Longrightarrow> ut_turn_id (turn_spec t es) = t"
    by (simp add: turn_spec_id)
  show ?case
  proof (cases "start_id e")
    case None
    have "map (\<lambda>t. turn_spec t (es @ [e])) ts = map (\<lambda>t. turn_spec t es) ts" for ts
      using other None by simp
    with None show ?thesis
      by (auto simp: snoc map_filter_Cons start_id_def end_id_def split: journal_record.splits)
  next
    case (Some t)
    then obtain key req msg attempt channel chat
      where r: "entry_record e = TurnStart t key req msg attempt channel chat"
      by (auto simp: start_id_def split: journal_record.splits)
    have noend: "end_id e = None" by (simp add: end_id_def r)
    have known: "(\<exists>turn\<in>set (map (\<lambda>t. turn_spec t es) (firsts (started es))). ut_turn_id turn = t)
        \<longleftrightarrow> t \<in> set (started es)"
      using turn_spec_id by force
    have info: "start_info t e = Some \<lparr>ut_turn_id = t, ut_session_key = key, ut_attempts = attempt,
        ut_channel = channel, ut_chat_id = chat, ut_request_id = req, ut_started_at = entry_ts e\<rparr>"
      by (simp add: start_info_def r)
    show ?thesis
    proof (cases "t \<in> set (started es)")
      case True
      then obtain u us where us: "List.map_filter (start_info t) es = u # us"
        using start_infos_Nil_iff by (metis list.exhaust)
      have bump: "turn_spec t (es @ [e]) =
          (turn_spec t es)\<lparr>ut_attempts := max (ut_attempts (turn_spec t es)) attempt\<rparr>"
        using us info by (simp add: turn_spec_def map_filter_Cons)
      have "update_first (\<lambda>turn. ut_turn_id turn = t)
            (\<lambda>turn. turn\<lparr>ut_attempts := max (ut_attempts turn) attempt\<rparr>)
            (map (\<lambda>t. turn_spec t es) (firsts (started es))) =
          map (\<lambda>x. turn_spec x (es @ [e])) (firsts (started es))"
        by (subst update_first_map [where k = ut_turn_id and f = "\<lambda>t. turn_spec t es", OF ids]) (auto simp: bump other Some intro!: map_cong)
      with True known show ?thesis
        by (simp add: snoc r Some noend map_filter_Cons)
    next
      case False
      then have fresh: "turn_spec t (es @ [e]) = the (start_info t e)"
        using start_infos_Nil_iff [of t es] info by (simp add: turn_spec_def map_filter_Cons)
      have "map (\<lambda>x. turn_spec x es) (firsts (started es)) =
          map (\<lambda>x. turn_spec x (es @ [e])) (firsts (started es))"
        using False other Some by (metis (no_types, lifting) map_eq_conv option.inject set_firsts)
      with False known fresh info show ?thesis
        by (simp add: snoc r Some noend map_filter_Cons)
    qed
  qed
qed simp

lemma unfinished_turns_eq:
  "unfinished_turns es =
   map (\<lambda>t. turn_spec t es) (filter (\<lambda>t. t \<notin> set (ended es)) (firsts (started es)))"
proof -
  have "filter (\<lambda>u. ut_turn_id u \<notin> set (ended es)) (map (\<lambda>t. turn_spec t es) (firsts (started es)))
      = map (\<lambda>t. turn_spec t es) (filter (\<lambda>t. t \<notin> set (ended es)) (firsts (started es)))"
    by (auto simp: filter_map comp_def turn_spec_id intro!: arg_cong [where f = "map _"] filter_cong)
  then show ?thesis by (simp add: unfinished_turns_def unfinished_fold)
qed

lemma settled_subset_ended: "set (settled es) \<subseteq> set (ended es)"
  using settled_id_end_id by (fastforce simp: set_map_filter)

lemma unfinished_ids: "map ut_turn_id (unfinished_turns es) =
    filter (\<lambda>t. t \<notin> set (ended es)) (firsts (started es))"
  by (auto simp: unfinished_turns_eq comp_def turn_spec_id intro!: map_idI)

lemma open_turn_ids_eq: "open_turn_ids es = set (started es) - set (settled es)"
  using settled_subset_ended [of es]
  by (auto simp: open_turn_ids_def unfinished_ids turns_to_restore_eq simp flip: set_map)

section \<open>Pruning changes no recovery decision\<close>

text \<open>The entries that survive when the records of the turns outside \<open>K\<close> are dropped.\<close>

abbreviation keep_turns :: "string set \<Rightarrow> journal_entry list \<Rightarrow> journal_entry list" where
  "keep_turns K es \<equiv> filter (\<lambda>e. \<not> is_prunable_given K e) es"

lemma kept_iff:
  "start_id e = Some t \<Longrightarrow> \<not> is_prunable_given K e \<longleftrightarrow> t \<in> K"
  "end_id e = Some t \<Longrightarrow> \<not> is_prunable_given K e \<longleftrightarrow> t \<in> K"
  "settled_id e = Some t \<Longrightarrow> \<not> is_prunable_given K e \<longleftrightarrow> t \<in> K"
  "call_key_of e = Some k \<Longrightarrow> \<not> is_prunable_given K e \<longleftrightarrow> fst k \<in> K"
  "call_record_of k e = Some r \<Longrightarrow> \<not> is_prunable_given K e \<longleftrightarrow> fst k \<in> K"
  "start_info t e = Some u \<Longrightarrow> \<not> is_prunable_given K e \<longleftrightarrow> t \<in> K"
  "checkpoint_of t e = Some p \<Longrightarrow> \<not> is_prunable_given K e \<longleftrightarrow> t \<in> K"
  "user_message_of t e = Some ms \<Longrightarrow> \<not> is_prunable_given K e \<longleftrightarrow> t \<in> K"
  by (cases "entry_record e";
      force simp: start_id_def end_id_def settled_id_def call_key_of_def call_record_of_def
        start_info_def checkpoint_of_def user_message_of_def is_prunable_given_def
        split: if_splits option.splits)+

lemma started_keep: "started (keep_turns K es) = filter (\<lambda>t. t \<in> K) (started es)"
  by (rule map_filter_filter) (rule kept_iff)

lemma ended_keep: "ended (keep_turns K es) = filter (\<lambda>t. t \<in> K) (ended es)"
  by (rule map_filter_filter) (rule kept_iff)

lemma settled_keep: "settled (keep_turns K es) = filter (\<lambda>t. t \<in> K) (settled es)"
  by (rule map_filter_filter) (rule kept_iff)

lemma turn_spec_keep:
  assumes "t \<in> K"
  shows "turn_spec t (keep_turns K es) = turn_spec t es"
proof -
  have "List.map_filter (start_info t) (keep_turns K es) =
      filter (\<lambda>_. True) (List.map_filter (start_info t) es)"
    by (rule map_filter_filter) (use assms kept_iff(6) in blast)
  then show ?thesis by (simp add: turn_spec_def)
qed

lemma tool_call_states_keep:
  "tool_call_states (keep_turns K es) = filter (\<lambda>s. tcs_turn_id s \<in> K) (tool_call_states es)"
proof -
  let ?es = "keep_turns K es" and ?ks = "firsts (List.map_filter call_key_of es)"
  have keys: "List.map_filter call_key_of ?es = filter (\<lambda>k. fst k \<in> K) (List.map_filter call_key_of es)"
    by (rule map_filter_filter) (rule kept_iff)
  have recs: "call_records k ?es = call_records k es" if "fst k \<in> K" for k
  proof -
    have "call_records k ?es = filter (\<lambda>_. True) (call_records k es)"
      unfolding call_records_def by (rule map_filter_filter) (use that kept_iff(5) in blast)
    then show ?thesis by simp
  qed
  have turn: "tcs_turn_id (the (call_spec k (call_records k es))) = fst k" if "k \<in> set ?ks" for k
  proof -
    from that have "call_spec k (call_records k es) \<noteq> None"
      by (simp add: call_spec_None_iff call_records_Nil_iff)
    then obtain s where "call_spec k (call_records k es) = Some s" by blast
    with call_spec_key [OF this] show ?thesis by auto
  qed
  have "filter (\<lambda>s. tcs_turn_id s \<in> K) (map (\<lambda>k. the (call_spec k (call_records k es))) ?ks) =
      map (\<lambda>k. the (call_spec k (call_records k es))) (filter (\<lambda>k. fst k \<in> K) ?ks)"
    using turn by (auto simp: filter_map comp_def intro!: arg_cong [where f = "map _"] filter_cong)
  moreover have "map (\<lambda>k. the (call_spec k (call_records k es))) (filter (\<lambda>k. fst k \<in> K) ?ks) =
      map (\<lambda>k. the (call_spec k (call_records k ?es))) (filter (\<lambda>k. fst k \<in> K) ?ks)"
    using recs by simp
  ultimately show ?thesis by (simp add: tool_call_states_eq keys firsts_filter)
qed

lemma find_filter_same:
  "(\<And>x. x \<in> set xs \<Longrightarrow> p x \<Longrightarrow> q x) \<Longrightarrow> List.find p (filter q xs) = List.find p xs"
  by (induction xs) auto

lemma turn_messages_keep:
  assumes "t \<in> K"
  shows "turn_messages_for_restore now (keep_turns K es) t = turn_messages_for_restore now es t"
proof -
  have cp: "find_map (checkpoint_of t) (rev (keep_turns K es)) = find_map (checkpoint_of t) (rev es)"
    unfolding rev_filter
    by (rule find_map_filter) (use assms kept_iff(7) in \<open>metis not_None_eq\<close>)
  have um: "find_map (user_message_of t) (keep_turns K es) = find_map (user_message_of t) es"
    by (rule find_map_filter) (use assms kept_iff(8) in \<open>metis not_None_eq\<close>)
  have pc: "pending_call_content (tool_call_states (keep_turns K es)) t c =
      pending_call_content (tool_call_states es) t c" for c
    unfolding pending_call_content_def tool_call_states_keep
    by (subst find_filter_same) (use assms in auto)
  show ?thesis unfolding turn_messages_for_restore_def Let_def cp um pc ..
qed

lemma filter_and_swap: "(\<And>x. x \<in> set xs \<Longrightarrow> p x \<longleftrightarrow> q x) \<Longrightarrow> filter p xs = filter q xs"
  by (rule filter_cong) auto

lemma prune_restore_list:
  assumes K: "open_turn_ids es \<subseteq> K"
  shows "turns_to_restore (keep_turns K es) = turns_to_restore es"
  unfolding turns_to_restore_eq started_keep settled_keep firsts_filter filter_filter
  using K by (intro filter_and_swap) (auto simp: open_turn_ids_eq)

lemma prune_unfinished_list:
  assumes K: "open_turn_ids es \<subseteq> K"
  shows "unfinished_turns (keep_turns K es) = unfinished_turns es"
proof -
  have "filter (\<lambda>t. t \<notin> set (ended (keep_turns K es))) (firsts (started (keep_turns K es))) =
      filter (\<lambda>t. t \<notin> set (ended es)) (firsts (started es))"
    unfolding started_keep ended_keep firsts_filter filter_filter
    using K settled_subset_ended [of es]
    by (intro filter_and_swap) (auto simp: open_turn_ids_eq)
  moreover have "t \<in> K" if "t \<in> set (filter (\<lambda>t. t \<notin> set (ended es)) (firsts (started es)))" for t
    using that K settled_subset_ended [of es] by (auto simp: open_turn_ids_eq)
  ultimately show ?thesis by (simp add: unfinished_turns_eq turn_spec_keep)
qed

lemma prune_open_ids: "open_turn_ids es \<subseteq> K \<Longrightarrow> open_turn_ids (keep_turns K es) = open_turn_ids es"
  by (simp add: open_turn_ids_def prune_restore_list prune_unfinished_list)

context journal_laws
begin

lemma prune_journal_entries:
  assumes "inv st" and "prune_journal ops rj st = (Inr n, st')"
  shows "scan_entries (rj_scan ops rj st') =
    keep_turns (open_turn_ids (scan_entries (rj_scan ops rj st))) (scan_entries (rj_scan ops rj st))"
  using assms by (simp add: prune_journal_def Let_def rj_compact_ok)

lemma prune_journal_decisions:
  assumes "inv st" and "prune_journal ops rj st = (Inr n, st')"
  defines "old \<equiv> scan_entries (rj_scan ops rj st)"
    and "new \<equiv> scan_entries (rj_scan ops rj st')"
  shows "unfinished_turns new = unfinished_turns old"
    and "turns_to_restore new = turns_to_restore old"
    and "t \<in> open_turn_ids old \<Longrightarrow>
      turn_messages_for_restore now new t = turn_messages_for_restore now old t"
    and "tool_call_states new =
      filter (\<lambda>s. tcs_turn_id s \<in> open_turn_ids old) (tool_call_states old)"
  unfolding old_def new_def prune_journal_entries [OF assms(1,2)]
  by (simp_all add: prune_unfinished_list prune_restore_list turn_messages_keep tool_call_states_keep)

text \<open>A second prune drops nothing.\<close>

lemma prune_journal_idem:
  assumes "inv st" and "prune_journal ops rj st = (Inr n, st')"
    and "prune_journal ops rj st' = (Inr m, st'')"
  shows "m = 0"
proof -
  let ?old = "scan_entries (rj_scan ops rj st)" and ?new = "scan_entries (rj_scan ops rj st')"
  have inv': "inv st'" using assms(1,2) rj_compact_inv by (simp add: prune_journal_def Let_def)
  have "open_turn_ids ?new = open_turn_ids ?old"
    unfolding prune_journal_entries [OF assms(1,2)] by (rule prune_open_ids) simp
  then have "scan_entries (rj_scan ops rj st'') = ?new"
    using prune_journal_entries [OF inv' assms(3)] prune_journal_entries [OF assms(1,2)] by simp
  moreover have "m + length (scan_entries (rj_scan ops rj st'')) = length ?new"
    using assms(3) rj_compact_ok(2) [OF inv'] by (simp add: prune_journal_def Let_def)
  ultimately show ?thesis by simp
qed

end

end
