(* ===== verification/Tool_Pipeline.thy ===== *)
theory Tool_Pipeline
  imports Tool_Registry Tool_Guards Turn_Journal Recovery
begin

text \<open>
  Stage-by-stage execution of one tool call, \<open>src/agent/tool_pipeline.rs\<close>: the prepare phase
  (parse guard, resolve and validate, authorize, state guards), the execute phase (write-ahead
  intent, run, post-execute hook, normalize, terminal record) and the observe stage.

  The state a call works on is one record: the world tools act on, the state of the hook, the
  journal, the two guards and the files of persisted results.  Hooks and tools are their trait
  methods; a panic in a hook is \<open>None\<close>.  What the stages take from outside (the clock, serde's
  parser and printers, \<open>to_lowercase\<close>, the logger's level) is the record \<open>pipe_env\<close>.  The
  clean-up of other sessions' result buckets is not modelled.
\<close>

section \<open>Outcomes\<close>

datatype tool_status = StatusOk | StatusError | StatusBlocked

fun status_str :: "tool_status \<Rightarrow> string" where
  "status_str StatusOk = ''ok''"
| "status_str StatusError = ''error''"
| "status_str StatusBlocked = ''blocked''"

record tool_event =
  ev_call_id :: string
  ev_tool_name :: string
  ev_status :: tool_status
  ev_detail :: string
  ev_duration_ms :: nat

definition event_map :: "tool_event \<Rightarrow> (string \<times> string) list" where
  "event_map e = [(''name'', ev_tool_name e), (''status'', status_str (ev_status e)),
                  (''detail'', ev_detail e)]"

record tool_outcome =
  to_content :: string
  to_status :: tool_status
  to_detail :: string
  to_error :: "string option"
  to_fatal :: "string option"
  to_duration :: nat
  to_added_context :: "string list"

definition ERROR_HINT :: string where
  "ERROR_HINT = ''\<newline>\<newline>[Analyze the error above and try a different approach.]''"

definition ARG_PARSE_ERROR_KEY :: string where
  "ARG_PARSE_ERROR_KEY = ''__args_json_parse_error''"

definition ARG_PARSE_RAW_KEY :: string where
  "ARG_PARSE_RAW_KEY = ''__args_json_raw''"

definition DETAIL_MAX_CHARS :: nat where "DETAIL_MAX_CHARS = 120"
definition RAW_ARGUMENTS_PREVIEW_CHARS :: nat where "RAW_ARGUMENTS_PREVIEW_CHARS = 200"
definition PANIC_REASON_PREVIEW_CHARS :: nat where "PANIC_REASON_PREVIEW_CHARS = 200"

definition flatten_lines :: "string \<Rightarrow> string" where
  "flatten_lines t = map (\<lambda>c. if c = CHR ''\<newline>'' then CHR '' '' else c) t"

definition single_line_detail :: "string \<Rightarrow> string" where
  "single_line_detail t = take_chars DETAIL_MAX_CHARS (trim (flatten_lines t))"

text \<open>\<open>split_once(": ")\<close>: the text after the first occurrence.\<close>

fun after_colon :: "string \<Rightarrow> string option" where
  "after_colon (a # b # cs) =
     (if a = CHR '':'' \<and> b = CHR '' '' then Some cs else after_colon (b # cs))"
| "after_colon _ = None"

definition strip_error_prefix :: "string \<Rightarrow> string" where
  "strip_error_prefix message = (case after_colon message of Some rest \<Rightarrow> rest | None \<Rightarrow> message)"

definition success_detail :: "string \<Rightarrow> string" where
  "success_detail result =
     (let trimmed = trim (flatten_lines result) in
      if trimmed = [] then ''(empty)''
      else if count_chars trimmed > DETAIL_MAX_CHARS
      then take_chars DETAIL_MAX_CHARS trimmed @ ''...''
      else trimmed)"

definition outcome_ok :: "string \<Rightarrow> tool_outcome" where
  "outcome_ok result =
     \<lparr>to_content = result, to_status = StatusOk, to_detail = success_detail result,
      to_error = None, to_fatal = None, to_duration = 0, to_added_context = []\<rparr>"

definition outcome_error :: "string \<Rightarrow> string \<Rightarrow> tool_outcome" where
  "outcome_error message detail =
     \<lparr>to_content = message @ ERROR_HINT, to_status = StatusError, to_detail = detail,
      to_error = Some message, to_fatal = None, to_duration = 0, to_added_context = []\<rparr>"

definition outcome_rejected :: "string \<Rightarrow> tool_outcome" where
  "outcome_rejected message =
     outcome_error message (take_chars DETAIL_MAX_CHARS (strip_error_prefix message))"

definition outcome_circuit_tripped :: "string \<Rightarrow> tool_outcome" where
  "outcome_circuit_tripped message =
     \<lparr>to_content = message, to_status = StatusError,
      to_detail = ''message circuit breaker tripped'', to_error = None, to_fatal = Some message,
      to_duration = 0, to_added_context = []\<rparr>"

definition outcome_blocked_by_hook :: "string \<Rightarrow> tool_outcome" where
  "outcome_blocked_by_hook reason =
     \<lparr>to_content = ''Error: tool call blocked by hook: '' @ reason, to_status = StatusBlocked,
      to_detail = single_line_detail reason, to_error = None, to_fatal = None, to_duration = 0,
      to_added_context = []\<rparr>"

definition outcome_from_tool_result :: "tool_result \<Rightarrow> tool_outcome" where
  "outcome_from_tool_result result =
     (if \<not> tr_is_error result then outcome_ok (tr_content result)
      else outcome_error (tr_content result) (single_line_detail (tr_content result)))"

definition observed :: "bool \<Rightarrow> tool_outcome \<Rightarrow> tool_outcome" where
  "observed fail_on_tool_error outcome =
     (if fail_on_tool_error \<and> to_fatal outcome = None then outcome\<lparr>to_fatal := to_error outcome\<rparr>
      else outcome)"

definition raw_text :: "tool_outcome \<Rightarrow> string" where
  "raw_text outcome = (case to_error outcome of Some e \<Rightarrow> e | None \<Rightarrow> to_content outcome)"

definition with_normalized_content :: "string \<Rightarrow> tool_outcome \<Rightarrow> tool_outcome" where
  "with_normalized_content normalized outcome =
     outcome\<lparr>to_content := (if to_error outcome \<noteq> None then normalized @ ERROR_HINT else normalized)\<rparr>"

definition outcome_event :: "string \<Rightarrow> string \<Rightarrow> tool_outcome \<Rightarrow> tool_event" where
  "outcome_event call_id tool_name outcome =
     \<lparr>ev_call_id = call_id, ev_tool_name = tool_name, ev_status = to_status outcome,
      ev_detail = to_detail outcome, ev_duration_ms = min (to_duration outcome) (2 ^ 64 - 1)\<rparr>"

definition take_added_context :: "tool_outcome \<Rightarrow> string list \<times> tool_outcome" where
  "take_added_context outcome = (to_added_context outcome, outcome\<lparr>to_added_context := []\<rparr>)"

definition into_triple :: "string \<Rightarrow> tool_outcome \<Rightarrow> string \<times> (string \<times> string) list \<times> string option" where
  "into_triple tool_name outcome =
     (to_content outcome, event_map (outcome_event [] tool_name outcome), to_fatal outcome)"

section \<open>The call, the hook and the state\<close>

record tool_call_request =
  tc_id :: string
  tc_name :: string
  tc_arguments :: arguments

datatype call_decision = AllowCall | DenyCall string

record post_call_decision =
  pd_replacement :: "string option"
  pd_block_reason :: "string option"
  pd_added_context :: "string list"

record authorization_request =
  ar_call_id :: string
  ar_tool_name :: string
  ar_arguments :: json
  ar_channel :: "string option"
  ar_chat_id :: "string option"
  ar_turn_id :: "string option"

record result_view =
  rv_call_id :: string
  rv_tool_name :: string
  rv_content :: string
  rv_is_error :: bool
  rv_channel :: "string option"
  rv_chat_id :: "string option"

record 'h agent_hook =
  hk_authorize :: "authorization_request \<Rightarrow> 'h \<Rightarrow> call_decision option \<times> 'h"
  hk_after :: "result_view \<Rightarrow> 'h \<Rightarrow> post_call_decision option \<times> 'h"
  hk_on_result :: "tool_event \<Rightarrow> 'h \<Rightarrow> 'h"

definition HOOK_PANIC_DENY_REASON :: string where
  "HOOK_PANIC_DENY_REASON = ''A tool-approval hook panicked; tool calls were blocked for safety''"

definition HOOK_PANIC_RESULT_REASON :: string where
  "HOOK_PANIC_RESULT_REASON = ''A tool-result hook panicked; the result was withheld for safety''"

text \<open>\<open>PostCallDecision::then\<close>, the combination of two hooks.\<close>

definition post_then :: "post_call_decision \<Rightarrow> post_call_decision \<Rightarrow> post_call_decision" where
  "post_then d later =
     \<lparr>pd_replacement = (if pd_replacement later \<noteq> None then pd_replacement later else pd_replacement d),
      pd_block_reason = (if pd_block_reason d \<noteq> None then pd_block_reason d else pd_block_reason later),
      pd_added_context = pd_added_context d @ pd_added_context later\<rparr>"

text \<open>The fields of \<open>AgentRunSpec\<close> that the pipeline reads.\<close>

record ('w, 'h) run_spec =
  sp_tools :: "'w registry"
  sp_max_tool_result_chars :: nat
  sp_hook :: "'h agent_hook option"
  sp_fail_on_tool_error :: bool
  sp_workspace :: "string option"
  sp_session_key :: "string option"
  sp_channel :: "string option"
  sp_chat_id :: "string option"
  sp_journal :: "turn_journal option"
  sp_tool_timeout :: "nat option"

record pipe_env =
  pe_now :: string
  pe_lower :: "string \<Rightarrow> string"
  pe_log_warn :: bool
  pe_parse :: "string \<Rightarrow> json option"
  pe_show :: "json \<Rightarrow> string"
  pe_pretty :: "json \<Rightarrow> string"
  pe_show_secs :: "nat \<Rightarrow> string"
  pe_elapsed_ms :: nat

record ('w, 'h, 'st) pipe_state =
  ps_world :: 'w
  ps_hook :: 'h
  ps_journal :: "'st journal_world"
  ps_breaker :: circuit_breaker
  ps_counts :: lookup_counts
  ps_counts_poisoned :: bool
  ps_result_files :: "(string \<times> string) list"

section \<open>Stage 8: normalizing a result\<close>

definition TOOL_RESULT_PREVIEW_CHARS :: nat where "TOOL_RESULT_PREVIEW_CHARS = 1200"

definition TOOL_RESULTS_DIR :: string where "TOOL_RESULTS_DIR = ''.rust-bot/tool-results''"

definition render_tool_result_reference :: "string \<Rightarrow> nat \<Rightarrow> string \<Rightarrow> bool \<Rightarrow> string" where
  "render_tool_result_reference filepath original_size preview truncated_preview =
     ''[tool output persisted]\<newline>Full output saved to: '' @ filepath @
     ''\<newline>Original size: '' @ show_nat original_size @ '' chars\<newline>Preview:\<newline>'' @ preview @
     (if truncated_preview then ''\<newline>...\<newline>(Read the saved file if you need the full output.)'' else [])"

definition result_path :: "string \<Rightarrow> string option \<Rightarrow> string \<Rightarrow> bool \<Rightarrow> string" where
  "result_path workspace session_key call_id is_json =
     workspace @ ''/'' @ TOOL_RESULTS_DIR @ ''/'' @
     safe_filename (case session_key of Some k \<Rightarrow> k | None \<Rightarrow> ''default'') @ ''/'' @
     safe_filename call_id @ ''.'' @ (if is_json then ''json'' else ''txt'')"

definition text_payload :: "json \<Rightarrow> (string \<times> bool) option" where
  "text_payload content =
     (case content of
        JString s \<Rightarrow> Some (s, False)
      | JArray blocks \<Rightarrow> map_option (\<lambda>t. (t, True)) (stringify_text_blocks blocks)
      | _ \<Rightarrow> None)"

definition maybe_persist_tool_result ::
    "pipe_env \<Rightarrow> string option \<Rightarrow> string option \<Rightarrow> string \<Rightarrow> json \<Rightarrow> nat \<Rightarrow> (string \<times> string) list \<Rightarrow>
     json \<times> (string \<times> string) list" where
  "maybe_persist_tool_result env workspace session_key call_id content max_chars files =
     (case workspace of
        None \<Rightarrow> (content, files)
      | Some w \<Rightarrow>
          if max_chars = 0 then (content, files)
          else
            (case text_payload content of
               None \<Rightarrow> (content, files)
             | Some (payload, is_json) \<Rightarrow>
                 if length payload \<le> max_chars then (content, files)
                 else
                   (let path = result_path w session_key call_id is_json;
                        body = (if is_json then pe_pretty env content else payload);
                        files = (if map_of files path = None then AList.update path body files else files);
                        char_count = count_chars payload;
                        preview = take_chars TOOL_RESULT_PREVIEW_CHARS payload
                    in (JString (render_tool_result_reference path char_count preview
                          (char_count > TOOL_RESULT_PREVIEW_CHARS)), files))))"

definition normalize_tool_result ::
    "pipe_env \<Rightarrow> ('w, 'h) run_spec \<Rightarrow> string \<Rightarrow> string \<Rightarrow> json \<Rightarrow> (string \<times> string) list \<Rightarrow>
     json \<times> (string \<times> string) list" where
  "normalize_tool_result env spec call_id tool_name result files =
     (let result = ensure_nonempty_tool_result tool_name result in
      case maybe_persist_tool_result env (sp_workspace spec) (sp_session_key spec) call_id result
             (sp_max_tool_result_chars spec) files of
        (content, files) \<Rightarrow>
          ((case content of
              JString s \<Rightarrow>
                if sp_max_tool_result_chars spec > 0 \<and> length s > sp_max_tool_result_chars spec
                then JString (truncate_text s (sp_max_tool_result_chars spec)) else content
            | _ \<Rightarrow> content), files))"

definition normalized_text ::
    "pipe_env \<Rightarrow> ('w, 'h) run_spec \<Rightarrow> tool_call_request \<Rightarrow> string \<Rightarrow> (string \<times> string) list \<Rightarrow>
     string \<times> (string \<times> string) list" where
  "normalized_text env spec call t files =
     (case normalize_tool_result env spec (tc_id call) (tc_name call)
             (coerce_tool_execute_result (pe_parse env) t) files of
        (JString t', files) \<Rightarrow> (t', files)
      | (blocks, files) \<Rightarrow> (pe_show env blocks, files))"

section \<open>Stages 1 to 4: may the call run?\<close>

definition guard_well_formed_arguments :: "tool_call_request \<Rightarrow> tool_outcome + unit" where
  "guard_well_formed_arguments call =
     (case Option.bind (map_of (tc_arguments call) ARG_PARSE_ERROR_KEY) as_str of
        None \<Rightarrow> Inr ()
      | Some parse_error \<Rightarrow>
          (let raw = arg_str (map_of (tc_arguments call) ARG_PARSE_RAW_KEY);
               message = ''Error: malformed tool arguments JSON for '' @ [CHR 0x27] @ tc_name call @
                 [CHR 0x27] @ '': '' @ parse_error @ ''. Raw arguments: '' @
                 take_chars RAW_ARGUMENTS_PREVIEW_CHARS raw
           in Inl (outcome_error message (single_line_detail message))))"

definition resolve_and_validate ::
    "'w registry \<Rightarrow> tool_call_request \<Rightarrow> tool_outcome + 'w tool \<times> json" where
  "resolve_and_validate tools call =
     (case resolve_tool tools (tc_name call) of
        Inl message \<Rightarrow> Inl (outcome_rejected message)
      | Inr tool \<Rightarrow>
          (case validate_call (tc_name call) tool (JObject (tc_arguments call)) of
             Inl (_, message) \<Rightarrow> Inl (outcome_rejected message)
           | Inr params \<Rightarrow> Inr (tool, params)))"

definition authorize ::
    "'st journal_store \<Rightarrow> pipe_env \<Rightarrow> ('w, 'h) run_spec \<Rightarrow> tool_call_request \<Rightarrow> json \<Rightarrow>
     ('w, 'h, 'st) pipe_state \<Rightarrow> (tool_outcome + unit) \<times> ('w, 'h, 'st) pipe_state" where
  "authorize ops env spec call params ps =
     (case sp_hook spec of
        None \<Rightarrow> (Inr (), ps)
      | Some hook \<Rightarrow>
          (let request = \<lparr>ar_call_id = tc_id call, ar_tool_name = tc_name call, ar_arguments = params,
                 ar_channel = sp_channel spec, ar_chat_id = sp_chat_id spec,
                 ar_turn_id = map_option tj_turn_id (sp_journal spec)\<rparr>
           in case hk_authorize hook request (ps_hook ps) of
                (answer, h) \<Rightarrow>
                  (let ps = ps\<lparr>ps_hook := h\<rparr>;
                       decision = (case answer of Some d \<Rightarrow> d | None \<Rightarrow> DenyCall HOOK_PANIC_DENY_REASON)
                   in case decision of
                        AllowCall \<Rightarrow> (Inr (), ps)
                      | DenyCall reason \<Rightarrow>
                          (Inl (outcome_blocked_by_hook reason),
                           case sp_journal spec of
                             None \<Rightarrow> ps
                           | Some journal \<Rightarrow>
                               ps\<lparr>ps_journal := record_blocked_call ops (pe_now env) journal (tc_id call)
                                   (tc_name call) params reason (ps_journal ps)\<rparr>))))"

definition guard_message_circuit_breaker ::
    "tool_call_request \<Rightarrow> ('w, 'h, 'st) pipe_state \<Rightarrow> (tool_outcome + unit) \<times> ('w, 'h, 'st) pipe_state" where
  "guard_message_circuit_breaker call ps =
     (case observe (tc_name call) (tc_arguments call) (ps_breaker ps) of
        (decision, b) \<Rightarrow>
          ((case decision of
              Tripped streak \<Rightarrow> Inl (outcome_circuit_tripped (tripped_error_message streak))
            | Allow \<Rightarrow> Inr ()), ps\<lparr>ps_breaker := b\<rparr>))"

text \<open>\<open>lock().unwrap()\<close> panics on a lock that an earlier panic poisoned.\<close>

definition guard_repeated_external_lookup ::
    "pipe_env \<Rightarrow> tool_call_request \<Rightarrow> ('w, 'h, 'st) pipe_state \<Rightarrow>
     (tool_outcome + unit) returns \<times> ('w, 'h, 'st) pipe_state" where
  "guard_repeated_external_lookup env call ps =
     (if ps_counts_poisoned ps then (Panics, ps)
      else
        (case repeated_external_lookup_error (pe_lower env) (pe_log_warn env) (tc_name call)
                (tc_arguments call) (ps_counts ps) of
           (Panics, counts) \<Rightarrow> (Panics, ps\<lparr>ps_counts := counts, ps_counts_poisoned := True\<rparr>)
         | (Returns None, counts) \<Rightarrow> (Returns (Inr ()), ps\<lparr>ps_counts := counts\<rparr>)
         | (Returns (Some message), counts) \<Rightarrow>
             (Returns (Inl (outcome_error message ''repeated external lookup blocked'')),
              ps\<lparr>ps_counts := counts\<rparr>)))"

type_synonym 'w prepared_call = "'w tool \<times> json"

definition prepare_tool_call ::
    "'st journal_store \<Rightarrow> pipe_env \<Rightarrow> ('w, 'h) run_spec \<Rightarrow> tool_call_request \<Rightarrow>
     ('w, 'h, 'st) pipe_state \<Rightarrow>
     (tool_outcome + 'w prepared_call) returns \<times> ('w, 'h, 'st) pipe_state" where
  "prepare_tool_call ops env spec call ps =
     (case guard_well_formed_arguments call of
        Inl outcome \<Rightarrow> (Returns (Inl outcome), ps)
      | Inr _ \<Rightarrow>
     (case resolve_and_validate (sp_tools spec) call of
        Inl outcome \<Rightarrow> (Returns (Inl outcome), ps)
      | Inr (tool, params) \<Rightarrow>
     (case authorize ops env spec call params ps of
        (Inl outcome, ps) \<Rightarrow> (Returns (Inl outcome), ps)
      | (Inr _, ps) \<Rightarrow>
     (case guard_message_circuit_breaker call ps of
        (Inl outcome, ps) \<Rightarrow> (Returns (Inl outcome), ps)
      | (Inr _, ps) \<Rightarrow>
     (case guard_repeated_external_lookup env call ps of
        (Panics, ps) \<Rightarrow> (Panics, ps)
      | (Returns (Inl outcome), ps) \<Rightarrow> (Returns (Inl outcome), ps)
      | (Returns (Inr _), ps) \<Rightarrow> (Returns (Inr (tool, params)), ps))))))"

section \<open>Stages 5 to 10: running the call\<close>

text \<open>\<open>Display\<close> of \<open>IntentNotPersisted\<close>.\<close>

definition refusal_text :: "string \<Rightarrow> string" where
  "refusal_text tool_name = ''tool '' @ [CHR 0x27] @ tool_name @ [CHR 0x27] @ '' '' @
     ''was not executed: its intent could not be written to the durability journal              (durability.journalMode is '' @ [CHR 0x22] @
     ''strict'' @ [CHR 0x22] @
     ''). Check the journal'' @ [CHR 0x27] @ ''s disk, or set              durability.journalMode to '' @ [CHR 0x22] @
     ''bestEffort'' @ [CHR 0x22] @
     ''.''"

definition journal_begin ::
    "'st journal_store \<Rightarrow> pipe_env \<Rightarrow> ('w, 'h) run_spec \<Rightarrow> tool_call_request \<Rightarrow> 'w tool \<Rightarrow> json \<Rightarrow>
     ('w, 'h, 'st) pipe_state \<Rightarrow>
     (tool_outcome + in_flight_call option) \<times> ('w, 'h, 'st) pipe_state" where
  "journal_begin ops env spec call tool params ps =
     (case sp_journal spec of
        None \<Rightarrow> (Inr None, ps)
      | Some journal \<Rightarrow>
          (case begin_tool_call ops (pe_now env) journal (tc_id call) (tc_name call) params
                  (tl_replay_safe tool) (ps_journal ps) of
             (Inr in_flight, w) \<Rightarrow> (Inr (Some in_flight), ps\<lparr>ps_journal := w\<rparr>)
           | (Inl (IntentNotPersisted name), w) \<Rightarrow>
               (Inl (outcome_error (''Error: '' @ refusal_text name)
                  ''intent not journaled (strict durability mode)''), ps\<lparr>ps_journal := w\<rparr>)))"

definition effective_timeout :: "nat option \<Rightarrow> 'w tool \<Rightarrow> nat option" where
  "effective_timeout configured tool = (if tl_exempt tool then None else configured)"

definition tool_timeout_from_seconds :: "u32 \<Rightarrow> nat option" where
  "tool_timeout_from_seconds seconds = (if seconds > 0 then Some (1000 * unat seconds) else None)"

definition timeout_error :: "pipe_env \<Rightarrow> string \<Rightarrow> nat \<Rightarrow> string" where
  "timeout_error env tool_name limit =
     ''Error: tool '' @ [CHR 0x27] @ tool_name @ [CHR 0x27] @ '' timed out after '' @
     pe_show_secs env limit @ ''s and was cancelled''"

definition panic_error :: "string \<Rightarrow> string option \<Rightarrow> string" where
  "panic_error tool_name payload =
     ''Error: tool '' @ [CHR 0x27] @ tool_name @ [CHR 0x27] @ '' crashed: '' @
     take_chars PANIC_REASON_PREVIEW_CHARS
       (case payload of Some reason \<Rightarrow> reason | None \<Rightarrow> ''unknown panic'')"

text \<open>A run without a limit never times out.\<close>

definition execute_tool ::
    "pipe_env \<Rightarrow> ('w, 'h) run_spec \<Rightarrow> tool_call_request \<Rightarrow> 'w tool \<Rightarrow> json \<Rightarrow> 'w \<Rightarrow> tool_result \<times> 'w" where
  "execute_tool env spec call tool params w =
     (let limit = effective_timeout (sp_tool_timeout spec) tool;
          identity = map_option (\<lambda>journal. (tj_turn_id journal, tc_id call)) (sp_journal spec) in
      case tl_run tool identity limit params w of
        (Finished result, w) \<Rightarrow> (result, w)
      | (Panicked payload, w) \<Rightarrow> (tool_result_error (panic_error (tc_name call) payload), w)
      | (TimedOut, w) \<Rightarrow>
          (tool_result_error (timeout_error env (tc_name call)
             (case limit of Some l \<Rightarrow> l | None \<Rightarrow> 0)), w))"

definition post_call ::
    "('w, 'h) run_spec \<Rightarrow> tool_call_request \<Rightarrow> tool_result \<Rightarrow> 'h \<Rightarrow> (tool_result \<times> string list) \<times> 'h" where
  "post_call spec call result h =
     (case sp_hook spec of
        None \<Rightarrow> ((result, []), h)
      | Some hook \<Rightarrow>
          (let view = \<lparr>rv_call_id = tc_id call, rv_tool_name = tc_name call,
                 rv_content = tr_content result, rv_is_error = tr_is_error result,
                 rv_channel = sp_channel spec, rv_chat_id = sp_chat_id spec\<rparr>
           in case hk_after hook view h of
                (answer, h) \<Rightarrow>
                  (let decision = (case answer of Some d \<Rightarrow> d
                       | None \<Rightarrow> \<lparr>pd_replacement = None, pd_block_reason = Some HOOK_PANIC_RESULT_REASON,
                                  pd_added_context = []\<rparr>)
                   in case pd_block_reason decision of
                        Some reason \<Rightarrow>
                          ((tool_result_error (''Error: tool result blocked by hook: '' @ reason),
                            pd_added_context decision), h)
                      | None \<Rightarrow>
                          ((result\<lparr>tr_content := (case pd_replacement decision of
                               Some c \<Rightarrow> c | None \<Rightarrow> tr_content result)\<rparr>,
                            pd_added_context decision), h))))"

definition journal_finish ::
    "'st journal_store \<Rightarrow> pipe_env \<Rightarrow> in_flight_call option \<Rightarrow> tool_result \<Rightarrow> 'st journal_world \<Rightarrow>
     'st journal_world" where
  "journal_finish ops env in_flight result w =
     (case in_flight of
        None \<Rightarrow> w
      | Some call \<Rightarrow>
          finish_call ops (pe_now env) call (if tr_is_error result then CallError else CallDone)
            (tr_content result) w)"

definition execute_prepared ::
    "'st journal_store \<Rightarrow> pipe_env \<Rightarrow> ('w, 'h) run_spec \<Rightarrow> tool_call_request \<Rightarrow> 'w prepared_call \<Rightarrow>
     ('w, 'h, 'st) pipe_state \<Rightarrow> tool_outcome \<times> ('w, 'h, 'st) pipe_state" where
  "execute_prepared ops env spec call prepared ps =
     (case prepared of (tool, params) \<Rightarrow>
     (case journal_begin ops env spec call tool params ps of
        (Inl outcome, ps) \<Rightarrow> (outcome, ps)
      | (Inr in_flight, ps) \<Rightarrow>
     (case execute_tool env spec call tool params (ps_world ps) of
        (result, w) \<Rightarrow>
     (case post_call spec call result (ps_hook ps) of
        ((result, added_context), h) \<Rightarrow>
     (case normalized_text env spec call (tr_content result) (ps_result_files ps) of
        (normalized, files) \<Rightarrow>
          ((with_normalized_content normalized (outcome_from_tool_result result))
             \<lparr>to_added_context := added_context\<rparr>,
           ps\<lparr>ps_world := w, ps_hook := h, ps_result_files := files,
              ps_journal := journal_finish ops env in_flight
                (result\<lparr>tr_content := normalized\<rparr>) (ps_journal ps)\<rparr>))))))"

definition notify_tool_result :: "('w, 'h) run_spec \<Rightarrow> tool_event \<Rightarrow> 'h \<Rightarrow> 'h" where
  "notify_tool_result spec event h =
     (case sp_hook spec of None \<Rightarrow> h | Some hook \<Rightarrow> hk_on_result hook event h)"

definition complete_tool_call ::
    "'st journal_store \<Rightarrow> pipe_env \<Rightarrow> ('w, 'h) run_spec \<Rightarrow> tool_call_request \<Rightarrow>
     tool_outcome + 'w prepared_call \<Rightarrow> ('w, 'h, 'st) pipe_state \<Rightarrow>
     tool_outcome \<times> ('w, 'h, 'st) pipe_state" where
  "complete_tool_call ops env spec call prepared ps =
     (case (case prepared of
              Inr p \<Rightarrow> execute_prepared ops env spec call p ps
            | Inl outcome \<Rightarrow>
                (case normalized_text env spec call (raw_text outcome) (ps_result_files ps) of
                   (normalized, files) \<Rightarrow>
                     (with_normalized_content normalized outcome, ps\<lparr>ps_result_files := files\<rparr>))) of
        (outcome, ps) \<Rightarrow>
          (let outcome = (observed (sp_fail_on_tool_error spec) outcome)\<lparr>to_duration := pe_elapsed_ms env\<rparr>
           in (outcome,
               ps\<lparr>ps_hook := notify_tool_result spec (outcome_event (tc_id call) (tc_name call) outcome)
                    (ps_hook ps)\<rparr>)))"

definition run_tool_call ::
    "'st journal_store \<Rightarrow> pipe_env \<Rightarrow> ('w, 'h) run_spec \<Rightarrow> tool_call_request \<Rightarrow>
     ('w, 'h, 'st) pipe_state \<Rightarrow> tool_outcome returns \<times> ('w, 'h, 'st) pipe_state" where
  "run_tool_call ops env spec call ps =
     (case prepare_tool_call ops env spec call ps of
        (Panics, ps) \<Rightarrow> (Panics, ps)
      | (Returns prepared, ps) \<Rightarrow>
          (case complete_tool_call ops env spec call prepared ps of
             (outcome, ps) \<Rightarrow> (Returns outcome, ps)))"

end
