(* ===== verification/Pipeline_Laws.thy ===== *)
theory Pipeline_Laws
  imports Tool_Pipeline
begin

text \<open>
  What the tool pipeline guarantees: a call that touches the world passed every gate, a denied
  call touches neither the world nor the guards, and what the journal holds when a tool has run:
  in strict mode always its intent, and without disk failures its intent and terminal record.
\<close>

section \<open>The prepare phase\<close>

definition call_request :: "('w, 'h) run_spec \<Rightarrow> tool_call_request \<Rightarrow> json \<Rightarrow> authorization_request" where
  "call_request spec call params =
     \<lparr>ar_call_id = tc_id call, ar_tool_name = tc_name call, ar_arguments = params,
      ar_channel = sp_channel spec, ar_chat_id = sp_chat_id spec,
      ar_turn_id = map_option tj_turn_id (sp_journal spec)\<rparr>"

text \<open>The hook's answer to the request: allowed without a hook or by an explicit allow.\<close>

definition hook_allows :: "('w, 'h) run_spec \<Rightarrow> tool_call_request \<Rightarrow> json \<Rightarrow> 'h \<Rightarrow> bool" where
  "hook_allows spec call params h \<longleftrightarrow>
     (case sp_hook spec of
        None \<Rightarrow> True
      | Some hook \<Rightarrow> fst (hk_authorize hook (call_request spec call params) h) = Some AllowCall)"

lemma authorize_cases:
  "authorize ops env spec call params ps = (res, ps') \<Longrightarrow>
   (res = Inr () \<longleftrightarrow> hook_allows spec call params (ps_hook ps)) \<and>
   ps_world ps' = ps_world ps \<and> ps_breaker ps' = ps_breaker ps \<and> ps_counts ps' = ps_counts ps \<and>
   ps_counts_poisoned ps' = ps_counts_poisoned ps \<and>
   (hook_allows spec call params (ps_hook ps) \<longrightarrow> ps_journal ps' = ps_journal ps)"
  by (cases "sp_hook spec")
    (auto simp: authorize_def hook_allows_def call_request_def Let_def
      split: prod.splits option.splits call_decision.splits)

lemma breaker_guard_cases:
  "guard_message_circuit_breaker call ps = (res, ps') \<Longrightarrow>
   ps' = ps\<lparr>ps_breaker := snd (observe (tc_name call) (tc_arguments call) (ps_breaker ps))\<rparr> \<and>
   (res = Inr () \<longrightarrow> \<not> cb_tripped (snd (observe (tc_name call) (tc_arguments call) (ps_breaker ps))))"
  by (auto simp: guard_message_circuit_breaker_def observe_def breaker_reset_def Let_def
      split: prod.splits circuit_decision.splits option.splits if_splits)

lemma lookup_guard_cases:
  "guard_repeated_external_lookup env call ps = (res, ps') \<Longrightarrow>
   ps_world ps' = ps_world ps \<and> ps_breaker ps' = ps_breaker ps \<and> ps_journal ps' = ps_journal ps \<and>
   ps_hook ps' = ps_hook ps \<and>
   (res = Returns (Inr ()) \<longrightarrow> ps_counts_poisoned ps = False)"
  by (auto simp: guard_repeated_external_lookup_def
      split: prod.splits returns.splits option.splits if_splits)

lemma resolve_and_validate_Inr:
  "resolve_and_validate tools call = Inr (tool, params) \<Longrightarrow>
   resolve_tool tools (tc_name call) = Inr tool \<and>
   params = tl_cast tool (JObject (tc_arguments call)) \<and> tl_validate tool params = []"
  by (auto simp: resolve_and_validate_def validate_call_def Let_def
      split: sum.splits if_splits)

text \<open>Everything a prepared call passed.\<close>

definition cleared ::
    "('w, 'h) run_spec \<Rightarrow> tool_call_request \<Rightarrow> ('w, 'h, 'st) pipe_state \<Rightarrow> 'w tool \<Rightarrow> json \<Rightarrow> bool" where
  "cleared spec call ps tool params \<longleftrightarrow>
     guard_well_formed_arguments call = Inr () \<and>
     resolve_tool (sp_tools spec) (tc_name call) = Inr tool \<and>
     params = tl_cast tool (JObject (tc_arguments call)) \<and> tl_validate tool params = [] \<and>
     hook_allows spec call params (ps_hook ps) \<and>
     \<not> cb_tripped (snd (observe (tc_name call) (tc_arguments call) (ps_breaker ps)))"

lemma prepare_tool_call_cases:
  assumes "prepare_tool_call ops env spec call ps = (res, ps')"
  shows "ps_world ps' = ps_world ps"
    and "res = Returns (Inr (tool, params)) \<Longrightarrow>
      cleared spec call ps tool params \<and> ps_journal ps' = ps_journal ps"
proof -
  have "ps_world ps' = ps_world ps \<and> (res = Returns (Inr (tool, params)) \<longrightarrow>
      cleared spec call ps tool params \<and> ps_journal ps' = ps_journal ps)" for tool params
  proof (cases "guard_well_formed_arguments call")
    case (Inl out)
    with assms show ?thesis by (auto simp: prepare_tool_call_def)
  next
    case wf: (Inr u)
    show ?thesis
    proof (cases "resolve_and_validate (sp_tools spec) call")
      case (Inl out)
      with assms wf show ?thesis by (auto simp: prepare_tool_call_def)
    next
      case (Inr tp)
      obtain t p where tp: "tp = (t, p)" by (cases tp)
      note rv = resolve_and_validate_Inr [OF Inr [unfolded tp]]
      obtain r1 ps1 where a: "authorize ops env spec call p ps = (r1, ps1)"
        by (cases "authorize ops env spec call p ps")
      obtain r2 ps2 where b: "guard_message_circuit_breaker call ps1 = (r2, ps2)"
        by (cases "guard_message_circuit_breaker call ps1")
      obtain r3 ps3 where c: "guard_repeated_external_lookup env call ps2 = (r3, ps3)"
        by (cases "guard_repeated_external_lookup env call ps2")
      note A = authorize_cases [OF a] and B = breaker_guard_cases [OF b]
        and C = lookup_guard_cases [OF c]
      have unf: "(res, ps') = (case r1 of Inl o1 \<Rightarrow> (Returns (Inl o1), ps1) | Inr _ \<Rightarrow>
          (case r2 of Inl o2 \<Rightarrow> (Returns (Inl o2), ps2) | Inr _ \<Rightarrow>
          (case r3 of Panics \<Rightarrow> (Panics, ps3) | Returns (Inl o3) \<Rightarrow> (Returns (Inl o3), ps3)
           | Returns (Inr _) \<Rightarrow> (Returns (Inr (t, p)), ps3))))"
        using assms unfolding prepare_tool_call_def wf Inr tp sum.case prod.case a
        by (cases r1; cases r2) (simp_all add: b c)
      have world: "ps_world ps1 = ps_world ps" "ps_world ps2 = ps_world ps" "ps_world ps3 = ps_world ps"
        using A B C by simp_all
      show ?thesis
      proof (cases r1)
        case Inl
        with unf world show ?thesis by simp
      next
        case r1: (Inr u1)
        show ?thesis
        proof (cases r2)
          case Inl
          with unf world r1 show ?thesis by simp
        next
          case r2: (Inr u2)
          have ok: "hook_allows spec call p (ps_hook ps)" "ps_journal ps1 = ps_journal ps"
            using A r1 by simp_all
          have closed: "\<not> cb_tripped (snd (observe (tc_name call) (tc_arguments call) (ps_breaker ps)))"
            using A B r2 by simp
          have "ps_journal ps3 = ps_journal ps" using ok(2) B C by simp
          with ok closed unf world r1 r2 rv wf show ?thesis
            by (auto simp: cleared_def split: returns.splits sum.splits)
        qed
      qed
    qed
  qed
  then show "ps_world ps' = ps_world ps"
    and "res = Returns (Inr (tool, params)) \<Longrightarrow>
      cleared spec call ps tool params \<and> ps_journal ps' = ps_journal ps" by blast+
qed

text \<open>A denied call is not counted by the guards.\<close>

lemma denied_not_counted:
  assumes "\<not> hook_allows spec call (tl_cast tool (JObject (tc_arguments call))) (ps_hook ps)"
    and "resolve_tool (sp_tools spec) (tc_name call) = Inr tool"
    and "prepare_tool_call ops env spec call ps = (res, ps')"
  shows "ps_breaker ps' = ps_breaker ps \<and> ps_counts ps' = ps_counts ps"
proof (cases "guard_well_formed_arguments call")
  case (Inl out)
  with assms(3) show ?thesis by (auto simp: prepare_tool_call_def)
next
  case wf: (Inr u)
  show ?thesis
  proof (cases "resolve_and_validate (sp_tools spec) call")
    case (Inl out)
    with assms(3) wf show ?thesis by (auto simp: prepare_tool_call_def)
  next
    case (Inr tp)
    obtain t p where tp: "tp = (t, p)" by (cases tp)
    have p: "p = tl_cast tool (JObject (tc_arguments call))"
      using resolve_and_validate_Inr [OF Inr [unfolded tp]] assms(2) by simp
    obtain r1 ps1 where a: "authorize ops env spec call p ps = (r1, ps1)"
      by (cases "authorize ops env spec call p ps")
    from authorize_cases [OF a] assms(1) p have "r1 \<noteq> Inr ()" by simp
    then obtain out where "r1 = Inl out" by (cases r1) auto
    with assms(3) wf Inr tp a authorize_cases [OF a] show ?thesis
      by (auto simp: prepare_tool_call_def)
  qed
qed

section \<open>The execute phase\<close>

lemma execute_prepared_world:
  assumes "execute_prepared ops env spec call (tool, params) ps = (out, ps')"
  shows "ps_world ps' = ps_world ps \<or>
    (\<exists>in_flight ps1. journal_begin ops env spec call tool params ps = (Inr in_flight, ps1) \<and>
       (\<exists>result. ps_journal ps' = journal_finish ops env in_flight result (ps_journal ps1)))"
proof (cases "journal_begin ops env spec call tool params ps")
  case (Pair res ps1)
  show ?thesis
  proof (cases res)
    case (Inl o1)
    with assms Pair show ?thesis
      by (auto simp: execute_prepared_def journal_begin_def split: option.splits prod.splits
          sum.splits intent_not_persisted.splits)
  next
    case (Inr in_flight)
    with assms Pair show ?thesis
      by (auto simp: execute_prepared_def split: prod.splits)
  qed
qed

lemma complete_tool_call_world:
  assumes "complete_tool_call ops env spec call prepared ps = (out, ps')"
    and "ps_world ps' \<noteq> ps_world ps"
  obtains tool params ps1 out1 where "prepared = Inr (tool, params)"
    "execute_prepared ops env spec call (tool, params) ps = (out1, ps1)"
    "ps_world ps1 = ps_world ps'" "ps_journal ps1 = ps_journal ps'"
proof (cases prepared)
  case (Inl o1)
  with assms show ?thesis by (auto simp: complete_tool_call_def Let_def split: prod.splits)
next
  case (Inr tp)
  obtain tool params where tp: "tp = (tool, params)" by (cases tp)
  obtain out1 ps1 where e: "execute_prepared ops env spec call (tool, params) ps = (out1, ps1)"
    by (cases "execute_prepared ops env spec call (tool, params) ps")
  from assms(1) Inr tp e have "ps_world ps1 = ps_world ps'" "ps_journal ps1 = ps_journal ps'"
    by (auto simp: complete_tool_call_def Let_def)
  with that Inr tp e show ?thesis by blast
qed

text \<open>Only a cleared call touches the world.\<close>

lemma run_tool_call_gate:
  assumes "ps_world (snd (run_tool_call ops env spec call ps)) \<noteq> ps_world ps"
  shows "\<exists>tool params. cleared spec call ps tool params"
proof -
  obtain res ps1 where p: "prepare_tool_call ops env spec call ps = (res, ps1)"
    by (cases "prepare_tool_call ops env spec call ps")
  note pc = prepare_tool_call_cases [OF p]
  obtain prepared where res: "res = Returns prepared"
    using assms p pc(1) by (cases res) (auto simp: run_tool_call_def)
  obtain out ps2 where c: "complete_tool_call ops env spec call prepared ps1 = (out, ps2)"
    by (cases "complete_tool_call ops env spec call prepared ps1")
  have "ps_world ps2 \<noteq> ps_world ps1" using assms p res c pc(1) by (simp add: run_tool_call_def)
  from complete_tool_call_world [OF c this] obtain tool params where "prepared = Inr (tool, params)"
    by metis
  with pc(2) res show ?thesis by blast
qed

section \<open>What the journal holds after a call\<close>

context journal_laws
begin

lemma authorize_inv:
  assumes "inv (snd (ps_journal ps))" "authorize ops env spec call params ps = (res, ps')"
  shows "inv (snd (ps_journal ps'))"
  using assms turn_append_inv [of "ps_journal ps"]
  by (auto simp: authorize_def record_blocked_once Let_def split: option.splits prod.splits call_decision.splits)

text \<open>
  Strict mode: a tool that acted on the world has its intent in the journal, with the arguments
  it ran with and its own replay safety.
\<close>

lemma strict_intent_recorded:
  assumes inv: "inv (snd (ps_journal ps))"
    and mode: "sp_journal spec = Some turn" "tj_mode turn = Strict"
    and acted: "ps_world (snd (run_tool_call ops env spec call ps)) \<noteq> ps_world ps"
  obtains tool params n where "cleared spec call ps tool params"
    "new_entry (pe_now env) n (ToolIntent (tj_turn_id turn) (tc_id call) (tc_name call) params
       (tl_replay_safe tool) Intent None)
     \<in> set (world_entries ops (ps_journal (snd (run_tool_call ops env spec call ps))))"
proof -
  obtain res ps1 where p: "prepare_tool_call ops env spec call ps = (res, ps1)"
    by (cases "prepare_tool_call ops env spec call ps")
  note pc = prepare_tool_call_cases [OF p]
  obtain prepared where res: "res = Returns prepared"
    using acted p pc(1) by (cases res) (auto simp: run_tool_call_def)
  obtain out ps2 where c: "complete_tool_call ops env spec call prepared ps1 = (out, ps2)"
    by (cases "complete_tool_call ops env spec call prepared ps1")
  have run: "snd (run_tool_call ops env spec call ps) = ps2"
    using p res c by (simp add: run_tool_call_def)
  have "ps_world ps2 \<noteq> ps_world ps1" using acted run pc(1) by simp
  from complete_tool_call_world [OF c this] obtain tool params ps3 out3 where
      prep: "prepared = Inr (tool, params)"
      and e: "execute_prepared ops env spec call (tool, params) ps1 = (out3, ps3)"
      and same: "ps_world ps3 = ps_world ps2" "ps_journal ps3 = ps_journal ps2"
    by metis
  have cl: "cleared spec call ps tool params" and j: "ps_journal ps1 = ps_journal ps"
    using pc(2) res prep by auto
  from execute_prepared_world [OF e] same(1) \<open>ps_world ps2 \<noteq> ps_world ps1\<close>
  obtain in_flight ps4 result where
      jb: "journal_begin ops env spec call tool params ps1 = (Inr in_flight, ps4)"
      and fin: "ps_journal ps3 = journal_finish ops env in_flight result (ps_journal ps4)"
    by auto
  from jb mode(1) obtain k where k: "in_flight = Some k" and
      b: "begin_tool_call ops (pe_now env) turn (tc_id call) (tc_name call) params
            (tl_replay_safe tool) (ps_journal ps1) = (Inr k, ps_journal ps4)"
    by (auto simp: journal_begin_def split: prod.splits sum.splits intent_not_persisted.splits)
  have inv1: "inv (snd (ps_journal ps1))" using inv j by simp
  from begin_tool_call_strict [OF inv1 mode(2) b] obtain n where
      "world_entries ops (ps_journal ps4) = world_entries ops (ps_journal ps1) @
        [new_entry (pe_now env) n (ToolIntent (tj_turn_id turn) (tc_id call) (tc_name call) params
          (tl_replay_safe tool) Intent None)]" by auto
  moreover have "prefix (world_entries ops (ps_journal ps4)) (world_entries ops (ps_journal ps2))"
    using finish_call_inv(2) [OF begin_tool_call_inv(1) [OF inv1 b]] fin k same(2)
    by (simp add: journal_finish_def)
  ultimately have "new_entry (pe_now env) n (ToolIntent (tj_turn_id turn) (tc_id call) (tc_name call) params
       (tl_replay_safe tool) Intent None) \<in> set (world_entries ops (ps_journal ps2))"
    by (auto simp: prefix_def)
  then show thesis using that [OF cl, of n] run by simp
qed

end

text \<open>
  On the store that never fails, an executed call leaves exactly two records: its intent and its
  terminal one, which holds the text the model sees.
\<close>

lemma execute_records:
  assumes "sp_journal spec = Some turn"
    and "execute_prepared memory_ops env spec call (tool, params) ps = (out, ps')"
  shows "\<exists>n m status. is_terminal status \<and>
    world_entries memory_ops (ps_journal ps') = world_entries memory_ops (ps_journal ps) @
      [new_entry (pe_now env) n (ToolIntent (tj_turn_id turn) (tc_id call) (tc_name call) params
         (tl_replay_safe tool) Intent None),
       new_entry (pe_now env) m (ToolIntent (tj_turn_id turn) (tc_id call) (tc_name call) params
         (tl_replay_safe tool) status
         (Some (fst (normalized_text env spec call
            (tr_content (fst (fst (post_call spec call
               (fst (execute_tool env spec call tool params (ps_world ps))) (ps_hook ps)))))
            (ps_result_files ps)))))]"
proof -
  let ?intent = "ToolIntent (tj_turn_id turn) (tc_id call) (tc_name call) params (tl_replay_safe tool) Intent None"
  let ?call = "\<lparr>ic_turn = turn, ic_call_id = tc_id call, ic_tool_name = tc_name call, ic_args = params,
                ic_replay_safe = tl_replay_safe tool, ic_finished = False\<rparr>"
  let ?w = "ps_journal ps" and ?now = "pe_now env"
  obtain n st1 where a: "turn_append memory_ops ?now turn ?intent (\<not> tl_replay_safe tool) ?w = (True, (fst ?w, st1))"
      and e1: "world_entries memory_ops (fst ?w, st1) = world_entries memory_ops ?w @ [new_entry ?now n ?intent]"
    using mem_turn_append by metis
  have jb: "journal_begin memory_ops env spec call tool params ps = (Inr (Some ?call), ps\<lparr>ps_journal := (fst ?w, st1)\<rparr>)"
    using assms(1) a by (simp add: journal_begin_def begin_tool_call_def call_write_def Let_def)
  obtain result w where x: "execute_tool env spec call tool params (ps_world ps) = (result, w)"
    by (cases "execute_tool env spec call tool params (ps_world ps)")
  obtain result2 added h where pc: "post_call spec call result (ps_hook ps) = ((result2, added), h)"
    by (metis prod.exhaust)
  obtain t files where nt: "normalized_text env spec call (tr_content result2) (ps_result_files ps) = (t, files)"
    by (cases "normalized_text env spec call (tr_content result2) (ps_result_files ps)")
  let ?status = "if tr_is_error result2 then CallError else CallDone"
  let ?done = "ToolIntent (tj_turn_id turn) (tc_id call) (tc_name call) params (tl_replay_safe tool) ?status (Some t)"
  obtain m st2 where b: "turn_append memory_ops ?now turn ?done False (fst ?w, st1) = (True, (fst ?w, st2))"
      and e2: "world_entries memory_ops (fst ?w, st2) = world_entries memory_ops (fst ?w, st1) @ [new_entry ?now m ?done]"
    using mem_turn_append [of ?now turn ?done False "(fst ?w, st1)"] by auto
  have "ps_journal ps' = (fst ?w, st2)"
    using assms(2) jb x pc nt b
    by (auto simp: execute_prepared_def journal_finish_def finish_call_once call_write_def)
  then show ?thesis using e1 e2 x pc nt by (intro exI [of _ n] exI [of _ m] exI [of _ ?status]) simp
qed

lemma execute_prepared_memory_world:
  "ps_world (snd (execute_prepared memory_ops env spec call (tool, params) ps)) =
   snd (execute_tool env spec call tool params (ps_world ps))"
proof -
  have "\<exists>in_flight ps1. journal_begin memory_ops env spec call tool params ps = (Inr in_flight, ps1) \<and>
      ps_world ps1 = ps_world ps"
  proof (cases "sp_journal spec")
    case (Some turn)
    then show ?thesis
      using mem_begin_tool_call [of "pe_now env" turn "tc_id call" "tc_name call" params
          "tl_replay_safe tool" "ps_journal ps"]
      by (fastforce simp: journal_begin_def)
  qed (simp add: journal_begin_def)
  then show ?thesis by (auto simp: execute_prepared_def split: prod.splits)
qed

end
