(* ===== verification/Bus_Events.thy ===== *)
theory Bus_Events
  imports Json
begin

text \<open>
  The messages of the bus, \<open>src/bus/events.rs\<close>.  A \<open>DateTime<Utc>\<close> is its number of
  nanoseconds since the epoch.  The typed event of an outbound message is not looked at by the
  modelled code, so it is a type parameter.  The text of a \<open>serde_json\<close> number is the parameter
  \<open>number_text\<close>.
\<close>

record inbound_message =
  im_channel :: string
  im_sender_id :: string
  im_chat_id :: string
  im_content :: string
  im_timestamp :: int
  im_media :: "string list"
  im_metadata :: json_object
  im_session_key_override :: "string option"
  im_request_id :: "string option"

definition namespaced_request_id :: "string \<Rightarrow> string \<Rightarrow> string \<Rightarrow> string" where
  "namespaced_request_id channel chat_id platform_id =
     channel @ '':'' @ chat_id @ '':'' @ platform_id"

definition request_id_from_metadata ::
    "(json_number \<Rightarrow> string) \<Rightarrow> string \<Rightarrow> string \<Rightarrow> json_object \<Rightarrow> string option" where
  "request_id_from_metadata number_text channel chat_id metadata =
     (case map_of metadata ''message_id'' of
        Some (JString i) \<Rightarrow>
          if i \<noteq> [] then Some (namespaced_request_id channel chat_id i) else None
      | Some (JNumber n) \<Rightarrow> Some (namespaced_request_id channel chat_id (number_text n))
      | _ \<Rightarrow> None)"

definition session_key :: "inbound_message \<Rightarrow> string" where
  "session_key msg =
     (case im_session_key_override msg of
        Some k \<Rightarrow> k
      | None \<Rightarrow> im_channel msg @ '':'' @ im_chat_id msg)"

record 'ev outbound_message =
  om_channel :: string
  om_chat_id :: string
  om_content :: string
  om_reply_to :: "string option"
  om_media :: "string list"
  om_metadata :: json_object
  om_event :: "'ev option"

end
