(* ===== verification/Inbox.thy ===== *)
theory Inbox
  imports Recovery Journal_Memory Bus_Events Text_Helpers
begin

text \<open>
  The inbox ledger, \<open>src/session/inbox.rs\<close>: every inbound message with a request id is recorded
  in the session's run journal as queued, processing and done, so that a redelivery is
  recognised and a crash loses no message.  Here: the fold of the ledger records, admission, the
  state records, compaction with its eviction policy, and startup reconciliation.

  Parameters of the model: \<open>to_value\<close> (serde's \<open>to_value\<close> of a message) and \<open>parse_ts\<close>
  (chrono's \<open>parse_from_rfc3339\<close>, in nanoseconds since the epoch).
\<close>

definition MAX_OUTCOME_CHARS :: nat where
  "MAX_OUTCOME_CHARS = 4096"

section \<open>The fold of the ledger\<close>

record inbox_entry =
  ib_request_id :: string
  ib_channel :: string
  ib_chat_id :: string
  ib_session_key :: string
  ib_state :: inbox_state
  ib_outcome :: "string option"
  ib_turn_id :: "string option"
  ib_message :: "json option"
  ib_updated_at :: string

definition inbox_update ::
    "string \<Rightarrow> inbox_state \<Rightarrow> string option \<Rightarrow> string option \<Rightarrow> json option \<Rightarrow> inbox_entry \<Rightarrow> inbox_entry" where
  "inbox_update ts state outcome turn_id message known =
     known\<lparr>ib_state := state,
       ib_updated_at := ts,
       ib_outcome := (if outcome \<noteq> None then outcome else ib_outcome known),
       ib_turn_id := (if turn_id \<noteq> None then turn_id else ib_turn_id known),
       ib_message := (if state = InboxDone then None
                      else if message \<noteq> None then message else ib_message known)\<rparr>"

fun fold_entry :: "inbox_entry list \<Rightarrow> journal_entry \<Rightarrow> inbox_entry list" where
  "fold_entry folded e =
     (case entry_record e of
        Inbox request_id channel chat_id key state outcome turn_id message \<Rightarrow>
          (if \<exists>known \<in> set folded. ib_request_id known = request_id
           then update_first (\<lambda>known. ib_request_id known = request_id)
                  (inbox_update (entry_ts e) state outcome turn_id message) folded
           else folded @
             [\<lparr>ib_request_id = request_id, ib_channel = channel, ib_chat_id = chat_id,
               ib_session_key = key, ib_state = state, ib_outcome = outcome, ib_turn_id = turn_id,
               ib_message = (if state = InboxDone then None else message),
               ib_updated_at = entry_ts e\<rparr>])
      | _ \<Rightarrow> folded)"

definition fold_entries :: "journal_entry list \<Rightarrow> inbox_entry list" where
  "fold_entries entries = foldl fold_entry [] entries"

section \<open>The ledger of one session\<close>

datatype admission = New | Duplicate inbox_state "string option"

text \<open>\<open>InboxLedger\<close> is a journal handle; \<open>for_session\<close> is \<open>rj_new\<close> of the session key.\<close>

definition ledger_entries :: "'st journal_store \<Rightarrow> run_journal \<Rightarrow> 'st \<Rightarrow> inbox_entry list" where
  "ledger_entries ops journal st = fold_entries (scan_entries (rj_scan ops journal st))"

definition ledger_pending :: "'st journal_store \<Rightarrow> run_journal \<Rightarrow> 'st \<Rightarrow> inbox_entry list" where
  "ledger_pending ops journal st =
     filter (\<lambda>entry. ib_state entry \<noteq> InboxDone) (ledger_entries ops journal st)"

text \<open>The private \<open>append\<close>: queued and done records are synced; a failed write is only logged.\<close>

definition ledger_append ::
    "'st journal_store \<Rightarrow> run_journal \<Rightarrow> string \<Rightarrow> inbound_message \<Rightarrow> string \<Rightarrow> inbox_state \<Rightarrow>
     string option \<Rightarrow> string option \<Rightarrow> json option \<Rightarrow> 'st \<Rightarrow> 'st" where
  "ledger_append ops journal now msg request_id state outcome turn_id message st =
     (let sync = (state = InboxDone \<or> state = Queued);
          r = Inbox request_id (im_channel msg) (im_chat_id msg) (session_key msg) state
                outcome turn_id message
      in snd (if sync then rj_append_synced ops journal now r st
              else rj_append ops journal now r st))"

definition admit ::
    "'st journal_store \<Rightarrow> (inbound_message \<Rightarrow> json option) \<Rightarrow> run_journal \<Rightarrow> string \<Rightarrow>
     inbound_message \<Rightarrow> 'st \<Rightarrow> admission \<times> 'st" where
  "admit ops to_value journal now msg st =
     (case im_request_id msg of
        None \<Rightarrow> (New, st)
      | Some request_id \<Rightarrow>
          (case List.find (\<lambda>entry. ib_request_id entry = request_id) (ledger_entries ops journal st) of
             Some known \<Rightarrow> (Duplicate (ib_state known) (ib_outcome known), st)
           | None \<Rightarrow>
               (New, ledger_append ops journal now msg request_id Queued None None (to_value msg) st)))"

definition mark_processing ::
    "'st journal_store \<Rightarrow> run_journal \<Rightarrow> string \<Rightarrow> inbound_message \<Rightarrow> 'st \<Rightarrow> 'st" where
  "mark_processing ops journal now msg st =
     (case im_request_id msg of
        None \<Rightarrow> st
      | Some request_id \<Rightarrow> ledger_append ops journal now msg request_id Processing None None None st)"

definition mark_done ::
    "'st journal_store \<Rightarrow> run_journal \<Rightarrow> string \<Rightarrow> inbound_message \<Rightarrow> string \<Rightarrow> string option \<Rightarrow>
     'st \<Rightarrow> 'st" where
  "mark_done ops journal now msg outcome turn_id st =
     (case im_request_id msg of
        None \<Rightarrow> st
      | Some request_id \<Rightarrow>
          ledger_append ops journal now msg request_id InboxDone
            (Some (truncate_text outcome MAX_OUTCOME_CHARS)) turn_id None st)"

definition mark_entry_done ::
    "'st journal_store \<Rightarrow> run_journal \<Rightarrow> string \<Rightarrow> inbox_entry \<Rightarrow> string option \<Rightarrow> 'st \<Rightarrow> 'st" where
  "mark_entry_done ops journal now entry outcome st =
     snd (rj_append ops journal now
       (Inbox (ib_request_id entry) (ib_channel entry) (ib_chat_id entry) (ib_session_key entry)
          InboxDone (map_option (\<lambda>text. truncate_text text MAX_OUTCOME_CHARS) outcome)
          (ib_turn_id entry) None) st)"

section \<open>Compaction\<close>

text \<open>\<open>now.signed_duration_since(updated).to_std().is_ok_and(|age| age > ttl)\<close> on done entries.\<close>

definition expired :: "(string \<Rightarrow> int option) \<Rightarrow> int \<Rightarrow> nat \<Rightarrow> inbox_entry \<Rightarrow> bool" where
  "expired parse_ts now ttl entry \<longleftrightarrow>
     ib_state entry = InboxDone \<and>
     (case parse_ts (ib_updated_at entry) of
        None \<Rightarrow> False | Some updated \<Rightarrow> 0 \<le> now - updated \<and> int ttl < now - updated)"

text \<open>The \<open>retain\<close> closure with its captured counter of entries still in excess.\<close>

fun drop_excess :: "nat \<Rightarrow> inbox_entry list \<Rightarrow> inbox_entry list" where
  "drop_excess excess [] = []"
| "drop_excess excess (entry # entries) =
     (if excess > 0 \<and> ib_state entry = InboxDone then drop_excess (excess - 1) entries
      else entry # drop_excess excess entries)"

definition retained_entries ::
    "(string \<Rightarrow> int option) \<Rightarrow> inbox_entry list \<Rightarrow> int \<Rightarrow> nat \<Rightarrow> nat \<Rightarrow> inbox_entry list" where
  "retained_entries parse_ts entries now ttl max_entries =
     (let kept = filter (\<lambda>entry. \<not> expired parse_ts now ttl entry) entries
      in drop_excess (length kept - max_entries) kept)"

definition is_inbox :: "journal_entry \<Rightarrow> bool" where
  "is_inbox e = (case entry_record e of Inbox _ _ _ _ _ _ _ _ \<Rightarrow> True | _ \<Rightarrow> False)"

text \<open>The record that stands for a retained entry after compaction.\<close>

definition inbox_record_entry :: "nat \<Rightarrow> inbox_entry \<Rightarrow> journal_entry" where
  "inbox_record_entry seq entry =
     \<lparr>entry_v = JOURNAL_SCHEMA_VERSION, entry_seq = seq, entry_ts = ib_updated_at entry,
      entry_record = Inbox (ib_request_id entry) (ib_channel entry) (ib_chat_id entry)
        (ib_session_key entry) (ib_state entry) (ib_outcome entry) (ib_turn_id entry)
        (ib_message entry)\<rparr>"

fun renumber :: "nat \<Rightarrow> inbox_entry list \<Rightarrow> journal_entry list" where
  "renumber seq [] = []"
| "renumber seq (entry # entries) = inbox_record_entry seq entry # renumber (seq + 1) entries"

text \<open>The closure that \<open>InboxLedger::compact\<close> hands to the journal's rewrite.\<close>

definition compact_entries ::
    "(string \<Rightarrow> int option) \<Rightarrow> int \<Rightarrow> nat \<Rightarrow> nat \<Rightarrow> journal_entry list \<Rightarrow> journal_entry list" where
  "compact_entries parse_ts now ttl max_entries entries =
     (let keep = retained_entries parse_ts (fold_entries entries) now ttl max_entries;
          others = filter (\<lambda>e. \<not> is_inbox e) entries;
          last_seq = fold max (map entry_seq others) 0
      in others @ renumber (last_seq + 1) keep)"

definition ledger_compact ::
    "'st journal_store \<Rightarrow> (string \<Rightarrow> int option) \<Rightarrow> run_journal \<Rightarrow> int \<Rightarrow> nat \<Rightarrow> nat \<Rightarrow> 'st \<Rightarrow>
     (io_error + unit) \<times> 'st" where
  "ledger_compact ops parse_ts journal now ttl max_entries st =
     rj_rewrite ops journal (compact_entries parse_ts now ttl max_entries) st"

section \<open>The guard of the bus\<close>

datatype 'ev inbound_admission = Accept | Drop | Reply "'ev outbound_message"

text \<open>\<open>LedgerGuard::admit\<close>: an answered request gets its stored reply, any other duplicate is dropped.\<close>

definition guard_admit ::
    "'st journal_store \<Rightarrow> (inbound_message \<Rightarrow> json option) \<Rightarrow> string \<Rightarrow> inbound_message \<Rightarrow> 'st \<Rightarrow>
     'ev inbound_admission \<times> 'st" where
  "guard_admit ops to_value now msg st =
     (let ledger = rj_new (session_key msg) in
      case admit ops to_value ledger now msg st of
        (New, st') \<Rightarrow> (Accept, st')
      | (Duplicate state outcome, st') \<Rightarrow>
          (case (state, outcome) of
             (InboxDone, Some content) \<Rightarrow>
               if content \<noteq> []
               then (Reply \<lparr>om_channel = im_channel msg, om_chat_id = im_chat_id msg,
                            om_content = content, om_reply_to = None, om_media = [],
                            om_metadata =
                              obj_insert ''_redelivered'' (JBool True) (im_metadata msg),
                            om_event = None\<rparr>, st')
               else (Drop, st')
           | _ \<Rightarrow> (Drop, st')))"

section \<open>Startup reconciliation\<close>

datatype redrive_action = Redrive inbox_entry | Close inbox_entry | Keep inbox_entry

fun action_entry :: "redrive_action \<Rightarrow> inbox_entry" where
  "action_entry (Redrive entry) = entry"
| "action_entry (Close entry) = entry"
| "action_entry (Keep entry) = entry"

definition turn_of_request :: "string \<Rightarrow> journal_entry \<Rightarrow> string option" where
  "turn_of_request request_id e =
     (case entry_record e of
        TurnStart t key (Some i) msg attempt channel chat \<Rightarrow> if i = request_id then Some t else None
      | _ \<Rightarrow> None)"

definition turns_of :: "journal_entry list \<Rightarrow> string \<Rightarrow> string list" where
  "turns_of entries request_id = List.map_filter (turn_of_request request_id) entries"

definition has_ended :: "journal_entry list \<Rightarrow> string \<Rightarrow> bool" where
  "has_ended entries turn_id \<longleftrightarrow>
     (\<exists>e \<in> set entries.
        case entry_record e of
          TurnEnd t outcome \<Rightarrow> t = turn_id | TurnRestored t \<Rightarrow> t = turn_id | _ \<Rightarrow> False)"

definition redrive_action_for :: "journal_entry list \<Rightarrow> inbox_entry \<Rightarrow> redrive_action" where
  "redrive_action_for entries entry =
     (let turns = turns_of entries (ib_request_id entry) in
      if turns = [] then (if ib_message entry \<noteq> None then Redrive entry else Close entry)
      else if \<forall>turn \<in> set turns. has_ended entries turn then Close entry
      else Keep entry)"

definition plan_redrive :: "journal_entry list \<Rightarrow> redrive_action list" where
  "plan_redrive entries =
     map (redrive_action_for entries)
       (filter (\<lambda>entry. ib_state entry \<noteq> InboxDone) (fold_entries entries))"

definition count_pending :: "'st journal_store \<Rightarrow> 'st \<Rightarrow> nat" where
  "count_pending ops st =
     sum_list (map (\<lambda>scan. length (filter (\<lambda>entry. ib_state entry \<noteq> InboxDone)
                                    (fold_entries (scan_entries scan)))) (js_scan_all ops st))"

section \<open>What the fold keeps\<close>

definition inbox_id :: "journal_entry \<Rightarrow> string option" where
  "inbox_id e = (case entry_record e of Inbox r _ _ _ _ _ _ _ \<Rightarrow> Some r | _ \<Rightarrow> None)"

lemma inbox_id_Inbox: "entry_record e = Inbox r ch c k st out t m \<Longrightarrow> inbox_id e = Some r"
  by (simp add: inbox_id_def)

lemma inbox_id_None: "inbox_id e = None \<longleftrightarrow> \<not> is_inbox e"
  by (auto simp: inbox_id_def is_inbox_def split: journal_record.splits)

lemma fold_entry_other: "\<not> is_inbox e \<Longrightarrow> fold_entry folded e = folded"
  by (auto simp: is_inbox_def split: journal_record.splits)

lemma fold_entry_Inbox:
  "entry_record e = Inbox r ch c k st out t m \<Longrightarrow>
   fold_entry folded e =
     (if \<exists>known \<in> set folded. ib_request_id known = r
      then update_first (\<lambda>known. ib_request_id known = r) (inbox_update (entry_ts e) st out t m) folded
      else folded @
        [\<lparr>ib_request_id = r, ib_channel = ch, ib_chat_id = c, ib_session_key = k, ib_state = st,
          ib_outcome = out, ib_turn_id = t, ib_message = (if st = InboxDone then None else m),
          ib_updated_at = entry_ts e\<rparr>])"
  by simp

declare fold_entry.simps [simp del] fold_entry_other [simp] fold_entry_Inbox [simp]

lemma inbox_update_id [simp]:
  "ib_request_id (inbox_update ts state outcome turn_id message known) = ib_request_id known"
  by (simp add: inbox_update_def)

lemma inbox_update_state [simp]:
  "ib_state (inbox_update ts state outcome turn_id message known) = state"
  by (simp add: inbox_update_def)

lemma fold_entries_Nil [simp]: "fold_entries [] = []"
  by (simp add: fold_entries_def)

lemma fold_entries_snoc [simp]: "fold_entries (es @ [e]) = fold_entry (fold_entries es) e"
  by (simp add: fold_entries_def)

lemma fold_ids: "map ib_request_id (fold_entries es) = firsts (List.map_filter inbox_id es)"
proof (induction es rule: rev_induct)
  case (snoc e es)
  show ?case
  proof (cases "is_inbox e")
    case False
    with snoc show ?thesis by (simp add: map_filter_Cons inbox_id_None [THEN iffD2])
  next
    case True
    then obtain r ch c k st out t m where e: "entry_record e = Inbox r ch c k st out t m"
      by (auto simp: is_inbox_def split: journal_record.splits)
    have known: "(\<exists>known\<in>set (fold_entries es). ib_request_id known = r) \<longleftrightarrow>
        r \<in> set (List.map_filter inbox_id es)"
      using arg_cong [OF snoc, of set] by (simp add: image_iff set_eq_iff) metis
    show ?thesis
      using snoc known inbox_id_Inbox [OF e] by (auto simp: e map_filter_Cons map_update_first)
  qed
qed simp

lemma distinct_fold_ids: "distinct (map ib_request_id (fold_entries es))"
  by (simp add: fold_ids)

text \<open>The request ids a ledger knows.\<close>

abbreviation known_ids :: "journal_entry list \<Rightarrow> string set" where
  "known_ids es \<equiv> set (List.map_filter inbox_id es)"

lemma known_ids_fold: "known_ids es = ib_request_id ` set (fold_entries es)"
  using arg_cong [OF fold_ids [of es], of set] by auto

lemma fold_done_no_message:
  "entry \<in> set (fold_entries es) \<Longrightarrow> ib_state entry = InboxDone \<Longrightarrow> ib_message entry = None"
proof (induction es arbitrary: entry rule: rev_induct)
  case (snoc e es)
  show ?case
  proof (cases "is_inbox e")
    case False
    with snoc show ?thesis by simp
  next
    case True
    then obtain r ch c k st out t m where e: "entry_record e = Inbox r ch c k st out t m"
      by (auto simp: is_inbox_def split: journal_record.splits)
    from snoc.prems have "entry \<in> set (fold_entries es) \<or>
        entry \<in> inbox_update (entry_ts e) st out t m ` set (fold_entries es) \<or>
        (ib_state entry = st \<and> ib_message entry = (if st = InboxDone then None else m))"
      using set_update_first_subset by (fastforce simp: e split: if_splits)
    with snoc show ?thesis by (auto simp: inbox_update_def split: if_splits)
  qed
qed simp

text \<open>One request's entry after one more record of it.\<close>

lemma find_update_first:
  "(\<And>x. p (f x) = p x) \<Longrightarrow>
   List.find p (update_first p f xs) = map_option f (List.find p xs)"
  by (induction xs) auto

lemma find_update_first_other:
  "(\<And>x. q (f x) = q x) \<Longrightarrow> (\<And>x. p x \<Longrightarrow> \<not> q x) \<Longrightarrow>
   List.find q (update_first p f xs) = List.find q xs"
  by (induction xs) auto

abbreviation entry_for :: "string \<Rightarrow> journal_entry list \<Rightarrow> inbox_entry option" where
  "entry_for r es \<equiv> List.find (\<lambda>entry. ib_request_id entry = r) (fold_entries es)"

lemma entry_for_None_iff: "entry_for r es = None \<longleftrightarrow> r \<notin> known_ids es"
  by (auto simp: find_None_iff_all known_ids_fold)

lemma entry_for_snoc_known:
  assumes "entry_record e = Inbox r ch c k st out t m" and "entry_for r es = Some known"
  shows "entry_for r (es @ [e]) = Some (inbox_update (entry_ts e) st out t m known)"
proof -
  have "\<exists>entry \<in> set (fold_entries es). ib_request_id entry = r"
    using find_SomeD [OF assms(2)] by auto
  then show ?thesis using assms by (auto simp: find_update_first)
qed

lemma entry_for_snoc_new:
  assumes "entry_record e = Inbox r ch c k st out t m" and "entry_for r es = None"
  shows "entry_for r (es @ [e]) =
    Some \<lparr>ib_request_id = r, ib_channel = ch, ib_chat_id = c, ib_session_key = k, ib_state = st,
          ib_outcome = out, ib_turn_id = t,
          ib_message = (if st = InboxDone then None else m), ib_updated_at = entry_ts e\<rparr>"
proof -
  have "\<not> (\<exists>entry \<in> set (fold_entries es). ib_request_id entry = r)"
    using assms(2) [unfolded find_None_iff_all] by blast
  then show ?thesis using assms by simp
qed

lemma entry_for_snoc_other:
  assumes "inbox_id e \<noteq> Some r"
  shows "entry_for r (es @ [e]) = entry_for r es"
proof (cases "is_inbox e")
  case True
  then obtain r' ch c k st out t m where e: "entry_record e = Inbox r' ch c k st out t m"
    by (auto simp: is_inbox_def split: journal_record.splits)
  with assms have "r' \<noteq> r" by (simp add: inbox_id_def)
  then show ?thesis
    by (auto simp: e find_update_first_other split: option.splits)
qed simp

end
