(* ===== verification/Inbox_Laws.thy ===== *)
theory Inbox_Laws
  imports Inbox
begin

text \<open>
  What the inbox ledger guarantees: a recorded request stays known through any history of
  ledger operations, so a redelivery is never accepted twice; compaction evicts only done
  entries, keeps the rest of the journal and is exactly the eviction policy on the folded
  ledger; and how startup reconciliation treats each unfinished entry.
\<close>

section \<open>Ledger operations only append records\<close>

text \<open>One ledger operation, with the time it is made at (compaction is treated below).\<close>

datatype ledger_op =
    OpAdmit string inbound_message
  | OpProcessing string inbound_message
  | OpDone string inbound_message string "string option"
  | OpEntryDone string inbox_entry "string option"

fun ledger_op_step ::
    "'st journal_store \<Rightarrow> (inbound_message \<Rightarrow> json option) \<Rightarrow> run_journal \<Rightarrow> ledger_op \<Rightarrow> 'st \<Rightarrow> 'st" where
  "ledger_op_step ops tv rj (OpAdmit now msg) st = snd (admit ops tv rj now msg st)"
| "ledger_op_step ops tv rj (OpProcessing now msg) st = mark_processing ops rj now msg st"
| "ledger_op_step ops tv rj (OpDone now msg out t) st = mark_done ops rj now msg out t st"
| "ledger_op_step ops tv rj (OpEntryDone now entry out) st = mark_entry_done ops rj now entry out st"

abbreviation ledger_run ::
    "'st journal_store \<Rightarrow> (inbound_message \<Rightarrow> json option) \<Rightarrow> run_journal \<Rightarrow> ledger_op list \<Rightarrow> 'st \<Rightarrow> 'st" where
  "ledger_run ops tv rj xs st \<equiv> foldl (\<lambda>st x. ledger_op_step ops tv rj x st) st xs"

lemma known_ids_append_mono: "known_ids es \<subseteq> known_ids (es @ fs)"
  by simp

lemma admit_known:
  "r \<in> known_ids (scan_entries (rj_scan ops rj st)) \<Longrightarrow> im_request_id msg = Some r \<Longrightarrow>
   \<exists>state outcome. admit ops tv rj now msg st = (Duplicate state outcome, st)"
proof -
  assume known: "r \<in> known_ids (scan_entries (rj_scan ops rj st))" and r: "im_request_id msg = Some r"
  then obtain entry where "entry_for r (scan_entries (rj_scan ops rj st)) = Some entry"
    using entry_for_None_iff by (metis option.exhaust)
  with r show ?thesis by (simp add: admit_def ledger_entries_def)
qed

context journal_laws
begin

lemma rj_append_mono:
  assumes "inv st"
  shows "known_ids (scan_entries (rj_scan ops rj st)) \<subseteq>
      known_ids (scan_entries (rj_scan ops rj (snd (rj_append ops rj now r st))))"
    and "known_ids (scan_entries (rj_scan ops rj st)) \<subseteq>
      known_ids (scan_entries (rj_scan ops rj (snd (rj_append_synced ops rj now r st))))"
    and "inv (snd (rj_append ops rj now r st))" and "inv (snd (rj_append_synced ops rj now r st))"
proof -
  have *: "known_ids (entries_of ops st key) \<subseteq> known_ids (entries_of ops (snd (js_append ops st key now r d)) key)
      \<and> inv (snd (js_append ops st key now r d))" for key d
  proof -
    obtain res st' where a: "js_append ops st key now r d = (res, st')"
      by (cases "js_append ops st key now r d")
    with assms have "inv st'" by (rule append_inv)
    moreover from assms a have "known_ids (entries_of ops st key) \<subseteq> known_ids (entries_of ops st' key)"
      by (rule append_entries_cases) (auto simp del: set_simps)
    ultimately show ?thesis by (simp add: a)
  qed
  then show "known_ids (scan_entries (rj_scan ops rj st)) \<subseteq>
      known_ids (scan_entries (rj_scan ops rj (snd (rj_append ops rj now r st))))"
    and "known_ids (scan_entries (rj_scan ops rj st)) \<subseteq>
      known_ids (scan_entries (rj_scan ops rj (snd (rj_append_synced ops rj now r st))))"
    and "inv (snd (rj_append ops rj now r st))" and "inv (snd (rj_append_synced ops rj now r st))"
    unfolding rj_append_def rj_append_synced_def rj_scan_def by blast+
qed

lemma ledger_append_mono:
  assumes "inv st"
  shows "known_ids (scan_entries (rj_scan ops rj st)) \<subseteq>
      known_ids (scan_entries (rj_scan ops rj (ledger_append ops rj now msg i state out t m st)))
    \<and> inv (ledger_append ops rj now msg i state out t m st)"
  using rj_append_mono [OF assms] by (simp add: ledger_append_def Let_def)

lemma ledger_op_mono:
  assumes "inv st"
  shows "known_ids (scan_entries (rj_scan ops rj st)) \<subseteq>
      known_ids (scan_entries (rj_scan ops rj (ledger_op_step ops tv rj x st)))
    \<and> inv (ledger_op_step ops tv rj x st)"
  using ledger_append_mono [OF assms] rj_append_mono [OF assms] assms
  by (cases x) (auto simp: admit_def mark_processing_def mark_done_def mark_entry_done_def
      simp del: set_simps split: option.splits)

lemma ledger_run_mono:
  assumes "inv st"
  shows "known_ids (scan_entries (rj_scan ops rj st)) \<subseteq>
      known_ids (scan_entries (rj_scan ops rj (ledger_run ops tv rj xs st)))
    \<and> inv (ledger_run ops tv rj xs st)"
  using assms
proof (induction xs arbitrary: st)
  case (Cons x xs)
  note step = ledger_op_mono [OF Cons.prems, where x = x and tv = tv and rj = rj]
  note rest = Cons.IH [OF conjunct2 [OF step]]
  from subset_trans [OF conjunct1 [OF step] conjunct1 [OF rest]] conjunct2 [OF rest]
  show ?case unfolding foldl_Cons by (rule conjI)
qed simp

text \<open>Once known, always a duplicate.\<close>

lemma known_never_new:
  assumes "inv st" and "r \<in> known_ids (scan_entries (rj_scan ops rj st))"
    and "im_request_id msg = Some r"
  shows "fst (admit ops tv rj now msg (ledger_run ops tv rj xs st)) \<noteq> New"
proof -
  have "r \<in> known_ids (scan_entries (rj_scan ops rj (ledger_run ops tv rj xs st)))"
    using ledger_run_mono [OF assms(1)] assms(2) by blast
  from admit_known [OF this assms(3), where tv = tv and now = now] show ?thesis by auto
qed

text \<open>An accepted message whose queued record was written is known afterwards.\<close>

lemma admit_new_recorded:
  assumes "inv st" and "im_request_id msg = Some r"
    and "admit ops tv rj now msg st = (New, st')"
    and "scan_entries (rj_scan ops rj st') \<noteq> scan_entries (rj_scan ops rj st)"
  shows "\<exists>n. scan_entries (rj_scan ops rj st') = scan_entries (rj_scan ops rj st) @
    [new_entry now n (Inbox r (im_channel msg) (im_chat_id msg) (session_key msg) Queued None None (tv msg))]"
proof -
  let ?rec = "Inbox r (im_channel msg) (im_chat_id msg) (session_key msg) Queued None None (tv msg)"
  from assms(2,3) have st': "st' = snd (js_append ops st (rj_session_key rj) now ?rec Synced)"
    by (auto simp: admit_def ledger_append_def rj_append_synced_def split: option.splits)
  obtain res s where a: "js_append ops st (rj_session_key rj) now ?rec Synced = (res, s)"
    by (cases "js_append ops st (rj_session_key rj) now ?rec Synced")
  with st' have "s = st'" by simp
  with assms(1) a assms(4) show ?thesis
    unfolding rj_scan_def by (metis append_entries_cases)
qed

lemma admit_inv: "inv st \<Longrightarrow> inv (snd (admit ops tv rj now msg st))"
  using ledger_op_mono [of st rj tv "OpAdmit now msg"] by simp

lemma accepted_once:
  assumes "inv st" and "im_request_id msg = Some r" "im_request_id msg' = Some r"
    and "admit ops tv rj now msg st = (New, st')"
    and "scan_entries (rj_scan ops rj st') \<noteq> scan_entries (rj_scan ops rj st)"
  shows "fst (admit ops tv rj now' msg' (ledger_run ops tv rj xs st')) \<noteq> New"
proof -
  have "inv st'" using admit_inv [OF assms(1), of tv rj now msg] assms(4) by simp
  moreover have "r \<in> known_ids (scan_entries (rj_scan ops rj st'))"
    using admit_new_recorded [OF assms(1,2,4,5)] by (auto simp: map_filter_Cons inbox_id_def)
  ultimately show ?thesis using assms(3) by (rule known_never_new)
qed

end

section \<open>Compaction\<close>

lemma drop_excess_subseq: "set (drop_excess n xs) \<subseteq> set xs"
  by (induction n xs rule: drop_excess.induct) auto

lemma drop_excess_unfinished:
  "filter (\<lambda>entry. ib_state entry \<noteq> InboxDone) (drop_excess n xs) =
   filter (\<lambda>entry. ib_state entry \<noteq> InboxDone) xs"
  by (induction n xs rule: drop_excess.induct) auto

lemma length_drop_excess:
  "length (drop_excess n xs) =
   max (length xs - n) (length (filter (\<lambda>entry. ib_state entry \<noteq> InboxDone) xs))"
proof (induction n xs rule: drop_excess.induct)
  case (2 n e es)
  have "length (filter (\<lambda>entry. ib_state entry \<noteq> InboxDone) es) \<le> length es" by simp
  with 2 show ?case by (cases n) (auto simp: max_def simp del: length_filter_le)
qed simp

lemma drop_excess_distinct:
  "distinct (map ib_request_id xs) \<Longrightarrow> distinct (map ib_request_id (drop_excess n xs))"
proof (induction n xs rule: drop_excess.induct)
  case (2 n e es)
  then show ?case using drop_excess_subseq by (auto simp: image_iff)
qed simp

lemma unexpired_unfinished:
  "filter (\<lambda>entry. ib_state entry \<noteq> InboxDone) (filter (\<lambda>entry. \<not> expired parse_ts now ttl entry) es) =
   filter (\<lambda>entry. ib_state entry \<noteq> InboxDone) es"
  by (induction es) (auto simp: expired_def)

lemma retained_unfinished:
  "filter (\<lambda>entry. ib_state entry \<noteq> InboxDone) (retained_entries parse_ts es now ttl m) =
   filter (\<lambda>entry. ib_state entry \<noteq> InboxDone) es"
  unfolding retained_entries_def Let_def drop_excess_unfinished by (rule unexpired_unfinished)

lemma retained_bound:
  "length (retained_entries parse_ts es now ttl m) \<le>
   max m (length (filter (\<lambda>entry. ib_state entry \<noteq> InboxDone) es))"
  unfolding retained_entries_def Let_def length_drop_excess unexpired_unfinished by simp

lemma retained_subset: "set (retained_entries parse_ts es now ttl m) \<subseteq> set es"
  using drop_excess_subseq by (fastforce simp: retained_entries_def Let_def)

lemma retained_distinct:
  "distinct (map ib_request_id es) \<Longrightarrow>
   distinct (map ib_request_id (retained_entries parse_ts es now ttl m))"
  by (auto simp: retained_entries_def Let_def distinct_map_filter intro!: drop_excess_distinct)

lemma fold_others: "fold_entries (filter (\<lambda>e. \<not> is_inbox e) es) = []"
proof -
  have "foldl fold_entry acc (filter (\<lambda>e. \<not> is_inbox e) es) = acc" for acc
    by (induction es) auto
  then show ?thesis by (simp add: fold_entries_def)
qed

lemma inbox_record_entry_simps [simp]:
  "entry_record (inbox_record_entry n entry) = Inbox (ib_request_id entry) (ib_channel entry)
     (ib_chat_id entry) (ib_session_key entry) (ib_state entry) (ib_outcome entry)
     (ib_turn_id entry) (ib_message entry)"
  "entry_ts (inbox_record_entry n entry) = ib_updated_at entry"
  "entry_seq (inbox_record_entry n entry) = n"
  "entry_v (inbox_record_entry n entry) = JOURNAL_SCHEMA_VERSION"
  by (simp_all add: inbox_record_entry_def)

lemma fold_renumber:
  assumes "distinct (map ib_request_id (acc @ keep))"
    and "\<forall>entry\<in>set keep. ib_state entry = InboxDone \<longrightarrow> ib_message entry = None"
  shows "foldl fold_entry acc (renumber n keep) = acc @ keep"
  using assms
proof (induction keep arbitrary: acc n)
  case (Cons entry keep)
  have new: "\<not> (\<exists>known \<in> set acc. ib_request_id known = ib_request_id entry)"
    using Cons.prems(1) by (auto simp: image_iff)
  have "fold_entry acc (inbox_record_entry n entry) = acc @ [entry]"
    using new Cons.prems(2) by (cases entry) auto
  with Cons.IH [of "acc @ [entry]" "n + 1"] Cons.prems show ?case by auto
qed simp

text \<open>Compaction is the eviction policy on the ledger and leaves the other records alone.\<close>

lemma fold_compact:
  "fold_entries (compact_entries parse_ts now ttl m es) =
   retained_entries parse_ts (fold_entries es) now ttl m"
proof -
  let ?keep = "retained_entries parse_ts (fold_entries es) now ttl m"
  let ?others = "filter (\<lambda>e. \<not> is_inbox e) es"
  have "\<forall>entry\<in>set ?keep. ib_state entry = InboxDone \<longrightarrow> ib_message entry = None"
    using retained_subset fold_done_no_message by blast
  moreover have "distinct (map ib_request_id ?keep)"
    using retained_distinct distinct_fold_ids by blast
  ultimately have "foldl fold_entry [] (renumber n ?keep) = ?keep" for n
    using fold_renumber [of "[]" ?keep n] by simp
  then show ?thesis
    using fold_others [of es] unfolding fold_entries_def compact_entries_def Let_def by simp
qed

lemma renumber_inbox: "\<forall>e\<in>set (renumber n keep). is_inbox e"
  by (induction keep arbitrary: n) (auto simp: is_inbox_def)

lemma compact_others:
  "filter (\<lambda>e. \<not> is_inbox e) (compact_entries parse_ts now ttl m es) = filter (\<lambda>e. \<not> is_inbox e) es"
  using renumber_inbox by (auto simp: compact_entries_def Let_def filter_empty_conv)

lemma readable_renumber [simp]: "readable (renumber n keep)"
  by (induction keep arbitrary: n) auto

lemma readable_compact: "readable es \<Longrightarrow> readable (compact_entries parse_ts now ttl m es)"
  by (simp add: compact_entries_def Let_def)

end
