(* ===== verification/Crash_Safety.thy ===== *)
theory Crash_Safety
  imports Tool_Pipeline
begin

text \<open>
  The life of tool calls across process crashes, as a step relation over the journal and the
  number of times each call was really executed.  In strict mode a call is begun
  (\<open>begin_tool_call\<close>), run and finished by the pipeline, or begun again by
  \<open>AgentLoop::replay_interrupted_calls\<close> of \<open>src/agent/agent_loop.rs\<close> when recovery decides to
  replay it; a crash may come between any two steps, loses everything but the store, and the
  store may fail any write.

  Call identities are fresh when a call is first begun (turn ids are random UUIDs).  \<open>safe_of\<close> is
  the replay safety the tools declare.  The result: however often the process crashes and
  recovers, a call is executed at most once, or twice when its tool is replay safe.
\<close>

declare split_paired_All [simp del]

section \<open>Counting intents\<close>

fun intent_rec :: "call_key \<Rightarrow> journal_record \<Rightarrow> bool" where
  "intent_rec k (ToolIntent t c name args safe status result) \<longleftrightarrow> (t, c) = k \<and> status = Intent"
| "intent_rec k _ \<longleftrightarrow> False"

fun rec_key :: "journal_record \<Rightarrow> call_key option" where
  "rec_key (ToolIntent t c name args safe status result) = Some (t, c)"
| "rec_key _ = None"

fun rec_safe :: "journal_record \<Rightarrow> bool" where
  "rec_safe (ToolIntent t c name args safe status result) = safe"
| "rec_safe _ = False"

definition key_intents :: "call_key \<Rightarrow> journal_entry list \<Rightarrow> nat" where
  "key_intents k es = length (filter (intent_rec k) (map entry_record es))"

abbreviation keys_of :: "journal_entry list \<Rightarrow> call_key set" where
  "keys_of es \<equiv> set (List.map_filter call_key_of es)"

lemma call_key_of_rec: "call_key_of e = rec_key (entry_record e)"
  by (cases "entry_record e") (auto simp: call_key_of_def)

lemma key_intents_append [simp]: "key_intents k (es @ fs) = key_intents k es + key_intents k fs"
  by (simp add: key_intents_def)

lemma key_intents_records: "key_intents k es = intents (call_records k es)"
proof (induction es)
  case (Cons e es)
  show ?case
    using Cons by (cases "entry_record e")
      (auto simp: key_intents_def intents_def call_records_def map_filter_Cons call_record_of_def)
qed (simp add: key_intents_def intents_def call_records_def)

lemma subseq_intents:
  assumes "subseq xs rs"
  shows "length (filter (intent_rec k) xs) \<le> length (filter (intent_rec k) rs)"
proof -
  from assms have "subseq (filter (intent_rec k) xs) (filter (intent_rec k) rs)"
    by (rule subseq_filter)
  then show ?thesis by (rule list_emb_length)
qed

section \<open>The step relation\<close>

datatype call_phase = Waiting | Begun in_flight_call | Ran in_flight_call

type_synonym exec_count = "call_key \<Rightarrow> nat"

abbreviation ic_key :: "in_flight_call \<Rightarrow> call_key" where
  "ic_key call \<equiv> (tj_turn_id (ic_turn call), ic_call_id call)"

inductive crash_step ::
    "'st journal_store \<Rightarrow> (call_key \<Rightarrow> bool) \<Rightarrow>
     call_phase \<times> 'st journal_world \<times> exec_count \<Rightarrow> call_phase \<times> 'st journal_world \<times> exec_count \<Rightarrow> bool"
  for ops :: "'st journal_store" and safe_of :: "call_key \<Rightarrow> bool" where
  begin_live: "\<lbrakk>tj_mode turn = Strict; (tj_turn_id turn, c) \<notin> keys_of (world_entries ops w);
      x (tj_turn_id turn, c) = 0; safe = safe_of (tj_turn_id turn, c);
      begin_tool_call ops now turn c name args safe w = (Inr call, w')\<rbrakk>
    \<Longrightarrow> crash_step ops safe_of (Waiting, w, x) (Begun call, w', x)"
| refuse_live: "\<lbrakk>tj_mode turn = Strict; (tj_turn_id turn, c) \<notin> keys_of (world_entries ops w);
      x (tj_turn_id turn, c) = 0; safe = safe_of (tj_turn_id turn, c);
      begin_tool_call ops now turn c name args safe w = (Inl refusal, w')\<rbrakk>
    \<Longrightarrow> crash_step ops safe_of (Waiting, w, x) (Waiting, w', x)"
| begin_replay: "\<lbrakk>tj_mode turn = Strict; s \<in> set (tool_call_states (world_entries ops w));
      tcs_turn_id s = tj_turn_id turn;
      decide_tool_recovery s (was_replayed s) = Replay args;
      begin_tool_call ops now turn (tcs_call_id s) (tcs_tool_name s) args True w = (Inr call, w')\<rbrakk>
    \<Longrightarrow> crash_step ops safe_of (Waiting, w, x) (Begun call, w', x)"
| refuse_replay: "\<lbrakk>tj_mode turn = Strict; s \<in> set (tool_call_states (world_entries ops w));
      tcs_turn_id s = tj_turn_id turn;
      decide_tool_recovery s (was_replayed s) = Replay args;
      begin_tool_call ops now turn (tcs_call_id s) (tcs_tool_name s) args True w = (Inl refusal, w')\<rbrakk>
    \<Longrightarrow> crash_step ops safe_of (Waiting, w, x) (Waiting, w', x)"
| run: "crash_step ops safe_of (Begun call, w, x) (Ran call, w, x(ic_key call := x (ic_key call) + 1))"
| finish: "status \<noteq> Intent \<Longrightarrow>
    crash_step ops safe_of (Ran call, w, x) (Waiting, finish_call ops now call status result w, x)"
| cancel_begun: "crash_step ops safe_of (Begun call, w, x) (Waiting, drop_call ops now panicking call w, x)"
| cancel_ran: "crash_step ops safe_of (Ran call, w, x) (Waiting, drop_call ops now panicking call w, x)"
| blocked: "\<lbrakk>(tj_turn_id turn, c) \<notin> keys_of (world_entries ops w); x (tj_turn_id turn, c) = 0\<rbrakk>
    \<Longrightarrow> crash_step ops safe_of (Waiting, w, x)
          (Waiting, record_blocked_call ops now turn c name args reason w, x)"
| other: "\<lbrakk>rec_key r = None; turn_append ops now turn r sync w = (ok, w')\<rbrakk>
    \<Longrightarrow> crash_step ops safe_of (phase, w, x) (phase, w', x)"
| prune: "prune_journal ops (fst w) (snd w) = (res, st')
    \<Longrightarrow> crash_step ops safe_of (Waiting, w, x) (Waiting, (fst w, st'), x)"
| crash: "crash_step ops safe_of (phase, w, x) (Waiting, (rj_new (rj_session_key (fst w)), snd w), x)"

inductive_cases crash_stepE: "crash_step ops safe_of s s'"

section \<open>The invariant\<close>

definition call_bound :: "(call_key \<Rightarrow> bool) \<Rightarrow> call_key \<Rightarrow> nat" where
  "call_bound safe_of k = (if safe_of k then 2 else 1)"

text \<open>Of the journal's entries and the counts.\<close>

definition counts_ok :: "(call_key \<Rightarrow> bool) \<Rightarrow> journal_entry list \<Rightarrow> exec_count \<Rightarrow> bool" where
  "counts_ok safe_of es x \<longleftrightarrow>
     (\<forall>e \<in> set es. \<forall>k. rec_key (entry_record e) = Some k \<longrightarrow> rec_safe (entry_record e) \<longrightarrow> safe_of k) \<and>
     (\<forall>k. key_intents k es \<le> call_bound safe_of k) \<and>
     (\<forall>k \<in> keys_of es. x k \<le> key_intents k es) \<and>
     (\<forall>k. x k \<le> call_bound safe_of k)"

fun phase_ok :: "(call_key \<Rightarrow> bool) \<Rightarrow> call_phase \<Rightarrow> journal_entry list \<Rightarrow> exec_count \<Rightarrow> bool" where
  "phase_ok safe_of Waiting es x \<longleftrightarrow> True"
| "phase_ok safe_of (Begun call) es x \<longleftrightarrow>
     ic_key call \<in> keys_of es \<and> x (ic_key call) < key_intents (ic_key call) es \<and>
     (ic_replay_safe call \<longrightarrow> safe_of (ic_key call))"
| "phase_ok safe_of (Ran call) es x \<longleftrightarrow>
     ic_key call \<in> keys_of es \<and> (ic_replay_safe call \<longrightarrow> safe_of (ic_key call))"

text \<open>Records of one call may be added while its intents stay within the bound.\<close>

lemma counts_ok_grow:
  assumes ok: "counts_ok safe_of es x" and grow: "grows_by es es' rs"
    and keys: "\<forall>r \<in> set rs. rec_key r = None \<or> rec_key r = Some k \<and> (rec_safe r \<longrightarrow> safe_of k)"
    and room: "key_intents k es + length (filter (intent_rec k) rs) \<le> call_bound safe_of k"
    and known: "(\<exists>r \<in> set rs. rec_key r \<noteq> None) \<longrightarrow> k \<in> keys_of es \<or> x k = 0"
  shows "counts_ok safe_of es' x"
proof -
  from grow obtain new where es': "es' = es @ new" and sub: "subseq (map entry_record new) rs"
    by (auto simp: grows_by_def)
  have mem: "entry_record e \<in> set rs" if "e \<in> set new" for e
    using that list_emb_set [OF sub, of "entry_record e"] by auto
  have other: "intent_rec k' r = False" if "k' \<noteq> k" "r \<in> set rs" for k' r
    using keys that by (cases r) auto
  have new_k: "key_intents k new \<le> length (filter (intent_rec k) rs)"
    unfolding key_intents_def by (rule subseq_intents [OF sub])
  have new_other: "key_intents k' new = 0" if "k' \<noteq> k" for k'
    using other [OF that] mem by (auto simp: key_intents_def filter_empty_conv)
  have new_keys: "keys_of new \<subseteq> {k}"
    using keys mem by (fastforce simp: set_map_filter call_key_of_rec)
  have flags: "safe_of k'" if "e \<in> set new" "rec_key (entry_record e) = Some k'" "rec_safe (entry_record e)" for e k'
    using keys mem [OF that(1)] that by fastforce
  show ?thesis unfolding counts_ok_def
  proof (intro conjI)
    show "\<forall>e \<in> set es'. \<forall>k. rec_key (entry_record e) = Some k \<longrightarrow> rec_safe (entry_record e) \<longrightarrow> safe_of k"
      using ok flags by (auto simp: es' counts_ok_def)
    show "\<forall>k'. key_intents k' es' \<le> call_bound safe_of k'"
    proof
      fix k'
      show "key_intents k' es' \<le> call_bound safe_of k'"
      proof (cases "k' = k")
        case True
        with new_k room show ?thesis by (simp add: es')
      next
        case False
        with ok new_other show ?thesis by (simp add: es' counts_ok_def)
      qed
    qed
    show "\<forall>k' \<in> keys_of es'. x k' \<le> key_intents k' es'"
    proof
      fix k' assume "k' \<in> keys_of es'"
      then consider "k' \<in> keys_of es" | e where "e \<in> set new" "call_key_of e = Some k'" "k' = k"
        using new_keys by (auto simp: es' set_map_filter)
      then have "k' \<in> keys_of es \<or> k' = k \<and> x k = 0"
      proof cases
        case 2
        then have "\<exists>r \<in> set rs. rec_key r \<noteq> None"
          using mem [of e] by (intro bexI [of _ "entry_record e"]) (auto simp: call_key_of_rec)
        with known 2 show ?thesis by auto
      qed simp
      then show "x k' \<le> key_intents k' es'"
        using ok by (auto simp: es' counts_ok_def intro: trans_le_add1)
    qed
    show "\<forall>k. x k \<le> call_bound safe_of k" using ok by (simp add: counts_ok_def)
  qed
qed

lemma keys_of_grow: "grows_by es es' rs \<Longrightarrow> keys_of es \<subseteq> keys_of es'"
  by (auto simp: grows_by_def)

lemma key_intents_grow: "grows_by es es' rs \<Longrightarrow> key_intents k es \<le> key_intents k es'"
  by (auto simp: grows_by_def)

text \<open>What recovery needs to replay a call: one record, a safe intent.\<close>

lemma replay_room:
  assumes "counts_ok safe_of es x" "s \<in> set (tool_call_states es)"
    and "decide_tool_recovery s (was_replayed s) = Replay args"
  shows "safe_of (key_of_state s)" "key_intents (key_of_state s) es = 1"
    and "key_of_state s \<in> keys_of es"
proof -
  let ?k = "key_of_state s"
  from replay_iff_single_safe_intent [OF assms(2)] assms(3) obtain name result where
    recs: "call_records ?k es = [(name, args, True, Intent, result)]" by blast
  then show "key_intents ?k es = 1" by (simp add: key_intents_records intents_def)
  show "?k \<in> keys_of es" using recs call_records_Nil_iff [of ?k es] by auto
  have "(name, args, True, Intent, result) \<in> set (List.map_filter (call_record_of ?k) es)"
    using recs by (simp add: call_records_def)
  then obtain e where e: "e \<in> set es" "call_record_of ?k e = Some (name, args, True, Intent, result)"
    by (auto simp: set_map_filter)
  then have "rec_key (entry_record e) = Some ?k" "rec_safe (entry_record e)"
    by (cases "entry_record e"; auto simp: call_record_of_def split: if_splits)+
  with e(1) assms(1) show "safe_of ?k" by (auto simp: counts_ok_def)
qed

lemma key_intents_keep:
  "k \<in> keys_of (keep_turns K es) \<Longrightarrow> key_intents k (keep_turns K es) = key_intents k es"
proof -
  assume "k \<in> keys_of (keep_turns K es)"
  then obtain e where "e \<in> set (keep_turns K es)" and e: "call_key_of e = Some k"
    by (auto simp: set_map_filter)
  then have "fst k \<in> K" using kept_iff(4) [OF e, of K] by simp
  then have "call_records k (keep_turns K es) = filter (\<lambda>_. True) (call_records k es)"
    unfolding call_records_def by (intro map_filter_filter) (use kept_iff(5) in blast)
  then show ?thesis by (simp add: key_intents_records)
qed

lemma key_intents_filter_le: "key_intents k (filter p es) \<le> key_intents k es"
  by (induction es) (auto simp: key_intents_def)

lemma keys_of_filter: "keys_of (filter p es) \<subseteq> keys_of es"
  by (auto simp: set_map_filter)

lemma counts_ok_keep:
  assumes "counts_ok safe_of es x"
  shows "counts_ok safe_of (keep_turns K es) x"
proof -
  have "key_intents k (keep_turns K es) \<le> call_bound safe_of k" for k
    using assms key_intents_filter_le by (meson counts_ok_def le_trans)
  moreover have "x k \<le> key_intents k (keep_turns K es)" if "k \<in> keys_of (keep_turns K es)" for k
    using assms key_intents_keep [OF that] keys_of_filter that unfolding counts_ok_def by fastforce
  ultimately show ?thesis using assms by (auto simp: counts_ok_def)
qed

section \<open>Every step keeps the invariant\<close>

definition crash_ok ::
    "'st journal_store \<Rightarrow> ('st \<Rightarrow> bool) \<Rightarrow> (call_key \<Rightarrow> bool) \<Rightarrow>
     call_phase \<times> 'st journal_world \<times> exec_count \<Rightarrow> bool" where
  "crash_ok ops good safe_of s \<longleftrightarrow>
     (case s of (p, w, x) \<Rightarrow>
        good (snd w) \<and> counts_ok safe_of (world_entries ops w) x \<and>
        phase_ok safe_of p (world_entries ops w) x)"

context journal_laws
begin

lemma begin_ok:
  assumes inv: "inv (snd w)" and ok: "counts_ok safe_of (world_entries ops w) x"
    and mode: "tj_mode turn = Strict"
    and room: "key_intents (tj_turn_id turn, c) (world_entries ops w) < call_bound safe_of (tj_turn_id turn, c)"
    and known: "(tj_turn_id turn, c) \<in> keys_of (world_entries ops w) \<or> x (tj_turn_id turn, c) = 0"
    and safe: "safe \<longrightarrow> safe_of (tj_turn_id turn, c)"
    and run: "begin_tool_call ops now turn c name args safe w = (res, w')"
  shows "inv (snd w')" "counts_ok safe_of (world_entries ops w') x"
    and "res = Inr call \<Longrightarrow> phase_ok safe_of (Begun call) (world_entries ops w') x"
proof -
  let ?k = "(tj_turn_id turn, c)"
  show "inv (snd w')" using begin_tool_call_inv(1) [OF inv run] .
  obtain a b where g: "grows_by (world_entries ops w) (world_entries ops w')
    [ToolIntent (tj_turn_id turn) c name args safe Intent None, Degraded (Some (tj_turn_id turn)) a,
     ToolIntent (tj_turn_id turn) c name args safe CallBlocked (Some STRICT_REFUSAL),
     Degraded (Some (tj_turn_id turn)) b]"
    using begin_tool_call_grows [OF inv run] by blast
  show "counts_ok safe_of (world_entries ops w') x"
    by (rule counts_ok_grow [OF ok g, of ?k]) (use room known safe in auto)
  assume res: "res = Inr call"
  from begin_tool_call_strict [OF inv mode run [unfolded res]] obtain n where
    es': "world_entries ops w' = world_entries ops w @
      [new_entry now n (ToolIntent (tj_turn_id turn) c name args safe Intent None)]" by blast
  from run res have call: "ic_key call = ?k" "ic_replay_safe call = safe"
    by (auto simp: begin_tool_call_def Let_def split: prod.splits if_splits)
  have "x ?k \<le> key_intents ?k (world_entries ops w)"
    using ok known by (auto simp: counts_ok_def)
  moreover have "key_intents ?k (world_entries ops w') = key_intents ?k (world_entries ops w) + 1"
    unfolding es' by (simp add: key_intents_def)
  moreover have "?k \<in> keys_of (world_entries ops w')"
    unfolding es' by (simp add: map_filter_Cons call_key_of_rec)
  ultimately show "phase_ok safe_of (Begun call) (world_entries ops w') x"
    using call safe by simp
qed

lemma append_ok_other:
  assumes inv: "inv (snd w)" and ok: "counts_ok safe_of (world_entries ops w) x"
    and run: "turn_append ops now turn r sync w = (res, w')"
    and r: "\<And>k'. intent_rec k' r = False"
    and key: "rec_key r = None \<or> rec_key r = Some k \<and> (rec_safe r \<longrightarrow> safe_of k) \<and>
      (k \<in> keys_of (world_entries ops w) \<or> x k = 0)"
  shows "inv (snd w')" "counts_ok safe_of (world_entries ops w') x"
    and "phase_ok safe_of p (world_entries ops w) x \<Longrightarrow> phase_ok safe_of p (world_entries ops w') x"
proof -
  show "inv (snd w')" using turn_append_grows(1) [OF inv run] .
  obtain why where g: "grows_by (world_entries ops w) (world_entries ops w')
      [r, Degraded (Some (tj_turn_id turn)) why]"
    using turn_append_grows(4) [OF inv run] by blast
  show "counts_ok safe_of (world_entries ops w') x"
    by (rule counts_ok_grow [OF ok g, of k]) (use key r ok in \<open>auto simp: counts_ok_def\<close>)
  show "phase_ok safe_of p (world_entries ops w') x" if "phase_ok safe_of p (world_entries ops w) x"
    using that keys_of_grow [OF g] key_intents_grow [OF g]
    by (cases p) (auto intro: less_le_trans)
qed

lemma finish_ok:
  assumes inv: "inv (snd w)" and ok: "counts_ok safe_of (world_entries ops w) x"
    and key: "ic_key call \<in> keys_of (world_entries ops w)"
    and safe: "ic_replay_safe call \<longrightarrow> safe_of (ic_key call)" and status: "status \<noteq> Intent"
  shows "crash_ok ops inv safe_of (Waiting, snd (call_write ops now call status result sync w), x)"
proof -
  let ?r = "ToolIntent (tj_turn_id (ic_turn call)) (ic_call_id call) (ic_tool_name call)
     (ic_args call) (ic_replay_safe call) status result"
  obtain res w' where run: "turn_append ops now (ic_turn call) ?r sync w = (res, w')"
    by (cases "turn_append ops now (ic_turn call) ?r sync w")
  from append_ok_other [OF inv ok run, of "ic_key call"] key safe status run show ?thesis
    by (simp add: crash_ok_def call_write_def)
qed

theorem crash_step_ok:
  assumes "crash_step ops safe_of s s'" "crash_ok ops inv safe_of s"
  shows "crash_ok ops inv safe_of s'"
  using assms
proof (induction rule: crash_step.induct)
  case (begin_live turn c w x safe now name args call w')
  then have "inv (snd w)" "counts_ok safe_of (world_entries ops w) x" by (simp_all add: crash_ok_def)
  moreover have "key_intents (tj_turn_id turn, c) (world_entries ops w) = 0"
    using begin_live(2) by (simp add: key_intents_records call_records_Nil_iff [symmetric] intents_def)
  ultimately show ?case
    using begin_ok [OF _ _ begin_live(1) _ _ _ begin_live(5), of safe_of x] begin_live(3,4)
    by (simp add: crash_ok_def call_bound_def)
next
  case (refuse_live turn c w x safe now name args refusal w')
  then have "inv (snd w)" "counts_ok safe_of (world_entries ops w) x" by (simp_all add: crash_ok_def)
  moreover have "key_intents (tj_turn_id turn, c) (world_entries ops w) = 0"
    using refuse_live(2) by (simp add: key_intents_records call_records_Nil_iff [symmetric] intents_def)
  ultimately show ?case
    using begin_ok [OF _ _ refuse_live(1) _ _ _ refuse_live(5), of safe_of x] refuse_live(3,4)
    by (simp add: crash_ok_def call_bound_def)
next
  case (begin_replay turn s w args now call w' x)
  then have ok: "inv (snd w)" "counts_ok safe_of (world_entries ops w) x" by (simp_all add: crash_ok_def)
  note room = replay_room [OF ok(2) begin_replay(2,4)]
  show ?case
    using begin_ok [OF ok begin_replay(1) _ _ _ begin_replay(5)] room begin_replay(3)
    by (simp add: crash_ok_def call_bound_def)
next
  case (refuse_replay turn s w args now refusal w' x)
  then have ok: "inv (snd w)" "counts_ok safe_of (world_entries ops w) x" by (simp_all add: crash_ok_def)
  note room = replay_room [OF ok(2) refuse_replay(2,4)]
  show ?case
    using begin_ok [OF ok refuse_replay(1) _ _ _ refuse_replay(5)] room refuse_replay(3)
    by (simp add: crash_ok_def call_bound_def)
next
  case (run call w x)
  then have ok: "counts_ok safe_of (world_entries ops w) x"
    and less: "x (ic_key call) < key_intents (ic_key call) (world_entries ops w)"
    by (simp_all add: crash_ok_def)
  moreover have "key_intents (ic_key call) (world_entries ops w) \<le> call_bound safe_of (ic_key call)"
    using ok by (simp add: counts_ok_def)
  ultimately have "x (ic_key call) + 1 \<le> call_bound safe_of (ic_key call)" by linarith
  with run ok less show ?case by (auto simp: crash_ok_def counts_ok_def)
next
  case (finish status call w x now result)
  then show ?case
    using finish_ok [of w safe_of x "call\<lparr>ic_finished := True\<rparr>" status now "Some result" False]
    by (simp add: crash_ok_def finish_call_once)
next
  case (cancel_begun call w x now panicking)
  then show ?case
    using finish_ok [of w safe_of x call CallCancelled now None False]
    by (auto simp: crash_ok_def drop_call_def)
next
  case (cancel_ran call w x now panicking)
  then show ?case
    using finish_ok [of w safe_of x call CallCancelled now None False]
    by (auto simp: crash_ok_def drop_call_def)
next
  case (blocked turn c w x now name args reason)
  let ?r = "ToolIntent (tj_turn_id turn) c name args False CallBlocked (Some reason)"
  obtain res w' where run: "turn_append ops now turn ?r False w = (res, w')"
    by (cases "turn_append ops now turn ?r False w")
  from append_ok_other [OF _ _ run, of safe_of x "(tj_turn_id turn, c)"] blocked run show ?case
    by (simp add: crash_ok_def record_blocked_once)
next
  case (other r now turn sync w ok w' phase x)
  have "\<And>k'. intent_rec k' r = False" using other(1) by (cases r) auto
  with append_ok_other [OF _ _ other(2), of safe_of x] other(1,3) show ?case
    by (simp add: crash_ok_def)
next
  case (prune w res st' x)
  then have ok: "inv (snd w)" "counts_ok safe_of (world_entries ops w) x" by (simp_all add: crash_ok_def)
  have inv': "inv st'" using rj_compact_inv [OF ok(1)] prune(1) by (simp add: prune_journal_def Let_def)
  have "\<exists>K. world_entries ops (fst w, st') = keep_turns K (world_entries ops w)
      \<or> world_entries ops (fst w, st') = world_entries ops w"
    using prune_journal_entries [OF ok(1)] rj_compact_err [OF ok(1)] prune(1)
    by (cases res) (auto simp: prune_journal_def Let_def)
  with counts_ok_keep [OF ok(2)] ok inv' show ?case by (auto simp: crash_ok_def)
next
  case (crash phase w x)
  then show ?case by (simp add: crash_ok_def rj_new_def rj_scan_def)
qed

lemma crash_steps_ok:
  assumes "(crash_step ops safe_of)\<^sup>*\<^sup>* s s'" "crash_ok ops inv safe_of s"
  shows "crash_ok ops inv safe_of s'"
  using assms by (induction rule: rtranclp_induct) (auto intro: crash_step_ok)

text \<open>From an empty journal, however many crashes: at most once, or twice for a safe tool.\<close>

lemma executions_bounded:
  assumes inv: "inv st" and empty: "scan_entries (rj_scan ops rj st) = []"
    and steps: "(crash_step ops safe_of)\<^sup>*\<^sup>* (Waiting, (rj, st), \<lambda>_. 0) (p, w, x)"
  shows "x k \<le> (if safe_of k then 2 else 1)"
proof -
  have "crash_ok ops inv safe_of (Waiting, (rj, st), \<lambda>_. 0)"
    using inv empty by (simp add: crash_ok_def counts_ok_def key_intents_def)
  from crash_steps_ok [OF steps this] show ?thesis
    by (simp add: crash_ok_def counts_ok_def call_bound_def)
qed

end

end
