(* ===== verification/Resume.thy ===== *)
theory Resume
  imports Recovery Journal_Memory
begin

text \<open>
  Startup planning, \<open>src/agent/resume.rs\<close>: which unfinished turns are resumed, abandoned or left
  as stale.  Times are nanoseconds since the epoch; \<open>parse_ts\<close> stands for
  \<open>DateTime::parse_from_rfc3339\<close>.
\<close>

section \<open>The plan\<close>

text \<open>The fields of \<open>DurabilityConfig\<close> the planner reads.\<close>

record durability_config =
  dc_auto_resume :: bool
  dc_resume_max_age_secs :: nat
  dc_max_resume_attempts :: u32

record resume_policy =
  rp_auto_resume :: bool
  rp_max_age :: nat
  rp_max_attempts :: u32

definition policy_from_config :: "durability_config \<Rightarrow> resume_policy" where
  "policy_from_config config =
     \<lparr>rp_auto_resume = dc_auto_resume config,
      rp_max_age = 1000000000 * dc_resume_max_age_secs config,
      rp_max_attempts = dc_max_resume_attempts config\<rparr>"

datatype resume_action =
    ResumeTurn unfinished_turn u32
  | AbandonTurn unfinished_turn
  | StaleTurn unfinished_turn

fun action_turn :: "resume_action \<Rightarrow> unfinished_turn" where
  "action_turn (ResumeTurn t a) = t"
| "action_turn (AbandonTurn t) = t"
| "action_turn (StaleTurn t) = t"

definition is_stale :: "(string \<Rightarrow> int option) \<Rightarrow> unfinished_turn \<Rightarrow> int \<Rightarrow> nat \<Rightarrow> bool" where
  "is_stale parse_ts turn now max_age =
     (case parse_ts (ut_started_at turn) of
        None \<Rightarrow> True
      | Some at \<Rightarrow> 0 \<le> now - at \<and> int max_age < now - at)"

definition started_before_cutoff :: "(string \<Rightarrow> int option) \<Rightarrow> string \<Rightarrow> int \<Rightarrow> bool" where
  "started_before_cutoff parse_ts at cutoff =
     (case parse_ts at of Some t \<Rightarrow> t < cutoff | None \<Rightarrow> True)"

definition plan_session ::
    "(string \<Rightarrow> int option) \<Rightarrow> unfinished_turn list \<Rightarrow> int \<Rightarrow> resume_policy \<Rightarrow> resume_action list" where
  "plan_session parse_ts unfinished now policy =
     (if \<not> rp_auto_resume policy \<or> unfinished = [] then []
      else
        (let newest = last unfinished in
         map AbandonTurn (butlast unfinished) @
         [if is_stale parse_ts newest now (rp_max_age policy) then StaleTurn newest
          else case decide_turn_recovery (ut_attempts newest) (rp_max_attempts policy) of
                 Resume attempt \<Rightarrow> ResumeTurn newest attempt
               | Abandon \<Rightarrow> AbandonTurn newest]))"

definition plan_resumes ::
    "(string \<Rightarrow> int option) \<Rightarrow> 'st journal_store \<Rightarrow> 'st \<Rightarrow> int \<Rightarrow> int \<Rightarrow> resume_policy \<Rightarrow>
     resume_action list" where
  "plan_resumes parse_ts ops st now started_before policy =
     concat (map (\<lambda>scan. plan_session parse_ts
         (filter (\<lambda>turn. started_before_cutoff parse_ts (ut_started_at turn) started_before)
            (unfinished_turns (scan_entries scan))) now policy)
       (js_scan_all ops st))"

definition count_unfinished_turns :: "'st journal_store \<Rightarrow> 'st \<Rightarrow> nat" where
  "count_unfinished_turns ops st =
     sum_list (map (\<lambda>scan. length (unfinished_turns (scan_entries scan))) (js_scan_all ops st))"

section \<open>What the plan guarantees\<close>

fun resumed_turn :: "resume_action \<Rightarrow> (unfinished_turn \<times> u32) option" where
  "resumed_turn (ResumeTurn t a) = Some (t, a)"
| "resumed_turn _ = None"

lemma plan_session_turns:
  "rp_auto_resume policy \<Longrightarrow> map action_turn (plan_session parse_ts ts now policy) = ts"
  by (cases ts rule: rev_cases) (auto simp: plan_session_def comp_def split: turn_recovery.splits)

lemma plan_session_off: "\<not> rp_auto_resume policy \<Longrightarrow> plan_session parse_ts ts now policy = []"
  by (simp add: plan_session_def)

lemma plan_session_resumed:
  "List.map_filter resumed_turn (plan_session parse_ts ts now policy) =
   (if rp_auto_resume policy \<and> ts \<noteq> [] \<and> \<not> is_stale parse_ts (last ts) now (rp_max_age policy)
       \<and> ut_attempts (last ts) < rp_max_attempts policy
    then [(last ts, ut_attempts (last ts) + 1)] else [])"
proof -
  have "List.map_filter resumed_turn (map AbandonTurn us) = []" for us
    by (auto simp: map_filter_Nil_iff)
  then show ?thesis
    by (auto simp: plan_session_def map_filter_Cons decide_turn_recovery_def Let_def not_le)
qed

text \<open>A resumed turn was unfinished, is not too old and has an attempt left.\<close>

lemma plan_resumes_resumed:
  assumes "ResumeTurn t a \<in> set (plan_resumes parse_ts ops st now cutoff policy)"
  shows "\<exists>scan \<in> set (js_scan_all ops st). t \<in> set (unfinished_turns (scan_entries scan))"
    and "rp_auto_resume policy"
    and "\<not> is_stale parse_ts t now (rp_max_age policy)"
    and "started_before_cutoff parse_ts (ut_started_at t) cutoff"
    and "unat a = Suc (unat (ut_attempts t)) \<and> a \<le> rp_max_attempts policy"
proof -
  from assms obtain scan where scan: "scan \<in> set (js_scan_all ops st)"
    and mem: "ResumeTurn t a \<in> set (plan_session parse_ts
      (filter (\<lambda>turn. started_before_cutoff parse_ts (ut_started_at turn) cutoff)
        (unfinished_turns (scan_entries scan))) now policy)"
    (is "_ \<in> set (plan_session _ ?ts _ _)")
    by (auto simp: plan_resumes_def)
  from mem have "rp_auto_resume policy \<and> ?ts \<noteq> [] \<and> t = last ?ts \<and>
      \<not> is_stale parse_ts t now (rp_max_age policy) \<and>
      decide_turn_recovery (ut_attempts t) (rp_max_attempts policy) = Resume a"
    unfolding plan_session_def
    by (auto simp: Let_def split: if_splits turn_recovery.splits)
  then have ok: "rp_auto_resume policy" "t \<in> set ?ts" "\<not> is_stale parse_ts t now (rp_max_age policy)"
      and dec: "decide_turn_recovery (ut_attempts t) (rp_max_attempts policy) = Resume a"
    using last_in_set [of ?ts] by (auto simp del: last_in_set)
  show "rp_auto_resume policy" "\<not> is_stale parse_ts t now (rp_max_age policy)"
    using ok(1,3) by simp_all
  show "\<exists>scan \<in> set (js_scan_all ops st). t \<in> set (unfinished_turns (scan_entries scan))"
    using ok(2) scan by auto
  show "started_before_cutoff parse_ts (ut_started_at t) cutoff" using ok(2) by simp
  show "unat a = Suc (unat (ut_attempts t)) \<and> a \<le> rp_max_attempts policy"
    using decide_turn_recovery_bounds [OF dec] by simp
qed

end
