(* ===== verification/Agent_Durability.thy ===== *)
theory Agent_Durability
  imports Crash_Safety Resume Inbox_Laws
begin

text \<open>
  The durability steps of \<open>src/agent/agent_loop.rs\<close>: opening and closing a turn's journal, the
  startup recovery (abandoning, replaying interrupted calls, closing and re-driving inbox
  entries), restoring interrupted turns from the journal, and what \<open>dispatch\<close> does with the
  ledger.  The model run itself (\<open>AgentRunner::run\<close>) and the session file are not part of this
  theory: a restored turn is the frames handed to \<open>save_turn\<close>.

  Parameters: time stamps, the random turn id, \<open>parse_ts\<close>, and \<open>decode\<close> for
  \<open>serde_json::from_value::<InboundMessage>\<close>.
\<close>

section \<open>The journal of one turn\<close>

definition begin_turn_journal ::
    "'st journal_store \<Rightarrow> string \<Rightarrow> string \<Rightarrow> journal_mode \<Rightarrow> string \<Rightarrow> json list \<Rightarrow> string \<Rightarrow> string \<Rightarrow>
     u32 \<Rightarrow> string option \<Rightarrow> 'st \<Rightarrow> turn_journal \<times> 'st journal_world" where
  "begin_turn_journal ops now uuid mode key initial_messages channel chat_id attempt request_id st =
     (let journal = rj_new key;
          turn = with_mode mode (tj_new uuid);
          user_message = List.find (\<lambda>message. get_str message ''role'' = Some ''user'') (rev initial_messages);
          r = TurnStart (tj_turn_id turn) key request_id user_message attempt (Some channel) (Some chat_id)
      in (turn, snd (turn_append ops now turn r True (journal, st))))"

definition run_outcome :: "string \<Rightarrow> turn_outcome" where
  "run_outcome stop_reason = (if stop_reason = ''error'' then Failed else Completed)"

text \<open>The end of \<open>run_agent_loop\<close>: close the turn, prune the journal, compact the ledger.\<close>

definition end_turn ::
    "'st journal_store \<Rightarrow> (string \<Rightarrow> int option) \<Rightarrow> string \<Rightarrow> int \<Rightarrow> nat \<Rightarrow> nat \<Rightarrow> turn_journal \<Rightarrow> string \<Rightarrow>
     'st journal_world \<Rightarrow> 'st journal_world" where
  "end_turn ops parse_ts now_text now ledger_ttl_days ledger_max_entries turn stop_reason w =
     (case finish_guard ops now_text (turn_guard_of turn) (run_outcome stop_reason) w of
        (journal, st) \<Rightarrow>
          (let st = snd (prune_journal ops journal st);
               ledger_ttl = 1000000000 * (ledger_ttl_days * 86400);
               st = snd (ledger_compact ops parse_ts journal now ledger_ttl ledger_max_entries st)
           in (journal, st)))"

section \<open>Startup recovery of turns\<close>

record resume_summary =
  rs_resumed :: nat
  rs_abandoned :: nat
  rs_stale :: nat

text \<open>
  The loop over the plan: abandoned turns are closed at once, the turns to resume are returned
  in order (their tasks run afterwards).
\<close>

definition abandon_turn :: "'st journal_store \<Rightarrow> string \<Rightarrow> unfinished_turn \<Rightarrow> 'st \<Rightarrow> 'st" where
  "abandon_turn ops now turn st =
     snd (record_turn_end ops now (tj_new (ut_turn_id turn)) Abandoned (rj_new (ut_session_key turn), st))"

fun apply_plan ::
    "'st journal_store \<Rightarrow> string \<Rightarrow> resume_action list \<Rightarrow> resume_summary \<Rightarrow> 'st \<Rightarrow>
     (unfinished_turn \<times> u32) list \<times> resume_summary \<times> 'st" where
  "apply_plan ops now [] summary st = ([], summary, st)"
| "apply_plan ops now (AbandonTurn turn # actions) summary st =
     apply_plan ops now actions (summary\<lparr>rs_abandoned := rs_abandoned summary + 1\<rparr>)
       (abandon_turn ops now turn st)"
| "apply_plan ops now (StaleTurn turn # actions) summary st =
     apply_plan ops now actions (summary\<lparr>rs_stale := rs_stale summary + 1\<rparr>) st"
| "apply_plan ops now (ResumeTurn turn attempt # actions) summary st =
     (case apply_plan ops now actions (summary\<lparr>rs_resumed := rs_resumed summary + 1\<rparr>) st of
        (tasks, summary', st') \<Rightarrow> ((turn, attempt) # tasks, summary', st'))"

definition plan_interrupted_turns ::
    "'st journal_store \<Rightarrow> (string \<Rightarrow> int option) \<Rightarrow> string \<Rightarrow> int \<Rightarrow> int \<Rightarrow> durability_config \<Rightarrow> 'st \<Rightarrow>
     (unfinished_turn \<times> u32) list \<times> resume_summary \<times> 'st" where
  "plan_interrupted_turns ops parse_ts now_text now process_start config st =
     apply_plan ops now_text
       (plan_resumes parse_ts ops st now process_start (policy_from_config config))
       \<lparr>rs_resumed = 0, rs_abandoned = 0, rs_stale = 0\<rparr> st"

text \<open>\<open>split_once(':')\<close>.\<close>

definition split_colon :: "string \<Rightarrow> (string \<times> string) option" where
  "split_colon s =
     (let a = takeWhile (\<lambda>c. c \<noteq> CHR '':'') s
      in if length a < length s then Some (a, drop (length a + 1) s) else None)"

definition resume_route :: "unfinished_turn \<Rightarrow> (string \<times> string) option" where
  "resume_route turn =
     (case (ut_channel turn, ut_chat_id turn) of
        (Some channel, Some chat_id) \<Rightarrow> Some (channel, chat_id)
      | _ \<Rightarrow> split_colon (ut_session_key turn))"

text \<open>
  \<open>replay_interrupted_calls\<close> runs a tool without a limit and without isolating panics: a panic
  drops the call in flight while unwinding (no terminal record) and ends the resume task.  The
  flag says whether the loop ran to its end.
\<close>

fun replay_calls ::
    "'st journal_store \<Rightarrow> string \<Rightarrow> 'w registry \<Rightarrow> turn_journal \<Rightarrow> tool_call_state list \<Rightarrow>
     'w \<times> 'st journal_world \<Rightarrow> bool \<times> 'w \<times> 'st journal_world" where
  "replay_calls ops now tools turn [] (w, jw) = (True, w, jw)"
| "replay_calls ops now tools turn (s # ss) (w, jw) =
     (case decide_tool_recovery s (was_replayed s) of
        Replay args \<Rightarrow>
          (case registry_get tools (tcs_tool_name s) of
             None \<Rightarrow> replay_calls ops now tools turn ss (w, jw)
           | Some tool \<Rightarrow>
               if \<not> tl_replay_safe tool then replay_calls ops now tools turn ss (w, jw)
               else
                 (case begin_tool_call ops now turn (tcs_call_id s) (tcs_tool_name s) args True jw of
                    (Inl refusal, jw) \<Rightarrow> replay_calls ops now tools turn ss (w, jw)
                  | (Inr in_flight, jw) \<Rightarrow>
                      (case tl_run tool (Some (tj_turn_id turn, tcs_call_id s)) None args w of
                         (Finished result, w) \<Rightarrow>
                           replay_calls ops now tools turn ss
                             (w, finish_call ops now in_flight
                                   (if tr_is_error result then CallError else CallDone)
                                   (tr_content result) jw)
                       | (_, w) \<Rightarrow> (False, w, drop_call ops now True in_flight jw))))
      | _ \<Rightarrow> replay_calls ops now tools turn ss (w, jw))"

definition replay_interrupted_calls ::
    "'st journal_store \<Rightarrow> string \<Rightarrow> 'w registry \<Rightarrow> journal_mode \<Rightarrow> string \<Rightarrow> string \<Rightarrow> 'w \<times> 'st \<Rightarrow>
     bool \<times> 'w \<times> 'st journal_world" where
  "replay_interrupted_calls ops now tools mode key turn_id s =
     (case s of (w, st) \<Rightarrow>
        (let journal = rj_new key;
             states = tool_call_states (scan_entries (rj_scan ops journal st));
             turn = with_mode mode (tj_new turn_id)
         in replay_calls ops now tools turn (filter (\<lambda>s. tcs_turn_id s = turn_id) states)
              (w, (journal, st))))"

text \<open>\<open>restore_from_journal\<close>: the frames to save and the store with the turns marked restored.\<close>

fun restore_turns ::
    "'st journal_store \<Rightarrow> string \<Rightarrow> run_journal \<Rightarrow> journal_entry list \<Rightarrow> string list \<Rightarrow> 'st \<Rightarrow>
     json list list \<times> 'st" where
  "restore_turns ops now journal entries [] st = ([], st)"
| "restore_turns ops now journal entries (t # ts) st =
     (let turn_messages = turn_messages_for_restore now entries t;
          st = snd (rj_append ops journal now (TurnRestored t) st)
      in case restore_turns ops now journal entries ts st of
           (frames, st) \<Rightarrow>
             (if turn_messages = [] then frames else (JNull # turn_messages) # frames, st))"

definition restore_from_journal ::
    "'st journal_store \<Rightarrow> string \<Rightarrow> string \<Rightarrow> 'st \<Rightarrow> bool \<times> json list list \<times> 'st" where
  "restore_from_journal ops now key st =
     (let journal = rj_new key;
          entries = scan_entries (rj_scan ops journal st)
      in case restore_turns ops now journal entries (turns_to_restore entries) st of
           (frames, st) \<Rightarrow> (frames \<noteq> [], frames, st))"

text \<open>\<open>final_answer_of\<close>: the last message, when it is a finished assistant answer.\<close>

definition final_answer_of :: "json list \<Rightarrow> string option" where
  "final_answer_of history =
     (if history = [] then None
      else
        (let l = last history;
             is_assistant = (get_str l ''role'' = Some ''assistant'');
             wants_tools = (case get_array l ''tool_calls'' of Some calls \<Rightarrow> calls \<noteq> [] | None \<Rightarrow> False)
         in case get_str l ''content'' of
              None \<Rightarrow> None
            | Some t \<Rightarrow> if is_assistant \<and> \<not> wants_tools \<and> trim t \<noteq> [] then Some t else None))"

section \<open>Startup recovery of the inbox\<close>

definition close_resumed_request ::
    "'st journal_store \<Rightarrow> string \<Rightarrow> unfinished_turn \<Rightarrow> string \<Rightarrow> 'st \<Rightarrow> 'st" where
  "close_resumed_request ops now turn answer st =
     (case ut_request_id turn of
        None \<Rightarrow> st
      | Some request_id \<Rightarrow>
          (let ledger = rj_new (ut_session_key turn) in
           case List.find (\<lambda>entry. ib_request_id entry = request_id) (ledger_entries ops ledger st) of
             None \<Rightarrow> st
           | Some entry \<Rightarrow> mark_entry_done ops ledger now entry (Some answer) st))"

text \<open>One entry of the plan: the messages fed back and the store; \<open>bus_open\<close> is whether the bus takes one.\<close>

definition redrive_step ::
    "'st journal_store \<Rightarrow> (string \<Rightarrow> int option) \<Rightarrow> (json \<Rightarrow> inbound_message option) \<Rightarrow> string \<Rightarrow> int \<Rightarrow> bool \<Rightarrow>
     inbound_message list \<times> 'st \<Rightarrow> redrive_action \<Rightarrow> inbound_message list \<times> 'st" where
  "redrive_step ops parse_ts decode now cutoff bus_open s action =
     (case s of (sent, st) \<Rightarrow>
        if \<not> started_before_cutoff parse_ts (ib_updated_at (action_entry action)) cutoff then (sent, st)
        else
          (case action of
             Keep entry \<Rightarrow> (sent, st)
           | Close entry \<Rightarrow>
               (sent, mark_entry_done ops (rj_new (ib_session_key entry)) now entry None st)
           | Redrive entry \<Rightarrow>
               (case Option.bind (ib_message entry) decode of
                  None \<Rightarrow> (sent, st)
                | Some message \<Rightarrow> (if bus_open then sent @ [message] else sent, st))))"

definition redrive_pending_inbound ::
    "'st journal_store \<Rightarrow> (string \<Rightarrow> int option) \<Rightarrow> (json \<Rightarrow> inbound_message option) \<Rightarrow> string \<Rightarrow> int \<Rightarrow> bool \<Rightarrow>
     'st \<Rightarrow> inbound_message list \<times> 'st" where
  "redrive_pending_inbound ops parse_ts decode now cutoff bus_open st =
     foldl (redrive_step ops parse_ts decode now cutoff bus_open) ([], st)
       (concat (map (\<lambda>scan. plan_redrive (scan_entries scan)) (js_scan_all ops st)))"

section \<open>The ledger around one message\<close>

text \<open>How \<open>process_message\<close> ended: a reply, nothing to send, or a panic.\<close>

datatype processed = Replied string | NoReply | ProcessPanicked

definition dispatch_outcome :: "processed \<Rightarrow> string" where
  "dispatch_outcome p =
     (case p of Replied reply \<Rightarrow> reply | NoReply \<Rightarrow> [] | ProcessPanicked \<Rightarrow> ''Sorry, I encountered an error.'')"

text \<open>The ledger calls of \<open>dispatch\<close>, with the processing of the message between them.\<close>

definition dispatch_ledger ::
    "'st journal_store \<Rightarrow> string \<Rightarrow> string \<Rightarrow> inbound_message \<Rightarrow> ('st \<Rightarrow> processed \<times> 'st) \<Rightarrow> 'st \<Rightarrow> 'st" where
  "dispatch_ledger ops now key msg process st =
     (let ledger = rj_new key;
          st = mark_processing ops ledger now msg st
      in case process st of
           (p, st) \<Rightarrow> mark_done ops ledger now msg (dispatch_outcome p) None st)"

section \<open>Replaying is a run of crash steps\<close>

text \<open>Tools that count their executions per call identity, and may otherwise do anything.\<close>

definition counting_tools :: "exec_count registry \<Rightarrow> bool" where
  "counting_tools tools \<longleftrightarrow>
     (\<forall>name tool k limit args x. registry_get tools name = Some tool \<longrightarrow>
        snd (tl_run tool (Some k) limit args x) = x(k := x k + 1))"

lemma state_persists:
  assumes "s \<in> set (tool_call_states es)" "grows_by es es' rs"
    and "\<forall>r \<in> set rs. rec_key r \<noteq> Some (key_of_state s)"
  shows "s \<in> set (tool_call_states es')"
proof -
  from assms(2) obtain new where es': "es' = es @ new" and sub: "subseq (map entry_record new) rs"
    by (auto simp: grows_by_def)
  have "entry_record e \<in> set rs" if "e \<in> set new" for e
    using that list_emb_set [OF sub, of "entry_record e"] by auto
  then have "\<forall>e \<in> set new. call_record_of (key_of_state s) e = None"
    using assms(3) by (fastforce simp: call_record_of_def split: journal_record.splits)
  then have "call_records (key_of_state s) es' = call_records (key_of_state s) es"
    by (simp add: es' call_records_def map_filter_Nil_iff [THEN iffD2])
  with assms(1) show ?thesis by (simp add: in_tool_call_states)
qed

context journal_laws
begin

lemma finish_call_grows:
  assumes "inv (snd w)"
  shows "\<exists>why. grows_by (world_entries ops w) (world_entries ops (finish_call ops now call status result w))
    [ToolIntent (tj_turn_id (ic_turn call)) (ic_call_id call) (ic_tool_name call) (ic_args call)
       (ic_replay_safe call) status (Some result), Degraded (Some (tj_turn_id (ic_turn call))) why]"
proof -
  let ?r = "ToolIntent (tj_turn_id (ic_turn call)) (ic_call_id call) (ic_tool_name call) (ic_args call)
     (ic_replay_safe call) status (Some result)"
  obtain ok w' where "turn_append ops now (ic_turn call) ?r False w = (ok, w')"
    by (cases "turn_append ops now (ic_turn call) ?r False w")
  from turn_append_grows(4) [OF assms this] this show ?thesis
    by (simp add: finish_call_once call_write_def)
qed

text \<open>
  A replay step on one state: nothing, a refusal, or begin, run and finish; only its own call's
  records are added.
\<close>

lemma replay_calls_steps:
  assumes "inv (snd jw)" "tj_mode turn = Strict" "counting_tools tools"
    and "\<forall>s \<in> set ss. s \<in> set (tool_call_states (world_entries ops jw)) \<and> tcs_turn_id s = tj_turn_id turn"
    and "distinct (map key_of_state ss)"
    and "replay_calls ops now tools turn ss (x, jw) = (b, x', jw')"
  shows "(crash_step ops safe_of)\<^sup>*\<^sup>* (Waiting, jw, x) (Waiting, jw', x')"
  using assms
proof (induction ss arbitrary: x jw)
  case (Cons s ss)
  note mode = Cons.prems(2) and tools = Cons.prems(3)
  have s: "s \<in> set (tool_call_states (world_entries ops jw))" "tcs_turn_id s = tj_turn_id turn"
    using Cons.prems(4) by simp_all
  have skip: ?case if "replay_calls ops now tools turn ss (x, jw) = (b, x', jw')"
    using Cons.IH [OF Cons.prems(1) mode tools _ _ that] Cons.prems(4,5) by simp
  show ?case
  proof (cases "\<exists>args tool. decide_tool_recovery s (was_replayed s) = Replay args \<and>
      registry_get tools (tcs_tool_name s) = Some tool \<and> tl_replay_safe tool")
    case False
    then have "replay_calls ops now tools turn ss (x, jw) = (b, x', jw')"
      using Cons.prems(6) by (auto split: tool_recovery.splits option.splits if_splits)
    then show ?thesis by (rule skip)
  next
    case True
    then obtain args tool where dec: "decide_tool_recovery s (was_replayed s) = Replay args"
        and tool: "registry_get tools (tcs_tool_name s) = Some tool" "tl_replay_safe tool" by blast
    obtain res jw1 where b: "begin_tool_call ops now turn (tcs_call_id s) (tcs_tool_name s) args True jw = (res, jw1)"
      by (cases "begin_tool_call ops now turn (tcs_call_id s) (tcs_tool_name s) args True jw")
    have inv1: "inv (snd jw1)" using begin_tool_call_inv(1) [OF Cons.prems(1) b] .
    have persist: "\<forall>s' \<in> set ss. s' \<in> set (tool_call_states (world_entries ops jw2)) \<and>
        tcs_turn_id s' = tj_turn_id turn"
      if g: "grows_by (world_entries ops jw) (world_entries ops jw2) rs"
        and own: "\<forall>r \<in> set rs. rec_key r = None \<or> rec_key r = Some (key_of_state s)" for jw2 rs
    proof
      fix s' assume s': "s' \<in> set ss"
      then have "key_of_state s' \<noteq> key_of_state s" using Cons.prems(5) by (auto simp: image_iff)
      with own have "\<forall>r \<in> set rs. rec_key r \<noteq> Some (key_of_state s')" by force
      with state_persists [OF _ g] s' Cons.prems(4)
      show "s' \<in> set (tool_call_states (world_entries ops jw2)) \<and> tcs_turn_id s' = tj_turn_id turn"
        by simp
    qed
    obtain why1 why2 where g1: "grows_by (world_entries ops jw) (world_entries ops jw1)
      [ToolIntent (tj_turn_id turn) (tcs_call_id s) (tcs_tool_name s) args True Intent None,
       Degraded (Some (tj_turn_id turn)) why1,
       ToolIntent (tj_turn_id turn) (tcs_call_id s) (tcs_tool_name s) args True CallBlocked (Some STRICT_REFUSAL),
       Degraded (Some (tj_turn_id turn)) why2]" (is "grows_by _ _ ?rs1")
      using begin_tool_call_grows [OF Cons.prems(1) b] by blast
    have own1: "\<forall>r \<in> set ?rs1. rec_key r = None \<or> rec_key r = Some (key_of_state s)"
      using s(2) by simp
    show ?thesis
    proof (cases res)
      case (Inl refusal)
      have "crash_step ops safe_of (Waiting, jw, x) (Waiting, jw1, x)"
        by (rule refuse_replay [OF mode s dec b [unfolded Inl]])
      moreover have "replay_calls ops now tools turn ss (x, jw1) = (b, x', jw')"
        using Cons.prems(6) dec tool b Inl by simp
      then have "(crash_step ops safe_of)\<^sup>*\<^sup>* (Waiting, jw1, x) (Waiting, jw', x')"
        using Cons.IH [OF inv1 mode tools persist [OF g1 own1]] Cons.prems(5) by simp
      ultimately show ?thesis by (rule converse_rtranclp_into_rtranclp)
    next
      case (Inr call)
      have call: "ic_key call = key_of_state s" "ic_turn call = turn" "ic_call_id call = tcs_call_id s"
        using b Inr s(2) by (auto simp: begin_tool_call_def Let_def split: prod.splits if_splits)
      obtain run x1 where r: "tl_run tool (Some (tj_turn_id turn, tcs_call_id s)) None args x = (run, x1)"
        by (cases "tl_run tool (Some (tj_turn_id turn, tcs_call_id s)) None args x")
      have "x1 = x(ic_key call := x (ic_key call) + 1)"
        using tools tool(1) r s(2) call(1) unfolding counting_tools_def by (metis snd_conv)
      then have ran: "crash_step ops safe_of (Begun call, jw1, x) (Ran call, jw1, x1)"
        using crash_step.run by simp
      have begun: "crash_step ops safe_of (Waiting, jw, x) (Begun call, jw1, x)"
        by (rule begin_replay [OF mode s dec b [unfolded Inr]])
      show ?thesis
      proof (cases run)
        case (Finished result)
        let ?status = "if tr_is_error result then CallError else CallDone"
        let ?jw2 = "finish_call ops now call ?status (tr_content result) jw1"
        have fin: "crash_step ops safe_of (Ran call, jw1, x1) (Waiting, ?jw2, x1)"
          by (rule crash_step.finish) simp
        have rest: "replay_calls ops now tools turn ss (x1, ?jw2) = (b, x', jw')"
          using Cons.prems(6) dec tool b Inr r Finished by simp
        obtain why3 where g2: "grows_by (world_entries ops jw1) (world_entries ops ?jw2)
          [ToolIntent (tj_turn_id (ic_turn call)) (ic_call_id call) (ic_tool_name call) (ic_args call)
            (ic_replay_safe call) ?status (Some (tr_content result)),
           Degraded (Some (tj_turn_id (ic_turn call))) why3]" (is "grows_by _ _ ?rs2")
          using finish_call_grows [OF inv1] by blast
        have own2: "\<forall>r \<in> set (?rs1 @ ?rs2). rec_key r = None \<or> rec_key r = Some (key_of_state s)"
          using own1 call s(2) by simp
        have "(crash_step ops safe_of)\<^sup>*\<^sup>* (Waiting, ?jw2, x1) (Waiting, jw', x')"
          using Cons.IH [OF finish_call_inv(1) [OF inv1] mode tools
              persist [OF grows_by_trans [OF g1 g2] own2] _ rest] Cons.prems(5) by simp
        with begun ran fin show ?thesis by (meson converse_rtranclp_into_rtranclp)
      next
        case (Panicked payload)
        then have "jw' = drop_call ops now True call jw1" "x' = x1"
          using Cons.prems(6) dec tool b Inr r by simp_all
        with begun ran crash_step.cancel_ran [of ops safe_of call jw1 x1 now True]
        show ?thesis by (meson converse_rtranclp_into_rtranclp rtranclp.rtrancl_refl)
      next
        case TimedOut
        then have "jw' = drop_call ops now True call jw1" "x' = x1"
          using Cons.prems(6) dec tool b Inr r by simp_all
        with begun ran crash_step.cancel_ran [of ops safe_of call jw1 x1 now True]
        show ?thesis by (meson converse_rtranclp_into_rtranclp rtranclp.rtrancl_refl)
      qed
    qed
  qed
qed simp

lemma replay_interrupted_calls_steps:
  assumes "inv st" "counting_tools tools"
    and "replay_interrupted_calls ops now tools Strict key t (x, st) = (b, x', jw')"
  shows "(crash_step ops safe_of)\<^sup>*\<^sup>* (Waiting, (rj_new key, st), x) (Waiting, jw', x')"
proof -
  let ?states = "tool_call_states (scan_entries (rj_scan ops (rj_new key) st))"
  let ?turn = "with_mode Strict (tj_new t)"
  have turn: "tj_turn_id ?turn = t" "tj_mode ?turn = Strict" by (simp_all add: with_mode_def tj_new_def)
  have "distinct (map key_of_state (filter (\<lambda>s. tcs_turn_id s = t) ?states))"
    using distinct_tool_call_states by (rule distinct_map_filter)
  then show ?thesis
    using replay_calls_steps [of "(rj_new key, st)" ?turn tools
        "filter (\<lambda>s. tcs_turn_id s = t) ?states" now x b x' jw' safe_of] assms turn
    by (simp add: replay_interrupted_calls_def Let_def)
qed

lemma crash_then_replay_steps:
  assumes "inv st" and "scan_entries (rj_scan ops rj st) = []"
    and steps: "(crash_step ops safe_of)\<^sup>*\<^sup>* (Waiting, (rj, st), \<lambda>_. 0) (p, w, x)"
    and tools: "counting_tools tools"
    and run: "replay_interrupted_calls ops now tools Strict (rj_session_key (fst w)) t (x, snd w) = (b, x', jw')"
  shows "(crash_step ops safe_of)\<^sup>*\<^sup>* (Waiting, (rj, st), \<lambda>_. 0) (Waiting, jw', x')"
proof -
  have "crash_ok ops inv safe_of (Waiting, (rj, st), \<lambda>_. 0)"
    using assms(1,2) by (simp add: crash_ok_def counts_ok_def key_intents_def)
  from crash_steps_ok [OF steps this] have inv: "inv (snd w)" by (simp add: crash_ok_def)
  have "crash_step ops safe_of (p, w, x) (Waiting, (rj_new (rj_session_key (fst w)), snd w), x)"
    by (rule crash_step.crash)
  with steps replay_interrupted_calls_steps [OF inv tools run, of safe_of] show ?thesis by auto
qed

end

section \<open>What the plan leaves behind\<close>

lemma apply_plan_tasks:
  "apply_plan ops now actions summary st = (tasks, summary', st') \<Longrightarrow>
   tasks = List.map_filter resumed_turn actions \<and>
   rs_resumed summary' + rs_abandoned summary' + rs_stale summary' =
   rs_resumed summary + rs_abandoned summary + rs_stale summary + length actions \<and>
   rs_resumed summary' = rs_resumed summary + length tasks"
proof (induction ops now actions summary st arbitrary: tasks summary' st' rule: apply_plan.induct)
  case (4 ops now turn attempt actions summary st)
  obtain ts sm st1 where "apply_plan ops now actions (summary\<lparr>rs_resumed := rs_resumed summary + 1\<rparr>) st
      = (ts, sm, st1)" by (metis prod.exhaust)
  with 4 show ?case by (fastforce simp: map_filter_Cons)
qed (fastforce simp: map_filter_Cons)+

lemma mem_record_turn_end:
  assumes "record_turn_end memory_ops now turn outcome (journal, st) = (journal', st')"
  shows "journal' = journal" and "\<exists>n. mem_entries (mem_journal st' (rj_session_key journal)) =
      mem_entries (mem_journal st (rj_session_key journal)) @ [new_entry now n (TurnEnd (tj_turn_id turn) outcome)]"
    and "key \<noteq> rj_session_key journal \<Longrightarrow> mem_journal st' key = mem_journal st key"
proof -
  have "journal' = journal \<and> (\<exists>n. mem_entries (mem_journal st' (rj_session_key journal)) =
      mem_entries (mem_journal st (rj_session_key journal)) @ [new_entry now n (TurnEnd (tj_turn_id turn) outcome)])
    \<and> (key \<noteq> rj_session_key journal \<longrightarrow> mem_journal st' key = mem_journal st key)"
    using assms by (auto simp: record_turn_end_def turn_append_def rj_append_synced_def mem_append_def Let_def)
  then show "journal' = journal" and "\<exists>n. mem_entries (mem_journal st' (rj_session_key journal)) =
      mem_entries (mem_journal st (rj_session_key journal)) @ [new_entry now n (TurnEnd (tj_turn_id turn) outcome)]"
    and "key \<noteq> rj_session_key journal \<Longrightarrow> mem_journal st' key = mem_journal st key" by blast+
qed

text \<open>An abandoned turn is never planned again.\<close>

lemma abandon_turn_ends:
  "ut_turn_id turn \<notin> ut_turn_id ` set (unfinished_turns
     (mem_entries (mem_journal (abandon_turn memory_ops now turn st) (ut_session_key turn))))"
proof -
  let ?j = "rj_new (ut_session_key turn)"
  obtain j' st' where r: "record_turn_end memory_ops now (tj_new (ut_turn_id turn)) Abandoned (?j, st) = (j', st')"
    by (cases "record_turn_end memory_ops now (tj_new (ut_turn_id turn)) Abandoned (?j, st)")
  from mem_record_turn_end(2) [OF r] obtain n where
    "mem_entries (mem_journal st' (ut_session_key turn)) = mem_entries (mem_journal st (ut_session_key turn)) @
       [new_entry now n (TurnEnd (ut_turn_id turn) Abandoned)]"
    by (auto simp: rj_new_def tj_new_def)
  moreover have "abandon_turn memory_ops now turn st = st'" using r by (simp add: abandon_turn_def)
  ultimately have "ut_turn_id turn \<in> set (ended (mem_entries (mem_journal
      (abandon_turn memory_ops now turn st) (ut_session_key turn))))"
    by (simp add: map_filter_Cons end_id_def)
  then show ?thesis by (simp add: unfinished_ids flip: set_map)
qed

section \<open>Restoring is done once\<close>

lemma mem_append_entries:
  "mem_entries (mem_journal (snd (rj_append memory_ops journal now r st)) (rj_session_key journal)) =
   mem_entries (mem_journal st (rj_session_key journal)) @
   [new_entry now (mem_next_number st (rj_session_key journal)) r]"
  by (simp add: rj_append_def mem_append_def mem_next_number_def Let_def)

lemma restore_turns_settles:
  "restore_turns memory_ops now journal es ts st = (frames, st') \<Longrightarrow>
   \<exists>new. mem_entries (mem_journal st' (rj_session_key journal)) =
     mem_entries (mem_journal st (rj_session_key journal)) @ new \<and>
     map entry_record new = map TurnRestored ts"
proof (induction ts arbitrary: frames st st')
  case (Cons t ts)
  let ?st = "snd (rj_append memory_ops journal now (TurnRestored t) st)"
  obtain fs st1 where r: "restore_turns memory_ops now journal es ts ?st = (fs, st1)"
    by (cases "restore_turns memory_ops now journal es ts ?st")
  have "st' = st1" using Cons.prems r by (auto simp: Let_def split: if_splits)
  with Cons.IH [OF r] mem_append_entries [of journal now "TurnRestored t" st] show ?case
    by fastforce
qed simp

lemma restored_settled:
  "map entry_record new = map TurnRestored ts \<Longrightarrow> settled new = ts \<and> started new = []"
proof (induction new arbitrary: ts)
  case (Cons e new)
  then show ?case by (cases ts) (auto simp: map_filter_Cons settled_id_def start_id_def)
qed simp

text \<open>After a restore no turn is left to restore, so nothing is merged twice.\<close>

lemma restore_from_journal_once:
  assumes "restore_from_journal memory_ops now key st = (b, frames, st')"
  shows "turns_to_restore (mem_entries (mem_journal st' key)) = []"
    and "restore_from_journal memory_ops now' key st' = (False, [], st')"
proof -
  let ?es = "mem_entries (mem_journal st key)" and ?es' = "mem_entries (mem_journal st' key)"
  have run: "restore_turns memory_ops now (rj_new key) ?es (turns_to_restore ?es) st = (frames, st')"
    using assms by (auto simp: restore_from_journal_def rj_scan_def rj_new_def Let_def split: prod.splits)
  from restore_turns_settles [OF run] obtain new where new: "?es' = ?es @ new"
      "map entry_record new = map TurnRestored (turns_to_restore ?es)"
    by (auto simp: rj_new_def)
  from restored_settled [OF new(2)] show none: "turns_to_restore ?es' = []"
    unfolding new(1) by (auto simp: turns_to_restore_eq filter_empty_conv)
  then show "restore_from_journal memory_ops now' key st' = (False, [], st')"
    by (simp add: restore_from_journal_def rj_scan_def rj_new_def Let_def)
qed

end
