(* ===== verification/Journal_File.thy ===== *)
theory Journal_File
  imports Journal Text_Helpers "HOL-Library.List_Lexorder" "HOL-Library.Char_ord"
begin

text \<open>
  \<open>FileJournalStore\<close> of \<open>src/session/journal_file.rs\<close>: one file of JSON lines per session, an
  in-process sequence counter per session key, torn tails after a crash, failing writes, and
  atomic rewrites (\<open>write_atomic\<close> of \<open>src/utils/fs.rs\<close>).

  The directory is an association list from file name to bytes.  Which system calls of an
  operation fail is an input (\<open>fs_io\<close>: one script per mutating operation, all calls succeed
  once it is exhausted); a failing \<open>write_all\<close> leaves any proper prefix of its bytes behind.
  Reads of existing files succeed.  serde_json is a parameter: \<open>codec\<close> with the documented laws
  \<open>codec_ok\<close>.  The main result is that under them the store satisfies \<open>journal_laws\<close>, whatever
  fails, with one slot per \<^emph>\<open>file name\<close>; that the slot is not the session key is a defect
  recorded in \<open>Journal_Defects\<close>.
\<close>

section \<open>File names\<close>

definition JOURNAL_EXTENSION :: string where
  "JOURNAL_EXTENSION = ''journal''"

definition path_for :: "string \<Rightarrow> string" where
  "path_for key = safe_filename key @ ''.'' @ JOURNAL_EXTENSION"

text \<open>\<open>Path::extension\<close>: what follows the last dot, unless the name starts with it.\<close>

definition path_extension :: "string \<Rightarrow> string option" where
  "path_extension name =
     (let ext = rev (takeWhile (\<lambda>c. c \<noteq> CHR ''.'') (rev name))
      in if length ext + 1 < length name then Some ext else None)"

section \<open>Lines\<close>

definition NL :: char where "NL = CHR ''\<newline>''"
definition CR :: char where "CR = CHR 0x0D"

text \<open>\<open>str::lines\<close>: split after every newline, then drop the ending \<open>\n\<close> or \<open>\r\n\<close>.\<close>

fun split_inclusive :: "string \<Rightarrow> string list" where
  "split_inclusive [] = []"
| "split_inclusive (c # cs) =
     (if c = NL then [c] # split_inclusive cs
      else case split_inclusive cs of [] \<Rightarrow> [[c]] | l # ls \<Rightarrow> (c # l) # ls)"

definition line_text :: "string \<Rightarrow> string" where
  "line_text l =
     (if l \<noteq> [] \<and> last l = NL
      then (let b = butlast l in if b \<noteq> [] \<and> last b = CR then butlast b else b)
      else l)"

definition str_lines :: "string \<Rightarrow> string list" where
  "str_lines bytes = map line_text (split_inclusive bytes)"

section \<open>Reading a journal\<close>

text \<open>
  serde_json: \<open>cd_encode\<close> is \<open>to_string\<close> of an entry, \<open>cd_parse\<close> is \<open>from_str\<close> of a line's
  \<open>from_utf8_lossy\<close> text (a replacement never removes or adds a line break) and \<open>cd_decode\<close> is
  \<open>from_value\<close> to an entry.
\<close>

record codec =
  cd_encode :: "journal_entry \<Rightarrow> string option"
  cd_parse :: "string \<Rightarrow> json option"
  cd_decode :: "json \<Rightarrow> journal_entry option"

definition parse_line :: "codec \<Rightarrow> string \<Rightarrow> journal_entry option" where
  "parse_line cd line =
     (case cd_parse cd line of
        None \<Rightarrow> None
      | Some v \<Rightarrow>
          (case Option.bind (json_get v ''v'') as_u64 of
             None \<Rightarrow> None
           | Some version \<Rightarrow>
               if version > ucast JOURNAL_SCHEMA_VERSION then None else cd_decode cd v))"

definition scan_bytes :: "codec \<Rightarrow> string \<Rightarrow> journal_scan" where
  "scan_bytes cd bytes =
     (let texts = filter (\<lambda>line. trim line \<noteq> []) (str_lines bytes)
      in from_entries (List.map_filter (parse_line cd) texts)
           (length (filter (\<lambda>line. parse_line cd line = None) texts)))"

section \<open>The store\<close>

record io_script =
  io_dir :: bool
  io_open :: bool
  io_newline :: bool
  io_line :: "nat option"
  io_sync :: bool
  io_replace :: bool
  io_remove :: bool

definition io_ok :: io_script where
  "io_ok = \<lparr>io_dir = True, io_open = True, io_newline = True, io_line = None, io_sync = True,
            io_replace = True, io_remove = True\<rparr>"

record file_store =
  fs_files :: "(string \<times> string) list"
  fs_counters :: "(string \<times> nat) list"
  fs_io :: "io_script list"

definition pop_io :: "file_store \<Rightarrow> io_script \<times> file_store" where
  "pop_io st = (case fs_io st of [] \<Rightarrow> (io_ok, st) | s # ss \<Rightarrow> (s, st\<lparr>fs_io := ss\<rparr>))"

definition file_bytes :: "file_store \<Rightarrow> string \<Rightarrow> string" where
  "file_bytes st name = (case map_of (fs_files st) name of None \<Rightarrow> [] | Some bytes \<Rightarrow> bytes)"

definition put_file :: "string \<Rightarrow> string \<Rightarrow> file_store \<Rightarrow> file_store" where
  "put_file name bytes st = st\<lparr>fs_files := AList.update name bytes (fs_files st)\<rparr>"

definition scan_path :: "codec \<Rightarrow> file_store \<Rightarrow> string \<Rightarrow> journal_scan" where
  "scan_path cd st name =
     (case map_of (fs_files st) name of None \<Rightarrow> from_entries [] 0 | Some bytes \<Rightarrow> scan_bytes cd bytes)"

text \<open>The highest number on disk, read from the last entry; 0 for none.\<close>

definition highest_seq :: "journal_entry list \<Rightarrow> nat" where
  "highest_seq es = (if es = [] then 0 else entry_seq (last es))"

definition next_seq :: "codec \<Rightarrow> file_store \<Rightarrow> string \<Rightarrow> nat" where
  "next_seq cd st key =
     (case map_of (fs_counters st) key of
        Some seq \<Rightarrow> seq
      | None \<Rightarrow> highest_seq (scan_entries (scan_path cd st (path_for key))) + 1)"

definition ends_cleanly :: "string \<Rightarrow> bool" where
  "ends_cleanly bytes \<longleftrightarrow> bytes = [] \<or> last bytes = NL"

definition file_append ::
    "codec \<Rightarrow> file_store \<Rightarrow> string \<Rightarrow> string \<Rightarrow> journal_record \<Rightarrow> durability \<Rightarrow>
     (io_error + nat) \<times> file_store" where
  "file_append cd st key now r durability =
     (let path = path_for key;
          seq = next_seq cd st key;
          (io, st) = pop_io st
      in case cd_encode cd (new_entry now seq r) of
           None \<Rightarrow> (Inl ''serialize'', st)
         | Some line \<Rightarrow>
             if \<not> io_dir io then (Inl ''create_dir_all'', st)
             else if \<not> io_open io then (Inl ''open'', st)
             else
               (let bytes = file_bytes st path in
                if \<not> ends_cleanly bytes \<and> \<not> io_newline io
                then (Inl ''write'', put_file path bytes st)
                else
                  (let bytes = (if ends_cleanly bytes then bytes else bytes @ [NL]) in
                   case io_line io of
                     Some k \<Rightarrow> (Inl ''write'',
                       put_file path (bytes @ take (min k (length line)) (line @ [NL])) st)
                   | None \<Rightarrow>
                       (let st = put_file path (bytes @ line @ [NL]) st in
                        if durability = Synced \<and> \<not> io_sync io then (Inl ''sync_data'', st)
                        else (Inr seq,
                          st\<lparr>fs_counters := AList.update key (seq + 1) (fs_counters st)\<rparr>)))))"

definition file_scan :: "codec \<Rightarrow> file_store \<Rightarrow> string \<Rightarrow> journal_scan" where
  "file_scan cd st key = scan_path cd st (path_for key)"

text \<open>\<open>paths.sort()\<close>: the paths share their directory, so file names are compared bytewise.\<close>

definition file_scan_all :: "codec \<Rightarrow> file_store \<Rightarrow> journal_scan list" where
  "file_scan_all cd st =
     filter (\<lambda>scan. scan_entries scan \<noteq> [] \<or> skipped_lines scan > 0)
       (map (scan_path cd st)
         (sort (filter (\<lambda>name. path_extension name = Some JOURNAL_EXTENSION)
            (map fst (fs_files st)))))"

text \<open>\<open>write_atomic\<close>: the temp file is renamed over the target, or the target is unchanged.\<close>

definition write_atomic :: "io_script \<Rightarrow> string \<Rightarrow> string \<Rightarrow> file_store \<Rightarrow> (io_error + unit) \<times> file_store" where
  "write_atomic io name contents st =
     (if io_dir io \<and> io_replace io then (Inr (), put_file name contents st)
      else (Inl ''rename'', st))"

fun encode_lines :: "codec \<Rightarrow> journal_entry list \<Rightarrow> string option" where
  "encode_lines cd [] = Some []"
| "encode_lines cd (e # es) =
     (case cd_encode cd e of
        None \<Rightarrow> None
      | Some line \<Rightarrow> map_option (\<lambda>rest. line @ [NL] @ rest) (encode_lines cd es))"

text \<open>
  \<open>after == before\<close> is equality here; serde's also identifies \<open>0.0\<close> with \<open>-0.0\<close>, which no
  transformation of the program turns into each other.
\<close>

definition file_rewrite ::
    "codec \<Rightarrow> file_store \<Rightarrow> string \<Rightarrow> (journal_entry list \<Rightarrow> journal_entry list) \<Rightarrow>
     (io_error + unit) \<times> file_store" where
  "file_rewrite cd st key transform =
     (let path = path_for key;
          scan = scan_path cd st path;
          highest = highest_seq (scan_entries scan);
          counter = max (case map_of (fs_counters st) key of None \<Rightarrow> 1 | Some n \<Rightarrow> n) (highest + 1);
          (io, st) = pop_io (st\<lparr>fs_counters := AList.update key counter (fs_counters st)\<rparr>);
          before = scan_entries scan;
          after = transform before
      in if after = before \<and> skipped_lines scan = 0 then (Inr (), st)
         else case encode_lines cd after of
                None \<Rightarrow> (Inl ''serialize'', st)
              | Some contents \<Rightarrow> write_atomic io path contents st)"

definition file_delete :: "file_store \<Rightarrow> string \<Rightarrow> (io_error + unit) \<times> file_store" where
  "file_delete st key =
     (let (io, st) = pop_io st in
      case map_of (fs_files st) (path_for key) of
        None \<Rightarrow> (Inr (), st)
      | Some bytes \<Rightarrow>
          if io_remove io
          then (Inr (), st\<lparr>fs_files := AList.delete (path_for key) (fs_files st)\<rparr>)
          else (Inl ''remove_file'', st))"

definition file_ops :: "codec \<Rightarrow> file_store journal_store" where
  "file_ops cd =
     \<lparr>js_append = file_append cd, js_scan = file_scan cd, js_scan_all = file_scan_all cd,
      js_rewrite = file_rewrite cd, js_delete = file_delete\<rparr>"

lemma file_ops_simps [simp]:
  "js_append (file_ops cd) = file_append cd" "js_scan (file_ops cd) = file_scan cd"
  "js_scan_all (file_ops cd) = file_scan_all cd" "js_rewrite (file_ops cd) = file_rewrite cd"
  "js_delete (file_ops cd) = file_delete"
  by (simp_all add: file_ops_def)

section \<open>What the store relies on from serde_json\<close>

text \<open>
  An entry this version wrote is one non-blank line without line breaks (control characters in
  JSON strings are escaped), it reads back as itself, the field \<open>v\<close> of the text is the entry's
  version, and a proper prefix of it is not a JSON text (it is an object).
\<close>

definition codec_ok :: "codec \<Rightarrow> bool" where
  "codec_ok cd \<longleftrightarrow>
     (\<forall>e line. cd_encode cd e = Some line \<longrightarrow>
        NL \<notin> set line \<and> CR \<notin> set line \<and> trim line \<noteq> [] \<and>
        (\<exists>v. cd_parse cd line = Some v \<and> cd_decode cd v = Some e) \<and>
        (\<forall>k < length line. cd_parse cd (take k line) = None)) \<and>
     (\<forall>v e. cd_decode cd v = Some e \<longrightarrow>
        Option.bind (json_get v ''v'') as_u64 = Some (ucast (entry_v e)))"

lemma codec_okD:
  assumes "codec_ok cd" "cd_encode cd e = Some line"
  shows "NL \<notin> set line" "CR \<notin> set line" "trim line \<noteq> []"
    "k < length line \<Longrightarrow> cd_parse cd (take k line) = None"
  using assms by (auto simp: codec_ok_def)

lemma ucast_version [simp]:
  "(ucast JOURNAL_SCHEMA_VERSION :: u64) < ucast (v :: u32) \<longleftrightarrow> \<not> v \<le> JOURNAL_SCHEMA_VERSION"
  by (simp add: word_less_nat_alt word_le_nat_alt JOURNAL_SCHEMA_VERSION_def unsigned_ucast_eq
      take_bit_nat_eq_self order_less_le_trans [OF unsigned_less] not_le)

lemma parse_line_encode:
  assumes "codec_ok cd" "cd_encode cd e = Some line" "entry_v e \<le> JOURNAL_SCHEMA_VERSION"
  shows "parse_line cd line = Some e"
proof -
  from assms(1,2) obtain v where "cd_parse cd line = Some v" "cd_decode cd v = Some e"
      "Option.bind (json_get v ''v'') as_u64 = Some (ucast (entry_v e))"
    unfolding codec_ok_def by metis
  with assms(3) show ?thesis by (simp add: parse_line_def)
qed

lemma parse_line_readable:
  assumes "codec_ok cd" "parse_line cd line = Some e"
  shows "entry_v e \<le> JOURNAL_SCHEMA_VERSION"
proof -
  from assms(2) obtain v version where "cd_decode cd v = Some e"
      "Option.bind (json_get v ''v'') as_u64 = Some version" "\<not> version > ucast JOURNAL_SCHEMA_VERSION"
    by (auto simp: parse_line_def split: option.splits if_splits)
  moreover from this(1) assms(1) have
    "Option.bind (json_get v ''v'') as_u64 = Some (ucast (entry_v e))"
    unfolding codec_ok_def by blast
  ultimately show ?thesis by (metis ucast_version option.inject)
qed

section \<open>Lines of a concatenation\<close>

lemma split_inclusive_append:
  "ends_cleanly c \<Longrightarrow> split_inclusive (c @ d) = split_inclusive c @ split_inclusive d"
proof (induction c)
  case (Cons x c)
  show ?case
  proof (cases "c = []")
    case True
    with Cons.prems show ?thesis by (simp add: ends_cleanly_def)
  next
    case False
    with Cons.prems have "ends_cleanly c" by (simp add: ends_cleanly_def)
    moreover from False have "split_inclusive c \<noteq> []"
      by (cases c) (auto split: list.splits)
    ultimately show ?thesis using Cons.IH by (cases "split_inclusive c") auto
  qed
qed simp

lemma split_inclusive_piece: "NL \<notin> set l \<Longrightarrow> l \<noteq> [] \<Longrightarrow> split_inclusive l = [l]"
proof (induction l)
  case (Cons x l)
  then show ?case by (cases "l = []") auto
qed simp

lemma split_inclusive_line: "NL \<notin> set l \<Longrightarrow> split_inclusive (l @ NL # d) = (l @ [NL]) # split_inclusive d"
  by (induction l) auto

text \<open>Without a carriage return, a line's text is the line without its newline.\<close>

lemma line_text_line [simp]: "CR \<notin> set l \<Longrightarrow> line_text (l @ [NL]) = l"
  by (auto simp: line_text_def Let_def) (metis last_in_set)

lemma line_text_piece [simp]: "NL \<notin> set l \<Longrightarrow> line_text l = l"
  by (cases l rule: rev_cases) (auto simp: line_text_def)

lemma str_lines_append: "ends_cleanly c \<Longrightarrow> str_lines (c @ d) = str_lines c @ str_lines d"
  by (simp add: str_lines_def split_inclusive_append)

lemma str_lines_line:
  "NL \<notin> set l \<Longrightarrow> CR \<notin> set l \<Longrightarrow> str_lines (l @ NL # d) = l # str_lines d"
  by (simp add: str_lines_def split_inclusive_line)

lemma str_lines_Nil [simp]: "str_lines [] = []"
  by (simp add: str_lines_def)

lemma str_lines_piece: "NL \<notin> set l \<Longrightarrow> str_lines l = (if l = [] then [] else [l])"
  by (simp add: str_lines_def split_inclusive_piece)

text \<open>Terminating a torn tail changes no line.\<close>

lemma torn_tail:
  assumes "\<not> ends_cleanly c"
  obtains c' l where "c = c' @ l" "ends_cleanly c'" "NL \<notin> set l" "l \<noteq> []"
proof
  let ?l = "rev (takeWhile (\<lambda>x. x \<noteq> NL) (rev c))" and ?c = "rev (dropWhile (\<lambda>x. x \<noteq> NL) (rev c))"
  show "c = ?c @ ?l" by (metis rev_append rev_rev_ident takeWhile_dropWhile_id)
  show "ends_cleanly ?c"
    using hd_dropWhile [of "\<lambda>x. x \<noteq> NL" "rev c"] by (auto simp: ends_cleanly_def last_rev)
  show "NL \<notin> set ?l" by (auto dest: set_takeWhileD)
  show "?l \<noteq> []"
    using assms by (cases c rule: rev_cases) (auto simp: ends_cleanly_def)
qed

lemma str_lines_terminate:
  assumes "CR \<notin> set c"
  shows "str_lines (if ends_cleanly c then c else c @ [NL]) = str_lines c"
proof (cases "ends_cleanly c")
  case False
  then obtain c' l where c: "c = c' @ l" "ends_cleanly c'" "NL \<notin> set l" "l \<noteq> []"
    by (rule torn_tail)
  with assms have "CR \<notin> set l" by simp
  with c show ?thesis
    using False by (simp add: str_lines_append str_lines_line str_lines_piece)
qed simp

lemma terminated_clean: "ends_cleanly (if ends_cleanly c then c else c @ [NL])"
  by (simp add: ends_cleanly_def)

section \<open>Entries of a file\<close>

definition text_entries :: "codec \<Rightarrow> string list \<Rightarrow> journal_entry list" where
  "text_entries cd ls = List.map_filter (parse_line cd) (filter (\<lambda>line. trim line \<noteq> []) ls)"

lemma text_entries_simps [simp]:
  "text_entries cd [] = []" "text_entries cd (ls @ ms) = text_entries cd ls @ text_entries cd ms"
  by (simp_all add: text_entries_def)

lemma scan_entries_scan_bytes: "scan_entries (scan_bytes cd bytes) = text_entries cd (str_lines bytes)"
  by (simp add: scan_bytes_def text_entries_def Let_def)

lemma text_entries_encoded:
  "codec_ok cd \<Longrightarrow> cd_encode cd e = Some line \<Longrightarrow> entry_v e \<le> JOURNAL_SCHEMA_VERSION \<Longrightarrow>
   text_entries cd [line] = [e]"
  by (simp add: text_entries_def map_filter_Cons parse_line_encode codec_okD)

lemma text_entries_torn:
  "codec_ok cd \<Longrightarrow> cd_encode cd e = Some line \<Longrightarrow> k < length line \<Longrightarrow>
   text_entries cd [take k line] = []"
  by (simp add: text_entries_def map_filter_Cons parse_line_def codec_okD)

lemma text_entries_readable: "codec_ok cd \<Longrightarrow> readable (text_entries cd ls)"
  by (auto simp: text_entries_def readable_def set_map_filter dest: parse_line_readable)

text \<open>The entries after the bytes of a failed or completed line write.\<close>

lemma bytes_entries_append:
  assumes "codec_ok cd" "cd_encode cd e = Some line" "entry_v e \<le> JOURNAL_SCHEMA_VERSION"
    and "CR \<notin> set c"
  defines "c1 \<equiv> (if ends_cleanly c then c else c @ [NL])"
  shows "text_entries cd (str_lines (c1 @ line @ [NL])) = text_entries cd (str_lines c) @ [e]"
    and "text_entries cd (str_lines (c1 @ take (min k (length line)) (line @ [NL]))) =
      text_entries cd (str_lines c) @ (if k < length line then [] else [e])"
    and "text_entries cd (str_lines c1) = text_entries cd (str_lines c)"
proof -
  note line = codec_okD [OF assms(1,2)]
  have clean: "ends_cleanly c1" and same: "str_lines c1 = str_lines c"
    unfolding c1_def by (rule terminated_clean, rule str_lines_terminate [OF assms(4)])
  show "text_entries cd (str_lines c1) = text_entries cd (str_lines c)" by (simp add: same)
  show "text_entries cd (str_lines (c1 @ line @ [NL])) = text_entries cd (str_lines c) @ [e]"
    using text_entries_encoded [OF assms(1-3)]
    by (simp add: str_lines_append [OF clean] same str_lines_line line)
  show "text_entries cd (str_lines (c1 @ take (min k (length line)) (line @ [NL]))) =
      text_entries cd (str_lines c) @ (if k < length line then [] else [e])"
  proof (cases "k < length line")
    case True
    have "NL \<notin> set (take k line)" using line(1) by (auto dest: in_set_takeD)
    with True text_entries_torn [OF assms(1,2) True] show ?thesis
      by (simp add: str_lines_append [OF clean] same str_lines_piece)
  next
    case False
    have "line \<noteq> []" using line(3) by auto
    with False text_entries_encoded [OF assms(1-3)] line(1) show ?thesis
      by (simp add: str_lines_append [OF clean] same str_lines_piece)
  qed
qed

lemma encode_lines_entries:
  "codec_ok cd \<Longrightarrow> readable es \<Longrightarrow> encode_lines cd es = Some contents \<Longrightarrow>
   text_entries cd (str_lines contents) = es \<and> CR \<notin> set contents"
proof (induction es arbitrary: contents)
  case (Cons e es)
  then obtain line rest where l: "cd_encode cd e = Some line" "encode_lines cd es = Some rest"
      "contents = line @ NL # rest"
    by (auto split: option.splits)
  note line = codec_okD [OF Cons.prems(1) l(1)]
  have "text_entries cd (str_lines contents) = text_entries cd [line] @ text_entries cd (str_lines rest)"
    unfolding l(3) str_lines_line [OF line(1,2)]
    by (metis append_Cons append_Nil text_entries_simps(2))
  moreover have "CR \<noteq> NL" by (simp add: CR_def NL_def)
  ultimately show ?case
    using Cons l line text_entries_encoded [OF Cons.prems(1) l(1)] by auto
qed simp

section \<open>The store keeps the promises of the trait\<close>

definition file_inv :: "file_store \<Rightarrow> bool" where
  "file_inv st \<longleftrightarrow> (\<forall>key. CR \<notin> set (file_bytes st (path_for key)))"

lemma file_inv_empty: "file_inv \<lparr>fs_files = [], fs_counters = [], fs_io = io\<rparr>"
  by (simp add: file_inv_def file_bytes_def)

lemma scan_entries_scan_path:
  "scan_entries (scan_path cd st name) = text_entries cd (str_lines (file_bytes st name))"
  by (simp add: scan_path_def file_bytes_def scan_entries_scan_bytes split: option.splits)

lemma file_bytes_put [simp]:
  "file_bytes (put_file name bytes st) name' = (if name' = name then bytes else file_bytes st name')"
  by (simp add: file_bytes_def put_file_def)

lemma put_file_other [simp]:
  "name' \<noteq> name \<Longrightarrow> map_of (fs_files (put_file name bytes st)) name' = map_of (fs_files st) name'"
  by (simp add: put_file_def)

lemma pop_io_same:
  "pop_io st = (io, st') \<Longrightarrow> fs_files st' = fs_files st \<and> fs_counters st' = fs_counters st"
  by (auto simp: pop_io_def split: list.splits)

lemma scan_path_cong: "map_of (fs_files st') name = map_of (fs_files st) name \<Longrightarrow>
  scan_path cd st' name = scan_path cd st name"
  by (simp add: scan_path_def)

lemma file_bytes_cong: "fs_files st' = fs_files st \<Longrightarrow> file_bytes st' = file_bytes st"
  by (simp add: file_bytes_def fun_eq_iff)

lemma path_for_slot: "path_for k' = path_for k \<longleftrightarrow> safe_filename k' = safe_filename k"
  by (simp add: path_for_def)

text \<open>Every way an append can go, as the bytes it leaves.\<close>

lemma file_append_cases:
  assumes "file_append cd st key now r d = (res, st')"
  defines "c \<equiv> file_bytes st (path_for key)"
  defines "c1 \<equiv> (if ends_cleanly c then c else c @ [NL])"
  obtains (early) err where "res = Inl err" "fs_files st' = fs_files st"
      "fs_counters st' = fs_counters st" "err \<noteq> ''sync_data''"
  | (opened) err where "res = Inl err" "fs_files st' = AList.update (path_for key) c (fs_files st)"
      "fs_counters st' = fs_counters st" "err \<noteq> ''sync_data''"
  | (torn) line k where "res = Inl ''write''"
      "cd_encode cd (new_entry now (next_seq cd st key) r) = Some line"
      "fs_files st' = AList.update (path_for key) (c1 @ take (min k (length line)) (line @ [NL])) (fs_files st)"
      "fs_counters st' = fs_counters st"
  | (unsynced) line where "res = Inl ''sync_data''" "d = Synced"
      "cd_encode cd (new_entry now (next_seq cd st key) r) = Some line"
      "fs_files st' = AList.update (path_for key) (c1 @ line @ [NL]) (fs_files st)"
      "fs_counters st' = fs_counters st"
  | (written) line where "res = Inr (next_seq cd st key)"
      "cd_encode cd (new_entry now (next_seq cd st key) r) = Some line"
      "fs_files st' = AList.update (path_for key) (c1 @ line @ [NL]) (fs_files st)"
      "fs_counters st' = AList.update key (next_seq cd st key + 1) (fs_counters st)"
proof -
  obtain io st1 where pop: "pop_io st = (io, st1)" by (cases "pop_io st")
  note same = pop_io_same [OF pop]
  have c: "file_bytes st1 (path_for key) = c" using same by (simp add: c_def file_bytes_def)
  from assms(1) same show ?thesis
    unfolding file_append_def pop Let_def prod.case c c1_def [symmetric]
    by (auto simp: put_file_def split: option.splits if_splits
        intro: early opened torn unsynced written)
qed

lemma file_bytes_update:
  "fs_files st' = AList.update name bytes (fs_files st) \<Longrightarrow>
   file_bytes st' name' = (if name' = name then bytes else file_bytes st name')"
  by (simp add: file_bytes_def)

lemma file_append_frame:
  assumes "file_append cd st key now r d = (res, st')" "safe_filename key' \<noteq> safe_filename key"
  shows "file_scan cd st' key' = file_scan cd st key'"
  using assms(1)
  by (rule file_append_cases)
    (use assms(2) in \<open>auto simp: file_scan_def path_for_slot intro!: scan_path_cong\<close>)

lemma file_append_inv:
  assumes "codec_ok cd" "file_inv st" "file_append cd st key now r d = (res, st')"
  shows "file_inv st'"
proof -
  have cr: "CR \<noteq> NL" by (simp add: CR_def NL_def)
  have c: "CR \<notin> set (file_bytes st (path_for key'))" for key' using assms(2) by (simp add: file_inv_def)
  have upd: "file_inv st'" if "fs_files st' = AList.update (path_for key) bytes (fs_files st)"
      and "CR \<notin> set bytes" for bytes
    using that c by (simp add: file_inv_def file_bytes_update)
  from assms(3) show ?thesis
  proof (cases rule: file_append_cases)
    case early
    then show ?thesis using assms(2) by (simp add: file_inv_def file_bytes_cong [OF early(2)])
  next
    case opened
    from upd [OF opened(2)] c show ?thesis by blast
  next
    case (torn line k)
    from codec_okD(2) [OF assms(1) torn(2)] c cr show ?thesis
      by (intro upd [OF torn(3)]) (auto dest: in_set_takeD)
  next
    case (unsynced line)
    from codec_okD(2) [OF assms(1) unsynced(3)] c cr show ?thesis by (intro upd [OF unsynced(4)]) simp
  next
    case (written line)
    from codec_okD(2) [OF assms(1) written(2)] c cr show ?thesis by (intro upd [OF written(3)]) simp
  qed
qed

lemma file_append_entries:
  assumes cd: "codec_ok cd" and inv: "file_inv st"
    and run: "file_append cd st key now r d = (res, st')"
  shows "case res of
      Inr m \<Rightarrow> m = next_seq cd st key \<and> next_seq cd st' key = Suc (next_seq cd st key) \<and>
        scan_entries (file_scan cd st' key) =
        scan_entries (file_scan cd st key) @ [new_entry now (next_seq cd st key) r]
    | Inl err \<Rightarrow>
        scan_entries (file_scan cd st' key) = scan_entries (file_scan cd st key) \<or>
        scan_entries (file_scan cd st' key) =
        scan_entries (file_scan cd st key) @ [new_entry now (next_seq cd st key) r]"
proof -
  have v: "entry_v (new_entry now (next_seq cd st key) r) \<le> JOURNAL_SCHEMA_VERSION" by simp
  have c: "CR \<notin> set (file_bytes st (path_for key))" using inv by (simp add: file_inv_def)
  note app = bytes_entries_append [OF cd _ v c]
  note scans = file_scan_def scan_entries_scan_path
  from run show ?thesis
  proof (cases rule: file_append_cases)
    case early
    then show ?thesis unfolding scans by (simp add: file_bytes_cong [OF early(2)])
  next
    case opened
    then show ?thesis unfolding scans by (simp add: file_bytes_update [OF opened(2)])
  next
    case (torn line k)
    from app(2) [OF torn(2), of k] show ?thesis
      unfolding scans by (simp add: torn(1) file_bytes_update [OF torn(3)])
  next
    case (unsynced line)
    from app(1) [OF unsynced(3)] show ?thesis
      unfolding scans by (simp add: unsynced(1) file_bytes_update [OF unsynced(4)])
  next
    case (written line)
    from app(1) [OF written(2)] show ?thesis
      unfolding scans by (simp add: written(1) written(4) next_seq_def file_bytes_update [OF written(3)])
  qed
qed

section \<open>Rewriting and deleting\<close>

lemma file_rewrite_cases:
  assumes "file_rewrite cd st key f = (res, st')"
  defines "es \<equiv> scan_entries (file_scan cd st key)"
  obtains (unchanged) "res = Inr ()" "f es = es" "fs_files st' = fs_files st"
  | (failed) err where "res = Inl err" "fs_files st' = fs_files st"
  | (replaced) contents where "res = Inr ()" "encode_lines cd (f es) = Some contents"
      "fs_files st' = AList.update (path_for key) contents (fs_files st)"
proof -
  let ?st = "st\<lparr>fs_counters := AList.update key
      (max (case map_of (fs_counters st) key of None \<Rightarrow> 1 | Some n \<Rightarrow> n)
        (highest_seq (scan_entries (scan_path cd st (path_for key))) + 1)) (fs_counters st)\<rparr>"
  obtain io st1 where pop: "pop_io ?st = (io, st1)" by (cases "pop_io ?st")
  have "fs_files st1 = fs_files st" using pop_io_same [OF pop] by simp
  with assms(1) show ?thesis
    unfolding file_rewrite_def Let_def pop prod.case es_def file_scan_def
    by (auto simp: write_atomic_def put_file_def split: option.splits if_splits
        intro: unchanged [unfolded es_def file_scan_def] failed
          replaced [unfolded es_def file_scan_def])
qed

lemma file_rewrite_counter:
  assumes "file_rewrite cd st key f = (res, st')"
  shows "fs_counters st' = AList.update key (max (case map_of (fs_counters st) key of None \<Rightarrow> 1 | Some n \<Rightarrow> n)
    (highest_seq (scan_entries (file_scan cd st key)) + 1)) (fs_counters st)"
proof -
  let ?st = "st\<lparr>fs_counters := AList.update key
      (max (case map_of (fs_counters st) key of None \<Rightarrow> 1 | Some n \<Rightarrow> n)
        (highest_seq (scan_entries (scan_path cd st (path_for key))) + 1)) (fs_counters st)\<rparr>"
  obtain io st1 where pop: "pop_io ?st = (io, st1)" by (cases "pop_io ?st")
  have "fs_counters st1 = fs_counters ?st" using pop_io_same [OF pop] by simp
  with assms show ?thesis
    unfolding file_rewrite_def Let_def pop prod.case file_scan_def
    by (auto simp: write_atomic_def put_file_def split: option.splits if_splits)
qed

lemma file_delete_cases:
  assumes "file_delete st key = (res, st')"
  obtains (failed) err where "res = Inl err" "fs_files st' = fs_files st"
  | (removed) "res = Inr ()" "map_of (fs_files st') (path_for key) = None"
      "\<And>name. name \<noteq> path_for key \<Longrightarrow> map_of (fs_files st') name = map_of (fs_files st) name"
proof -
  obtain io st1 where pop: "pop_io st = (io, st1)" by (cases "pop_io st")
  from pop_io_same [OF pop] have "fs_files st1 = fs_files st" by simp
  with assms show ?thesis unfolding file_delete_def pop Let_def prod.case
    by (auto split: option.splits if_splits intro: failed removed)
qed

lemma file_rewrite_entries:
  assumes "codec_ok cd" "file_rewrite cd st key f = (res, st')"
    and "readable (f (scan_entries (file_scan cd st key)))"
  shows "scan_entries (file_scan cd st' key) =
    (case res of Inr u \<Rightarrow> f (scan_entries (file_scan cd st key))
     | Inl err \<Rightarrow> scan_entries (file_scan cd st key))"
  using assms(2)
proof (cases rule: file_rewrite_cases)
  case unchanged
  then show ?thesis by (simp add: file_scan_def scan_entries_scan_path file_bytes_cong [OF unchanged(3)])
next
  case failed
  then show ?thesis by (simp add: file_scan_def scan_entries_scan_path file_bytes_cong [OF failed(2)])
next
  case (replaced contents)
  from encode_lines_entries [OF assms(1,3) replaced(2)] show ?thesis
    by (simp add: replaced(1) file_scan_def scan_entries_scan_path file_bytes_update [OF replaced(3)])
qed

lemma file_rewrite_inv:
  assumes "codec_ok cd" "file_inv st" "file_rewrite cd st key f = (res, st')"
    and "readable (f (scan_entries (file_scan cd st key)))"
  shows "file_inv st'"
  using assms(3)
proof (cases rule: file_rewrite_cases)
  case unchanged
  with assms(2) show ?thesis by (simp add: file_inv_def file_bytes_cong [OF unchanged(3)])
next
  case failed
  with assms(2) show ?thesis by (simp add: file_inv_def file_bytes_cong [OF failed(2)])
next
  case (replaced contents)
  from encode_lines_entries [OF assms(1,4) replaced(2)] assms(2) show ?thesis
    by (simp add: file_inv_def file_bytes_update [OF replaced(3)])
qed

lemma file_rewrite_frame:
  assumes "file_rewrite cd st key f = (res, st')" "safe_filename key' \<noteq> safe_filename key"
  shows "file_scan cd st' key' = file_scan cd st key'"
  using assms(1)
  by (rule file_rewrite_cases)
    (use assms(2) in \<open>auto simp: file_scan_def path_for_slot intro!: scan_path_cong\<close>)

lemma file_rewrite_number:
  assumes "file_rewrite cd st key f = (res, st')"
  shows "next_seq cd st key \<le> next_seq cd st' key"
  unfolding next_seq_def file_rewrite_counter [OF assms]
  by (simp add: file_scan_def split: option.splits)

lemma file_delete_inv:
  assumes "file_inv st" "file_delete st key = (res, st')"
  shows "file_inv st'"
  using assms(2)
proof (cases rule: file_delete_cases)
  case failed
  with assms(1) show ?thesis by (simp add: file_inv_def file_bytes_cong [OF failed(2)])
next
  case removed
  have "file_bytes st' name = (if name = path_for key then [] else file_bytes st name)" for name
    using removed(2,3) by (simp add: file_bytes_def)
  with assms(1) show ?thesis by (simp add: file_inv_def)
qed

lemma file_delete_entries:
  assumes "file_delete st key = (Inr u, st')" "safe_filename key' = safe_filename key"
  shows "scan_entries (file_scan cd st' key') = []"
  using assms(1)
  by (rule file_delete_cases)
    (use assms(2) in \<open>simp_all add: file_scan_def scan_path_def path_for_def\<close>)

lemma file_delete_frame:
  assumes "file_delete st key = (res, st')" "safe_filename key' \<noteq> safe_filename key"
  shows "file_scan cd st' key' = file_scan cd st key'"
  using assms(1)
  by (rule file_delete_cases)
    (use assms(2) in \<open>auto simp: file_scan_def path_for_slot intro!: scan_path_cong\<close>)

text \<open>Assumption by assumption; \<open>file_laws\<close> is what clients instantiate \<open>journal_laws\<close> with.\<close>

lemma file_laws:
  assumes "codec_ok cd"
  shows "journal_laws (file_ops cd) file_inv safe_filename (next_seq cd)"
proof (unfold_locales, unfold file_ops_simps)
  show "file_scan cd st key' = file_scan cd st key" if "safe_filename key' = safe_filename key" for st key key'
    using that by (simp add: file_scan_def path_for_def)
  show "readable (scan_entries (file_scan cd st key))" for st key
    by (simp add: file_scan_def scan_entries_scan_path text_entries_readable [OF assms])
  show "file_inv st'" if "file_inv st" "file_append cd st key now r d = (res, st')"
    for st key now r d res st' using file_append_inv [OF assms that] .
  show "n = next_seq cd st key \<and> next_seq cd st' key = Suc n \<and>
      scan_entries (file_scan cd st' key) = scan_entries (file_scan cd st key) @ [new_entry now n r]"
    if "file_inv st" "file_append cd st key now r d = (Inr n, st')" for st key now r d n st'
    using file_append_entries [OF assms that] by auto
  show "scan_entries (file_scan cd st' key) = scan_entries (file_scan cd st key) \<or>
      scan_entries (file_scan cd st' key) =
      scan_entries (file_scan cd st key) @ [new_entry now (next_seq cd st key) r]"
    if "file_inv st" "file_append cd st key now r d = (Inl err, st')" for st key now r d err st'
    using file_append_entries [OF assms that] by simp
  show "file_inv st'" if "file_inv st" "file_rewrite cd st key f = (wres, st')"
      "readable (f (scan_entries (file_scan cd st key)))" for st key f wres st'
    using file_rewrite_inv [OF assms that] .
  show "scan_entries (file_scan cd st' key) = f (scan_entries (file_scan cd st key))"
    if "file_inv st" "file_rewrite cd st key f = (Inr u, st')"
      "readable (f (scan_entries (file_scan cd st key)))" for st key f u st'
    using file_rewrite_entries [OF assms that(2,3)] by simp
  show "scan_entries (file_scan cd st' key) = scan_entries (file_scan cd st key)"
    if "file_inv st" "file_rewrite cd st key f = (Inl err, st')" for st key f err st'
    using that(2) by (rule file_rewrite_cases)
      (simp_all add: file_scan_def scan_entries_scan_path file_bytes_def)
qed (auto intro: file_append_frame file_rewrite_frame file_rewrite_number file_delete_inv
    file_delete_entries file_delete_frame)

section \<open>A concrete codec\<close>

text \<open>
  Not serde's: an instance of \<open>codec_ok\<close> on which the results below are evaluated.  It writes
  the entries of one record kind, with the sequence number in unary.
\<close>

definition unary_encode :: "journal_entry \<Rightarrow> string option" where
  "unary_encode e =
     (if e = new_entry [] (entry_seq e) (TurnRestored [])
      then Some (''{'' @ replicate (entry_seq e) (CHR ''1'') @ ''}'') else None)"

definition unary_parse :: "string \<Rightarrow> json option" where
  "unary_parse line =
     (if line = ''{'' @ replicate (length line - 2) (CHR ''1'') @ ''}''
      then Some (JObject [(''v'', JNumber (PosInt 1)), (''seq'', JArray (replicate (length line - 2) JNull))])
      else None)"

definition unary_decode :: "json \<Rightarrow> journal_entry option" where
  "unary_decode v =
     (case (json_get v ''v'', json_get v ''seq'') of
        (Some (JNumber (PosInt n)), Some (JArray xs)) \<Rightarrow>
          if n = 1 then Some (new_entry [] (length xs) (TurnRestored [])) else None
      | _ \<Rightarrow> None)"

definition unary_codec :: codec where
  "unary_codec = \<lparr>cd_encode = unary_encode, cd_parse = unary_parse, cd_decode = unary_decode\<rparr>"

lemma unary_codec_simps [simp]:
  "cd_encode unary_codec = unary_encode" "cd_parse unary_codec = unary_parse"
  "cd_decode unary_codec = unary_decode"
  by (simp_all add: unary_codec_def)

lemma strip_front_stop: "List.find (\<lambda>w. prefix w s) ws = None \<Longrightarrow> strip_front ws n s = s"
  by (cases n) auto

lemma trim_braces: "trim (CHR ''{'' # s @ ''}'') = CHR ''{'' # s @ ''}''"
proof -
  have a: "List.find (\<lambda>w. prefix w (CHR ''{'' # t)) white_chars = None" for t
    by (simp add: white_chars_def white_bytes_def upt_rec char_of_def)
  have b: "List.find (\<lambda>w. prefix w (CHR ''}'' # t)) (map rev white_chars) = None" for t
    by (simp add: white_chars_def white_bytes_def upt_rec char_of_def)
  show ?thesis unfolding trim_def trim_start_def trim_end_def
    by (simp add: strip_front_stop a b)
qed

lemma unary_torn: "k < n + 2 \<Longrightarrow> unary_parse (take k (''{'' @ replicate n (CHR ''1'') @ ''}'')) = None"
proof -
  assume k: "k < n + 2"
  have "last (take k (''{'' @ replicate n (CHR ''1'') @ ''}'')) \<noteq> CHR ''}''" if "k \<noteq> 0"
  proof -
    from k that have "take k (''{'' @ replicate n (CHR ''1'') @ ''}'') =
        CHR ''{'' # replicate (k - 1) (CHR ''1'')"
      by (cases k) auto
    then show ?thesis by (simp add: last_replicate)
  qed
  moreover have "line \<noteq> ''{'' @ xs @ ''}''" if "line = [] \<or> last line \<noteq> CHR ''}''" for line xs
    using that by auto
  ultimately show ?thesis unfolding unary_parse_def by (cases "k = 0") auto
qed

lemma unary_codec_ok: "codec_ok unary_codec"
proof -
  have "NL \<notin> set line \<and> CR \<notin> set line \<and> trim line \<noteq> [] \<and>
      (\<exists>v. unary_parse line = Some v \<and> unary_decode v = Some e) \<and>
      (\<forall>k < length line. unary_parse (take k line) = None)"
    if "unary_encode e = Some line" for e line
  proof -
    from that have e: "e = new_entry [] (entry_seq e) (TurnRestored [])"
      and line: "line = ''{'' @ replicate (entry_seq e) (CHR ''1'') @ ''}''"
      by (auto simp: unary_encode_def split: if_splits)
    have "unary_decode (JObject [(''v'', JNumber (PosInt 1)),
        (''seq'', JArray (replicate (entry_seq e) JNull))]) = Some e"
      using e by (simp add: unary_decode_def)
    then show ?thesis
      using unary_torn [of _ "entry_seq e"] trim_braces unfolding line
      by (simp add: unary_parse_def NL_def CR_def)
  qed
  moreover have "Option.bind (json_get v ''v'') as_u64 = Some (ucast (entry_v e))"
    if "unary_decode v = Some e" for v e
    using that
    by (auto simp: unary_decode_def JOURNAL_SCHEMA_VERSION_def
        split: option.splits json.splits json_number.splits if_splits)
  ultimately show ?thesis unfolding codec_ok_def by simp
qed

end
