(* ===== verification/Journal_Defects.thy ===== *)
theory Journal_Defects
  imports Agent_Durability Journal_File
begin

text \<open>
  Where the durability code does not do what its documentation says, as theorems about the same
  definitions: pruning before the request is marked done, renumbered inbox records, sequence
  numbers after a failed sync, and session keys that share a journal file.
\<close>

section \<open>Pruning before the ledger is closed\<close>

text \<open>
  \<open>docs/DURABILITY.md\<close>: no message gets a second model turn.  \<open>run_agent_loop\<close> prunes the ended
  turn's records before \<open>dispatch\<close> marks its request done; a crash in between leaves an
  unfinished request without any turn, which startup feeds to the agent again.
\<close>

lemma turns_of_keep:
  assumes "\<forall>t \<in> set (turns_of es r). t \<notin> K"
  shows "turns_of (keep_turns K es) r = []"
proof -
  have "turn_of_request r e = None" if e: "e \<in> set (keep_turns K es)" for e
  proof (rule ccontr)
    assume "turn_of_request r e \<noteq> None"
    then obtain t where t: "turn_of_request r e = Some t" by blast
    then have "start_id e = Some t"
      by (auto simp: turn_of_request_def start_id_def split: journal_record.splits option.splits if_splits)
    with e kept_iff(1) [of e t K] have "t \<in> K" by simp
    moreover have "t \<in> set (turns_of es r)" using t e by (auto simp: turns_of_def set_map_filter)
    ultimately show False using assms by blast
  qed
  then show ?thesis by (simp add: turns_of_def map_filter_Nil_iff)
qed

lemma settled_has_ended: "t \<in> set (settled es) \<Longrightarrow> has_ended es t"
proof -
  assume "t \<in> set (settled es)"
  then obtain e where e: "e \<in> set es" "settled_id e = Some t" by (auto simp: set_map_filter)
  then show ?thesis unfolding has_ended_def
    by (intro bexI [OF _ e(1)]) (cases "entry_record e"; simp add: settled_id_def split: if_splits)
qed

lemma fold_keep: "fold_entries (keep_turns K es) = fold_entries es"
proof (induction es rule: rev_induct)
  case (snoc e es)
  show ?case
  proof (cases "is_prunable_given K e")
    case True
    then have "\<not> is_inbox e" by (auto simp: is_prunable_given_def is_inbox_def split: journal_record.splits)
    with snoc True show ?thesis by (simp add: fold_entries_def fold_entry_other)
  next
    case False
    with snoc show ?thesis by (simp add: fold_entries_def)
  qed
qed (simp add: fold_entries_def)

context journal_laws
begin

lemma prune_reopens_request:
  assumes inv: "inv st" and prune: "prune_journal ops rj st = (Inr n, st')"
  defines "old \<equiv> scan_entries (rj_scan ops rj st)" and "new \<equiv> scan_entries (rj_scan ops rj st')"
  assumes pending: "entry \<in> set (fold_entries old)" "ib_state entry \<noteq> InboxDone" "ib_message entry \<noteq> None"
    and ended: "turns_of old (ib_request_id entry) \<noteq> []"
      "\<forall>t \<in> set (turns_of old (ib_request_id entry)). t \<in> set (settled old)"
  shows "Close entry \<in> set (plan_redrive old)" "Redrive entry \<in> set (plan_redrive new)"
proof -
  have new: "new = keep_turns (open_turn_ids old) old"
    unfolding new_def old_def using prune_journal_entries [OF inv prune] .
  have "redrive_action_for old entry = Close entry"
    using ended settled_has_ended by (simp add: redrive_action_for_def)
  then show "Close entry \<in> set (plan_redrive old)"
    using pending unfolding plan_redrive_def by force
  have "turns_of new (ib_request_id entry) = []"
    unfolding new by (rule turns_of_keep) (use ended in \<open>simp add: open_turn_ids_eq\<close>)
  then have "redrive_action_for new entry = Redrive entry"
    using pending(3) by (simp add: redrive_action_for_def)
  moreover have "fold_entries new = fold_entries old" unfolding new by (rule fold_keep)
  ultimately show "Redrive entry \<in> set (plan_redrive new)"
    using pending unfolding plan_redrive_def by force
qed

end

section \<open>Renumbered inbox records\<close>

text \<open>
  Compaction numbers the retained requests from the highest number of the other records, past
  the next number of the store: an append then repeats a number that is in use.
\<close>

lemma renumber_seq: "map entry_seq (renumber n keep) = [n..<n + length keep]"
proof (induction keep arbitrary: n)
  case (Cons entry keep)
  then show ?case by (simp add: upt_conv_Cons del: upt_Suc)
qed simp

lemma compact_takes_next_number:
  assumes "ledger_compact memory_ops parse_ts rj now ttl m st = (res, st')"
  defines "es \<equiv> scan_entries (rj_scan memory_ops rj st)"
    and "es' \<equiv> scan_entries (rj_scan memory_ops rj st')"
  defines "last_seq \<equiv> fold max (map entry_seq (filter (\<lambda>e. \<not> is_inbox e) es)) 0"
    and "kept \<equiv> length (retained_entries parse_ts (fold_entries es) now ttl m)"
  assumes "last_seq < n" "n \<le> last_seq + kept"
    and append: "rj_append memory_ops rj ts r st' = (Inr n, st'')"
  shows "\<not> distinct (map entry_seq (scan_entries (rj_scan memory_ops rj st'')))"
proof -
  have es': "es' = compact_entries parse_ts now ttl m es"
    using assms(1) by (auto simp: es_def es'_def ledger_compact_def rj_rewrite_def rj_scan_def
        mem_rewrite_def Let_def)
  have "n \<in> set (map entry_seq es')"
    using assms(6,7) unfolding es' compact_entries_def Let_def map_append renumber_seq
    by (auto simp: last_seq_def kept_def simp del: upt_Suc)
  moreover have "scan_entries (rj_scan memory_ops rj st'') = es' @ [new_entry ts n r]"
    using append by (auto simp: es'_def rj_append_def rj_scan_def mem_append_def Let_def)
  ultimately show ?thesis by auto
qed

section \<open>A number is reused after a failed sync\<close>

text \<open>The record of an append whose \<open>sync_data\<close> fails stays, and the next append repeats its number.\<close>

lemma failed_sync_repeats_number:
  assumes cd: "codec_ok cd" "file_inv st"
    and counter: "map_of (fs_counters st) key = Some n"
    and first: "file_append cd st key now r Synced = (Inl ''sync_data'', st')"
    and second: "file_append cd st' key now' r' d = (Inr m, st'')"
  shows "m = n" and "scan_entries (file_scan cd st'' key) =
    scan_entries (file_scan cd st key) @ [new_entry now n r, new_entry now' n r']"
proof -
  have n: "next_seq cd st key = n" using counter by (simp add: next_seq_def)
  have "scan_entries (file_scan cd st' key) = scan_entries (file_scan cd st key) @ [new_entry now n r] \<and>
      fs_counters st' = fs_counters st"
    using first
  proof (cases rule: file_append_cases)
    case (unsynced line)
    have v: "entry_v (new_entry now (next_seq cd st key) r) \<le> JOURNAL_SCHEMA_VERSION" by simp
    have c: "CR \<notin> set (file_bytes st (path_for key))" using cd(2) by (simp add: file_inv_def)
    from bytes_entries_append(1) [OF cd(1) unsynced(3) v c] show ?thesis
      by (simp add: file_scan_def scan_entries_scan_path file_bytes_update [OF unsynced(4)] unsynced(5) n)
  qed auto
  then show "m = n" and "scan_entries (file_scan cd st'' key) =
    scan_entries (file_scan cd st key) @ [new_entry now n r, new_entry now' n r']"
    using file_append_entries [OF cd(1) file_append_inv [OF cd first] second] counter
    by (auto simp: next_seq_def)
qed

section \<open>Session keys that share a file\<close>

text \<open>"One journal per session key": two keys with one safe file name have one journal.\<close>

lemma shared_journal_delete:
  assumes "safe_filename key' = safe_filename key" "file_delete st key = (Inr u, st')"
  shows "scan_entries (file_scan cd st' key') = []"
  using file_delete_entries [OF assms(2,1)] .

lemma shared_journal_append:
  assumes "codec_ok cd" "file_inv st" "safe_filename key' = safe_filename key"
    and "file_append cd st key now r d = (Inr n, st')"
  shows "scan_entries (file_scan cd st' key') = scan_entries (file_scan cd st key') @ [new_entry now n r]"
proof -
  have "file_scan cd s key' = file_scan cd s key" for s
    using assms(3) by (simp add: file_scan_def path_for_def)
  then show ?thesis using file_append_entries [OF assms(1,2,4)] by simp
qed

text \<open>Two sessions take turns: once both counters are in memory they hand out one number twice.\<close>

lemma shared_journal_repeats:
  assumes "codec_ok cd" "file_inv st" "safe_filename key' = safe_filename key" "key' \<noteq> key"
    and counters: "map_of (fs_counters st) key = Some n" "map_of (fs_counters st) key' = Some n"
    and "file_append cd st key now r d = (Inr m, st')"
    and "file_append cd st' key' now' r' d' = (Inr m', st'')"
  shows "m = n" "m' = n" "scan_entries (file_scan cd st'' key) =
    scan_entries (file_scan cd st key) @ [new_entry now n r, new_entry now' n r']"
proof -
  have same: "file_scan cd s key' = file_scan cd s key" for s
    using assms(3) by (simp add: file_scan_def path_for_def)
  have next0: "next_seq cd st key = n" using counters by (simp add: next_seq_def)
  note one = file_append_entries [OF assms(1,2,7)]
  have "fs_counters st' = AList.update key (n + 1) (fs_counters st)"
    using assms(7) by (rule file_append_cases) (simp_all add: next0)
  then have next1: "next_seq cd st' key' = n" using counters(2) assms(4) by (simp add: next_seq_def)
  note two = file_append_entries [OF assms(1) file_append_inv [OF assms(1,2,7)] assms(8)]
  show "m = n" "m' = n" "scan_entries (file_scan cd st'' key) =
    scan_entries (file_scan cd st key) @ [new_entry now n r, new_entry now' n r']"
    using one two next0 next1 same by auto
qed

end
