(* ===== verification/Examples.thy ===== *)
theory Examples
  imports Pipeline_Laws Tool_Schema Inbox_Laws Agent_Durability Journal_Defects
begin

text \<open>
  Concrete inputs on which the results of the development are instantiated: a counting tool, its
  registry, a run on the in-memory store in strict mode, and small journals.
\<close>

section \<open>A run of the pipeline\<close>

definition ex_tool :: "nat tool" where
  "ex_tool = \<lparr>tl_name = ''note'', tl_description = ''take a note'', tl_parameters = JObject [],
     tl_run = (\<lambda>identity limit params n. (Finished (tool_result_ok ''saved''), n + 1)),
     tl_cast = (\<lambda>v. v), tl_validate = (\<lambda>v. []), tl_read_only = False, tl_exclusive = False,
     tl_replay_safe = False, tl_exempt = False, tl_exposure = Direct, tl_server = None\<rparr>"

definition ex_registry :: "nat registry" where
  "ex_registry = register ex_tool registry_new"

definition ex_turn :: turn_journal where
  "ex_turn = \<lparr>tj_turn_id = ''t1'', tj_mode = Strict\<rparr>"

definition ex_hook :: "unit agent_hook" where
  "ex_hook = \<lparr>hk_authorize = (\<lambda>request h. (if ar_tool_name request = ''note'' then Some AllowCall
       else Some (DenyCall ''no''), h)),
     hk_after = (\<lambda>view h. (Some \<lparr>pd_replacement = None, pd_block_reason = None, pd_added_context = []\<rparr>, h)),
     hk_on_result = (\<lambda>event h. h)\<rparr>"

definition ex_deny_hook :: "unit agent_hook" where
  "ex_deny_hook = ex_hook\<lparr>hk_authorize := (\<lambda>request h. (Some (DenyCall ''no''), h))\<rparr>"

definition ex_spec :: "(nat, unit) run_spec" where
  "ex_spec = \<lparr>sp_tools = ex_registry, sp_max_tool_result_chars = 0, sp_hook = Some ex_hook,
     sp_fail_on_tool_error = False, sp_workspace = None, sp_session_key = Some ''cli:x'',
     sp_channel = Some ''cli'', sp_chat_id = Some ''x'', sp_journal = Some ex_turn,
     sp_tool_timeout = None\<rparr>"

definition ex_env :: pipe_env where
  "ex_env = \<lparr>pe_now = ''now'', pe_lower = (\<lambda>s. s), pe_log_warn = True, pe_parse = (\<lambda>s. None),
     pe_show = (\<lambda>v. []), pe_pretty = (\<lambda>v. []), pe_show_secs = show_nat, pe_elapsed_ms = 1\<rparr>"

definition ex_state :: "(nat, unit, memory_store) pipe_state" where
  "ex_state = \<lparr>ps_world = 0, ps_hook = (), ps_journal = (rj_new ''cli:x'', []),
     ps_breaker = breaker_new 5, ps_counts = [], ps_counts_poisoned = False, ps_result_files = []\<rparr>"

definition ex_call :: tool_call_request where
  "ex_call = \<lparr>tc_id = ''c1'', tc_name = ''note'', tc_arguments = [(''text'', JString ''hi'')]\<rparr>"

lemma ex_registry_get [simp]: "resolve_tool ex_registry ''note'' = Inr ex_tool"
  by (simp add: resolve_tool_iff ex_registry_def register_def registry_new_def is_declared_def
      exposure_of_tool_def ex_tool_def)

lemma ex_prepare:
  "prepare_tool_call memory_ops ex_env ex_spec ex_call ex_state =
   (Returns (Inr (ex_tool, JObject [(''text'', JString ''hi'')])), ex_state)"
proof -
  have "resolve_and_validate (sp_tools ex_spec) ex_call = Inr (ex_tool, JObject [(''text'', JString ''hi'')])"
    by (simp add: resolve_and_validate_def ex_spec_def ex_call_def validate_call_def ex_tool_def [simplified] Let_def
        flip: ex_tool_def)
  then show ?thesis
    by (simp add: prepare_tool_call_def guard_well_formed_arguments_def ex_call_def ARG_PARSE_ERROR_KEY_def
        authorize_def ex_spec_def ex_hook_def guard_message_circuit_breaker_def observe_def ex_state_def
        breaker_new_def MESSAGE_TOOL_NAME_def breaker_reset_def guard_repeated_external_lookup_def
        repeated_external_lookup_error_def external_lookup_signature_def Let_def)
qed

lemma ex_world: "ps_world (snd (run_tool_call memory_ops ex_env ex_spec ex_call ex_state)) = 1"
proof -
  let ?p = "JObject [(''text'', JString ''hi'')]"
  have "ps_world (snd (execute_prepared memory_ops ex_env ex_spec ex_call (ex_tool, ?p) ex_state)) = 1"
    by (simp add: execute_prepared_memory_world execute_tool_def ex_tool_def ex_state_def
        effective_timeout_def Let_def)
  then show ?thesis
    by (cases "execute_prepared memory_ops ex_env ex_spec ex_call (ex_tool, ?p) ex_state")
      (simp add: run_tool_call_def ex_prepare complete_tool_call_def Let_def)
qed

lemma ex_fields:
  "sp_journal ex_spec = Some ex_turn" "tj_mode ex_turn = Strict" "tj_turn_id ex_turn = ''t1''"
  "tc_id ex_call = ''c1''" "tc_name ex_call = ''note''" "pe_now ex_env = ''now''"
  "ps_world ex_state = 0" "ps_journal ex_state = (rj_new ''cli:x'', [])"
  by (simp_all add: ex_spec_def ex_turn_def ex_call_def ex_env_def ex_state_def)

section \<open>A crash and a replay\<close>

text \<open>
  A replay-safe call is begun, runs, the process dies, and the resumed turn begins and runs it
  again: the two executions the bound allows.
\<close>

definition ex_store :: memory_store where
  "ex_store = snd (snd (begin_tool_call memory_ops ''now'' ex_turn ''c1'' ''note'' JNull True (rj_new ''cli:x'', [])))"

definition ex_in_flight :: in_flight_call where
  "ex_in_flight = \<lparr>ic_turn = ex_turn, ic_call_id = ''c1'', ic_tool_name = ''note'', ic_args = JNull,
     ic_replay_safe = True, ic_finished = False\<rparr>"

definition ex_intent_state :: tool_call_state where
  "ex_intent_state = \<lparr>tcs_turn_id = ''t1'', tcs_call_id = ''c1'', tcs_tool_name = ''note'', tcs_args = JNull,
     tcs_replay_safe = True, tcs_status = Intent, tcs_result = None, tcs_intent_count = 1\<rparr>"

definition ex_count_tool :: "exec_count tool" where
  "ex_count_tool = \<lparr>tl_name = ''note'', tl_description = ''take a note'', tl_parameters = JObject [],
     tl_run = (\<lambda>identity limit params x. (Finished (tool_result_ok ''saved''),
        case identity of None \<Rightarrow> x | Some k \<Rightarrow> x(k := x k + 1))),
     tl_cast = (\<lambda>v. v), tl_validate = (\<lambda>v. []), tl_read_only = False, tl_exclusive = False,
     tl_replay_safe = True, tl_exempt = False, tl_exposure = Direct, tl_server = None\<rparr>"

definition ex_count_registry :: "exec_count registry" where
  "ex_count_registry = register ex_count_tool registry_new"

lemma ex_begin:
  "begin_tool_call memory_ops ''now'' ex_turn ''c1'' ''note'' JNull True (rj_new ''cli:x'', []) =
   (Inr ex_in_flight, (rj_new ''cli:x'', ex_store))"
  by code_simp

lemma ex_scan_empty: "scan_entries (rj_scan memory_ops (rj_new ''cli:x'') []) = []"
  by code_simp

lemma ex_states: "tool_call_states (world_entries memory_ops (rj_new ''cli:x'', ex_store)) = [ex_intent_state]"
  by code_simp

lemma ex_counting: "counting_tools ex_count_registry"
  by (auto simp: counting_tools_def ex_count_registry_def register_def registry_new_def registry_get_def
      ex_count_tool_def split: if_splits)

lemma ex_first_run:
  "(crash_step memory_ops safe_of)\<^sup>*\<^sup>* (Waiting, (rj_new ''cli:x'', []), \<lambda>_. 0)
     (Ran ex_in_flight, (rj_new ''cli:x'', ex_store), (\<lambda>_. 0)((''t1'', ''c1'') := 1))"
  if "safe_of (''t1'', ''c1'')"
proof -
  have "crash_step memory_ops safe_of (Waiting, (rj_new ''cli:x'', []), \<lambda>_. 0)
      (Begun ex_in_flight, (rj_new ''cli:x'', ex_store), \<lambda>_. 0)"
    by (rule crash_step.begin_live [where turn = ex_turn and c = "''c1''" and name = "''note''" and args = JNull
          and now = "''now''"])
      (use ex_begin ex_scan_empty that in \<open>simp_all add: ex_turn_def\<close>)
  moreover have "crash_step memory_ops safe_of (Begun ex_in_flight, (rj_new ''cli:x'', ex_store), \<lambda>_. 0)
      (Ran ex_in_flight, (rj_new ''cli:x'', ex_store), (\<lambda>_. 0)((''t1'', ''c1'') := 1))"
    using crash_step.run [of memory_ops safe_of ex_in_flight "(rj_new ''cli:x'', ex_store)" "\<lambda>_. 0"]
    by (simp add: ex_in_flight_def ex_turn_def)
  ultimately show ?thesis by (meson converse_rtranclp_into_rtranclp r_into_rtranclp)
qed

lemma ex_replay:
  "fst (snd (replay_interrupted_calls memory_ops ''now'' ex_count_registry Strict ''cli:x'' ''t1''
     ((\<lambda>_. 0)((''t1'', ''c1'') := 1), ex_store))) (''t1'', ''c1'') = 2"
proof -
  have tool: "registry_get ex_count_registry ''note'' = Some ex_count_tool" "tl_replay_safe ex_count_tool"
    "tl_run ex_count_tool (Some (t, c)) limit args x = (Finished (tool_result_ok ''saved''), x((t, c) := x (t, c) + 1))"
    for limit args x t c
    by (simp_all add: ex_count_registry_def register_def registry_new_def registry_get_def ex_count_tool_def)
  have dec: "decide_tool_recovery ex_intent_state (was_replayed ex_intent_state) = Replay JNull"
    by (simp add: decide_tool_recovery_def was_replayed_def ex_intent_state_def)
  have fields: "tcs_turn_id ex_intent_state = ''t1''" "tcs_call_id ex_intent_state = ''c1''"
    "tcs_tool_name ex_intent_state = ''note''" by (simp_all add: ex_intent_state_def)
  have turn: "with_mode Strict (tj_new ''t1'') = ex_turn" "tj_turn_id ex_turn = ''t1''"
    by (simp_all add: with_mode_def tj_new_def ex_turn_def)
  have states: "tool_call_states (scan_entries (rj_scan memory_ops (rj_new ''cli:x'') ex_store)) = [ex_intent_state]"
    using ex_states by simp
  obtain in_flight st where b: "begin_tool_call memory_ops ''now'' ex_turn ''c1'' ''note'' JNull
      True (rj_new ''cli:x'', ex_store) = (Inr in_flight, (rj_new ''cli:x'', st))"
    using mem_begin_tool_call [of "''now''" ex_turn "''c1''" "''note''" JNull True "(rj_new ''cli:x'', ex_store)"]
    unfolding fst_conv by blast
  show ?thesis
    by (simp add: replay_interrupted_calls_def states dec tool fields turn b Let_def)
qed

lemma ex_second_run:
  "\<exists>w x. (crash_step memory_ops (\<lambda>_. True))\<^sup>*\<^sup>* (Waiting, (rj_new ''cli:x'', []), \<lambda>_. 0) (Waiting, w, x) \<and>
     x (''t1'', ''c1'') = 2"
proof -
  define x1 :: exec_count where "x1 = (\<lambda>_. 0)((''t1'', ''c1'') := 1)"
  obtain b x' w' where r: "replay_interrupted_calls memory_ops ''now'' ex_count_registry Strict ''cli:x'' ''t1''
      (x1, ex_store) = (b, x', w')"
    by (cases "replay_interrupted_calls memory_ops ''now'' ex_count_registry Strict ''cli:x'' ''t1'' (x1, ex_store)")
  have inv: "mem_inv ex_store"
    using mem.begin_tool_call_inv(1) [OF _ ex_begin] mem_inv_empty by simp
  define s0 :: "call_phase \<times> memory_store journal_world \<times> exec_count" where "s0 = (Waiting, (rj_new ''cli:x'', []), \<lambda>_. 0)"
  define s1 where "s1 = (Ran ex_in_flight, (rj_new ''cli:x'', ex_store), x1)"
  define s2 where "s2 = (Waiting, (rj_new ''cli:x'', ex_store), x1)"
  have "(crash_step memory_ops (\<lambda>_. True))\<^sup>*\<^sup>* s0 s1"
    unfolding s0_def s1_def x1_def by (rule ex_first_run) simp
  moreover have "crash_step memory_ops (\<lambda>_. True) s1 s2"
    using crash_step.crash [of memory_ops "\<lambda>_. True" "Ran ex_in_flight" "(rj_new ''cli:x'', ex_store)" x1]
    by (simp add: rj_new_def s1_def s2_def)
  moreover have "(crash_step memory_ops (\<lambda>_. True))\<^sup>*\<^sup>* s2 (Waiting, w', x')"
    unfolding s2_def by (rule mem.replay_interrupted_calls_steps [OF inv ex_counting r])
  ultimately have "(crash_step memory_ops (\<lambda>_. True))\<^sup>*\<^sup>* s0 (Waiting, w', x')" by auto
  moreover have "x' (''t1'', ''c1'') = 2" using ex_replay r by (simp add: x1_def)
  ultimately show ?thesis unfolding s0_def by blast
qed

section \<open>A ledger\<close>

definition ex_msg :: inbound_message where
  "ex_msg = \<lparr>im_channel = ''cli'', im_sender_id = ''u'', im_chat_id = ''x'', im_content = ''hi'',
     im_timestamp = 0, im_media = [], im_metadata = [], im_session_key_override = None,
     im_request_id = Some ''r1''\<rparr>"

definition ex_admitted :: memory_store where
  "ex_admitted = snd (admit memory_ops (\<lambda>msg. Some JNull) (rj_new ''cli:x'') ''now'' ex_msg [])"

lemma ex_admit: "admit memory_ops (\<lambda>msg. Some JNull) (rj_new ''cli:x'') ''now'' ex_msg [] = (New, ex_admitted)"
  by code_simp

lemma ex_admitted_entries: "map entry_record (scan_entries (rj_scan memory_ops (rj_new ''cli:x'') ex_admitted)) =
    [Inbox ''r1'' ''cli'' ''x'' ''cli:x'' Queued None None (Some JNull)]"
  by code_simp

text \<open>A request whose turn ran to its end: what the turn end leaves in the journal before the ledger is told.\<close>

definition ex_ended :: memory_store where
  "ex_ended = (let j = rj_new ''cli:x'' in
     snd (rj_append memory_ops j ''now'' (TurnEnd ''t1'' Completed)
       (snd (rj_append memory_ops j ''now''
         (TurnStart ''t1'' ''cli:x'' (Some ''r1'') None 0 (Some ''cli'') (Some ''x'')) ex_admitted))))"

definition ex_request :: inbox_entry where
  "ex_request = \<lparr>ib_request_id = ''r1'', ib_channel = ''cli'', ib_chat_id = ''x'', ib_session_key = ''cli:x'',
     ib_state = Queued, ib_outcome = None, ib_turn_id = None, ib_message = Some JNull, ib_updated_at = ''now''\<rparr>"

definition ex_pruned :: memory_store where
  "ex_pruned = snd (prune_journal memory_ops (rj_new ''cli:x'') ex_ended)"

lemma ex_prune: "prune_journal memory_ops (rj_new ''cli:x'') ex_ended = (Inr 2, ex_pruned)"
  by code_simp

lemma ex_ended_ledger: "fold_entries (scan_entries (rj_scan memory_ops (rj_new ''cli:x'') ex_ended)) = [ex_request]"
  by code_simp

lemma ex_ended_turns: "turns_of (scan_entries (rj_scan memory_ops (rj_new ''cli:x'') ex_ended)) ''r1'' = [''t1'']"
  "settled (scan_entries (rj_scan memory_ops (rj_new ''cli:x'') ex_ended)) = [''t1'']"
  by code_simp+

lemma ex_inv: "mem_inv ex_admitted" "mem_inv ex_ended"
proof -
  show adm: "mem_inv ex_admitted"
    using mem.admit_inv [OF mem_inv_empty] by (simp add: ex_admitted_def)
  show "mem_inv ex_ended"
    unfolding ex_ended_def Let_def by (intro mem.rj_append_mono(3) adm)
qed

section \<open>An interrupted turn\<close>

text \<open>A turn that started and left a checkpoint with one open tool call.\<close>

definition ex_user :: json where
  "ex_user = JObject [(''role'', JString ''user''), (''content'', JString ''hi'')]"

definition ex_tool_call :: json where
  "ex_tool_call = JObject [(''id'', JString ''c1''), (''function'', JObject [(''name'', JString ''note'')])]"

definition ex_messages :: "json list" where
  "ex_messages = [ex_user, JObject [(''role'', JString ''assistant''), (''tool_calls'', JArray [ex_tool_call])]]"

definition ex_started :: memory_store where
  "ex_started = (let j = rj_new ''cli:x'' in
     snd (rj_append memory_ops j ''now'' (StepCheckpoint ''t1'' PreTool (build_payload TYPE_AWAITING_TOOLS ex_messages))
       (snd (rj_append memory_ops j ''now''
         (TurnStart ''t1'' ''cli:x'' (Some ''r1'') (Some ex_user) 0 (Some ''cli'') (Some ''x'')) []))))"

definition ex_turn_record :: unfinished_turn where
  "ex_turn_record = \<lparr>ut_turn_id = ''t1'', ut_session_key = ''cli:x'', ut_attempts = 0, ut_channel = Some ''cli'',
     ut_chat_id = Some ''x'', ut_request_id = Some ''r1'', ut_started_at = ''now''\<rparr>"

definition ex_policy :: resume_policy where
  "ex_policy = \<lparr>rp_auto_resume = True, rp_max_age = 100, rp_max_attempts = 3\<rparr>"

definition ex_restored :: memory_store where
  "ex_restored = snd (snd (restore_from_journal memory_ops ''now'' ''cli:x'' ex_started))"

lemma ex_unfinished: "unfinished_turns (mem_entries (mem_journal ex_started ''cli:x'')) = [ex_turn_record]"
  by code_simp

lemma ex_plan: "plan_resumes (\<lambda>s. Some 5) memory_ops ex_started 50 10 ex_policy = [ResumeTurn ex_turn_record 1]"
  by code_simp

lemma ex_restore_run:
  "restore_from_journal memory_ops ''now'' ''cli:x'' ex_started =
   (True, [JNull # ex_messages @ [tool_result_message ''now'' ex_tool_call INTERRUPTED_TOOL_RESULT]], ex_restored)"
  by code_simp

section \<open>Journal files\<close>

text \<open>Two session keys with one file name, both counters in memory; the first sync can be made to fail.\<close>

definition ex_io_unsynced :: io_script where
  "ex_io_unsynced = io_ok\<lparr>io_sync := False\<rparr>"

definition ex_files :: "io_script list \<Rightarrow> file_store" where
  "ex_files io = \<lparr>fs_files = [], fs_counters = [(''cli:x'', 1), (''cli_x'', 1)], fs_io = io\<rparr>"

definition ex_append :: "file_store \<Rightarrow> string \<Rightarrow> (io_error + nat) \<times> file_store" where
  "ex_append st key = file_append unary_codec st key [] (TurnRestored []) Synced"

lemma ex_files_inv: "file_inv (ex_files io)" "map_of (fs_counters (ex_files io)) ''cli:x'' = Some 1"
  "map_of (fs_counters (ex_files io)) ''cli_x'' = Some 1"
  by (simp_all add: file_inv_def file_bytes_def ex_files_def)

lemma ex_encode: "unary_encode (new_entry [] n (TurnRestored [])) \<noteq> None"
  by (simp add: unary_encode_def)

lemmas ex_append_simps = ex_append_def file_append_def next_seq_def pop_io_def ex_files_def put_file_def
  io_ok_def ex_io_unsynced_def Let_def

lemma ex_unsynced: "fst (ex_append (ex_files [ex_io_unsynced]) ''cli:x'') = Inl ''sync_data''"
  "fst (ex_append (snd (ex_append (ex_files [ex_io_unsynced]) ''cli:x'')) ''cli:x'') = Inr 1"
  using ex_encode by (auto simp: ex_append_simps split: option.splits)

lemma ex_shared: "safe_filename ''cli_x'' = safe_filename ''cli:x''"
  "fst (ex_append (ex_files []) ''cli:x'') = Inr 1"
  "fst (ex_append (snd (ex_append (ex_files []) ''cli:x'')) ''cli_x'') = Inr 1"
  using ex_encode by (auto simp: ex_append_simps safe_filename_def UNSAFE_PATH_CHARS_def split: option.splits)

lemma ex_keys_differ: "''cli_x'' \<noteq> ''cli:x''" by simp

lemma ex_append_eq: "fst (ex_append st key) = res \<Longrightarrow>
   file_append unary_codec st key [] (TurnRestored []) Synced = (res, snd (ex_append st key))"
  by (auto simp: ex_append_def)

lemmas ex_unsynced_runs = ex_unsynced [THEN ex_append_eq]
lemmas ex_shared_runs = ex_shared(2,3) [THEN ex_append_eq]

section \<open>A ledger that is compacted\<close>

definition ex_compacted :: memory_store where
  "ex_compacted = snd (ledger_compact memory_ops (\<lambda>s. Some 0) (rj_new ''cli:x'') 0 1000 10 ex_ended)"

lemma ex_compact: "ledger_compact memory_ops (\<lambda>s. Some 0) (rj_new ''cli:x'') 0 1000 10 ex_ended = (Inr (), ex_compacted)"
  "fst (rj_append memory_ops (rj_new ''cli:x'') ''now'' (TurnRestored ''t2'') ex_compacted) = Inr 4"
  "fold max (map entry_seq (filter (\<lambda>e. \<not> is_inbox e) (scan_entries (rj_scan memory_ops (rj_new ''cli:x'') ex_ended)))) 0 = 3"
  "length (retained_entries (\<lambda>s. Some 0) (fold_entries (scan_entries (rj_scan memory_ops (rj_new ''cli:x'') ex_ended))) 0 1000 10) = 1"
  by code_simp+

section \<open>Tools and their arguments\<close>

definition ex_deferred_tool :: "nat tool" where
  "ex_deferred_tool = ex_tool\<lparr>tl_name := ''maps'', tl_exposure := Deferred\<rparr>"

definition ex_deferred_registry :: "nat registry" where
  "ex_deferred_registry = register ex_deferred_tool ex_registry"

lemma ex_load: "load_tools [''maps'', ''note'', ''maps''] ex_deferred_registry =
    ([''maps''], ex_deferred_registry\<lparr>rg_loaded := [''maps'']\<rparr>)"
  "map_of (rg_tools ex_deferred_registry) ''maps'' = Some ex_deferred_tool"
  by (simp_all add: ex_deferred_registry_def ex_deferred_tool_def ex_registry_def register_def registry_new_def
      exposure_of_def exposure_of_tool_def ex_tool_def)

definition ex_vo :: value_ops where
  "ex_vo = \<lparr>vo_parse_f64 = (\<lambda>s. None), vo_f64_finite = (\<lambda>x. True), vo_as_f64 = (\<lambda>n. 0),
     vo_f64_less = (\<lambda>x y. False), vo_show_f64 = (\<lambda>x. []), vo_show_json = (\<lambda>v. []),
     vo_debug_type = (\<lambda>v. []), vo_lower = (\<lambda>s. s)\<rparr>"

definition ex_schema :: json where
  "ex_schema = JObject [(''type'', JString ''object''),
     (''properties'', JObject [(''text'', JObject [(''type'', JString ''string'')])]),
     (''required'', JArray [JString ''text''])]"

definition ex_params :: json where
  "ex_params = JObject [(''text'', JString ''hi'')]"

lemma ex_valid: "validate_params ex_vo ex_schema ex_params = []" "''text'' \<in> set (required_keys ex_schema)"
  by code_simp+

lemma ex_denied: "\<not> hook_allows (ex_spec\<lparr>sp_hook := Some ex_deny_hook\<rparr>) ex_call
    (tl_cast ex_tool (JObject (tc_arguments ex_call))) (ps_hook ex_state)"
  "resolve_tool (sp_tools (ex_spec\<lparr>sp_hook := Some ex_deny_hook\<rparr>)) (tc_name ex_call) = Inr ex_tool"
  using ex_registry_get
  by (simp_all add: hook_allows_def ex_deny_hook_def ex_spec_def ex_call_def)

end
