(* ===== verification/Approval.thy ===== *)
theory Approval
  imports Json "HOL-Library.List_Lexorder" "HOL-Library.Char_ord"
begin

text \<open>
  \<open>src/agent/tool_approval.rs\<close> and \<open>src/agent/question_broker.rs\<close>: the requests a chat has to
  answer, and what a chat has approved in advance.

  A broker is its map of pending requests, its grants, and the answers it has sent to waiters: the
  sender of a request's one-shot channel is consumed by an answer, so \<open>bk_answers\<close> holds at most
  one answer per request, and a request that is neither pending nor answered is a closed channel.
  The UUID of a new request is an argument.  The text of the arguments is the parameter
  \<open>show_json\<close> (\<open>serde_json::to_string\<close>).
\<close>

section \<open>Calls and their preview\<close>

definition APPROVAL_ARG_PREVIEW_LIMIT :: nat where
  "APPROVAL_ARG_PREVIEW_LIMIT = 2000"

record approval_call =
  ac_id :: string
  ac_name :: string
  ac_arguments_preview :: string

text \<open>\<open>chars.next().is_some()\<close> after taking \<open>limit\<close> characters: there are more than \<open>limit\<close>.\<close>

definition preview_arguments :: "(json \<Rightarrow> string option) \<Rightarrow> json \<Rightarrow> nat \<Rightarrow> string" where
  "preview_arguments show_json arguments limit =
     (let args_str = (case show_json arguments of Some s \<Rightarrow> s | None \<Rightarrow> ''{}'');
          preview = take_chars limit args_str
      in if count_chars args_str > limit then preview @ ''...'' else preview)"

lemma preview_arguments_bound:
  "count_chars (preview_arguments show_json arguments limit) \<le> limit + 3"
proof -
  have "count_chars (s @ ''...'') = count_chars s + 3" for s
    by (simp add: count_chars_def is_cont_def)
  then show ?thesis
    using count_chars_take_chars [of limit] by (simp add: preview_arguments_def Let_def trans_le_add1)
qed

datatype resolve_error = NotFound | ChatMismatch

fun as_detail :: "resolve_error \<Rightarrow> string" where
  "as_detail NotFound = ''approval_not_found''"
| "as_detail ChatMismatch = ''access_denied''"

section \<open>Grants\<close>

datatype approval_grant = GrantTurn | GrantSession | GrantSessionTool

definition grant_from_wire :: "string \<Rightarrow> approval_grant option" where
  "grant_from_wire name =
     (if name = ''turn'' then Some GrantTurn
      else if name = ''session'' then Some GrantSession
      else if name = ''session_tool'' then Some GrantSessionTool
      else None)"

record chat_grants =
  cg_turn_id :: "string option"
  cg_all_tools :: bool
  cg_tools :: "string set"

definition no_grants :: chat_grants where
  "no_grants = \<lparr>cg_turn_id = None, cg_all_tools = False, cg_tools = {}\<rparr>"

record grants_view =
  gv_session_all :: bool
  gv_tools :: "string list"
  gv_turn :: bool

definition grants_view_empty :: "grants_view \<Rightarrow> bool" where
  "grants_view_empty v \<longleftrightarrow> \<not> gv_session_all v \<and> \<not> gv_turn v \<and> gv_tools v = []"

type_synonym approval_grants = "(string \<times> chat_grants) list"

text \<open>\<open>by_chat.entry(chat_id).or_default()\<close>.\<close>

definition chat_entry :: "string \<Rightarrow> approval_grants \<Rightarrow> chat_grants" where
  "chat_entry chat_id g = (case map_of g chat_id of Some c \<Rightarrow> c | None \<Rightarrow> no_grants)"

definition grants_add ::
    "string \<Rightarrow> approval_grant \<Rightarrow> string option \<Rightarrow> string list \<Rightarrow> approval_grants \<Rightarrow> bool \<times> approval_grants" where
  "grants_add chat_id grant turn_id tool_names g =
     (case grant of
        GrantTurn \<Rightarrow>
          (case turn_id of
             None \<Rightarrow> (False, g)
           | Some t \<Rightarrow> (True, AList.update chat_id ((chat_entry chat_id g)\<lparr>cg_turn_id := Some t\<rparr>) g))
      | GrantSession \<Rightarrow>
          (True, AList.update chat_id ((chat_entry chat_id g)\<lparr>cg_all_tools := True\<rparr>) g)
      | GrantSessionTool \<Rightarrow>
          (True, AList.update chat_id
             ((chat_entry chat_id g)\<lparr>cg_tools := cg_tools (chat_entry chat_id g) \<union> set tool_names\<rparr>) g))"

definition grants_is_granted :: "string \<Rightarrow> string option \<Rightarrow> string \<Rightarrow> approval_grants \<Rightarrow> bool" where
  "grants_is_granted chat_id turn_id tool_name g =
     (case map_of g chat_id of
        None \<Rightarrow> False
      | Some c \<Rightarrow> cg_all_tools c \<or> tool_name \<in> cg_tools c \<or> turn_id \<noteq> None \<and> cg_turn_id c = turn_id)"

definition grants_revoke :: "string \<Rightarrow> approval_grants \<Rightarrow> bool \<times> approval_grants" where
  "grants_revoke chat_id g = (map_of g chat_id \<noteq> None, AList.delete chat_id g)"

definition view_grants :: "string \<Rightarrow> bool \<Rightarrow> approval_grants \<Rightarrow> grants_view" where
  "view_grants chat_id include_turn g =
     (case map_of g chat_id of
        None \<Rightarrow> \<lparr>gv_session_all = False, gv_tools = [], gv_turn = False\<rparr>
      | Some c \<Rightarrow> \<lparr>gv_session_all = cg_all_tools c, gv_tools = sorted_list_of_set (cg_tools c),
                   gv_turn = include_turn \<and> cg_turn_id c \<noteq> None\<rparr>)"

section \<open>The broker\<close>

record pending_approval =
  pa_chat_id :: string
  pa_calls :: "approval_call list"
  pa_turn_id :: "string option"

record approval_broker =
  bk_pending :: "(string \<times> pending_approval) list"
  bk_grants :: approval_grants
  bk_answers :: "(string \<times> string list) list"

definition broker_new :: approval_broker where
  "broker_new = \<lparr>bk_pending = [], bk_grants = [], bk_answers = []\<rparr>"

definition register_for_turn ::
    "string \<Rightarrow> string \<Rightarrow> approval_call list \<Rightarrow> string option \<Rightarrow> approval_broker \<Rightarrow> approval_broker" where
  "register_for_turn request_id chat_id calls turn_id b =
     b\<lparr>bk_pending := AList.update request_id
         \<lparr>pa_chat_id = chat_id, pa_calls = calls, pa_turn_id = turn_id\<rparr> (bk_pending b)\<rparr>"

definition register_approval ::
    "string \<Rightarrow> string \<Rightarrow> approval_call list \<Rightarrow> approval_broker \<Rightarrow> approval_broker" where
  "register_approval request_id chat_id calls b = register_for_turn request_id chat_id calls None b"

definition broker_add_grant ::
    "string \<Rightarrow> approval_grant \<Rightarrow> string option \<Rightarrow> string list \<Rightarrow> approval_broker \<Rightarrow> bool \<times> approval_broker" where
  "broker_add_grant chat_id grant turn_id tool_names b =
     (case grants_add chat_id grant turn_id tool_names (bk_grants b) of
        (ok, g) \<Rightarrow> (ok, b\<lparr>bk_grants := g\<rparr>))"

definition resolve_with_grant ::
    "string \<Rightarrow> string \<Rightarrow> string list \<Rightarrow> approval_grant option \<Rightarrow> approval_broker \<Rightarrow>
     (resolve_error + bool) \<times> approval_broker" where
  "resolve_with_grant chat_id request_id approved_ids grant b =
     (case map_of (bk_pending b) request_id of
        None \<Rightarrow> (Inl NotFound, b)
      | Some entry \<Rightarrow>
          if pa_chat_id entry \<noteq> chat_id then (Inl ChatMismatch, b)
          else
            (let b = b\<lparr>bk_pending := AList.delete request_id (bk_pending b)\<rparr>;
                 approved = filter (\<lambda>i. \<exists>call \<in> set (pa_calls entry). ac_id call = i) approved_ids;
                 (granted, b) =
                   (case grant of
                      Some g \<Rightarrow>
                        if approved \<noteq> []
                        then broker_add_grant chat_id g (pa_turn_id entry)
                               (map ac_name (filter (\<lambda>call. ac_id call \<in> set approved) (pa_calls entry))) b
                        else (False, b)
                    | None \<Rightarrow> (False, b))
             in (Inr granted, b\<lparr>bk_answers := AList.update request_id approved (bk_answers b)\<rparr>)))"

definition resolve_approval ::
    "string \<Rightarrow> string \<Rightarrow> string list \<Rightarrow> approval_broker \<Rightarrow> (resolve_error + unit) \<times> approval_broker" where
  "resolve_approval chat_id request_id approved_ids b =
     (case resolve_with_grant chat_id request_id approved_ids None b of
        (Inl e, b) \<Rightarrow> (Inl e, b)
      | (Inr _, b) \<Rightarrow> (Inr (), b))"

definition broker_is_granted :: "string \<Rightarrow> string option \<Rightarrow> string \<Rightarrow> approval_broker \<Rightarrow> bool" where
  "broker_is_granted chat_id turn_id tool_name b = grants_is_granted chat_id turn_id tool_name (bk_grants b)"

definition broker_revoke_grants :: "string \<Rightarrow> approval_broker \<Rightarrow> bool \<times> approval_broker" where
  "broker_revoke_grants chat_id b =
     (case grants_revoke chat_id (bk_grants b) of (any, g) \<Rightarrow> (any, b\<lparr>bk_grants := g\<rparr>))"

definition grants_for_chat :: "string \<Rightarrow> bool \<Rightarrow> approval_broker \<Rightarrow> grants_view" where
  "grants_for_chat chat_id include_turn b = view_grants chat_id include_turn (bk_grants b)"

definition cancel_approval :: "string \<Rightarrow> approval_broker \<Rightarrow> approval_broker" where
  "cancel_approval request_id b = b\<lparr>bk_pending := AList.delete request_id (bk_pending b)\<rparr>"

definition pending_for_chat :: "string \<Rightarrow> approval_broker \<Rightarrow> (string \<times> approval_call list) list" where
  "pending_for_chat chat_id b =
     map (\<lambda>(request_id, entry). (request_id, pa_calls entry))
       (filter (\<lambda>(request_id, entry). pa_chat_id entry = chat_id) (bk_pending b))"

section \<open>Histories\<close>

text \<open>
  Everything that reaches a broker: requests of hooks, answers and revocations of chats, waiters
  that give up, and grants recorded directly.
\<close>

datatype broker_op =
    OpRegister string string "approval_call list" "string option"
  | OpResolve string string "string list" "approval_grant option"
  | OpCancel string
  | OpGrant string approval_grant "string option" "string list"
  | OpRevoke string

fun broker_step :: "broker_op \<Rightarrow> approval_broker \<Rightarrow> approval_broker" where
  "broker_step (OpRegister i chat calls turn) b = register_for_turn i chat calls turn b"
| "broker_step (OpResolve chat i ids grant) b = snd (resolve_with_grant chat i ids grant b)"
| "broker_step (OpCancel i) b = cancel_approval i b"
| "broker_step (OpGrant chat grant turn names) b = snd (broker_add_grant chat grant turn names b)"
| "broker_step (OpRevoke chat) b = snd (broker_revoke_grants chat b)"

definition broker_run :: "broker_op list \<Rightarrow> approval_broker \<Rightarrow> approval_broker" where
  "broker_run ops b = foldl (\<lambda>b x. broker_step x b) b ops"

lemma broker_run_simps [simp]:
  "broker_run [] b = b"
  "broker_run (x # ops) b = broker_run ops (broker_step x b)"
  "broker_run (ops @ ops') b = broker_run ops' (broker_run ops b)"
  by (simp_all add: broker_run_def)

text \<open>Whether a grant with this turn and these tools covers a call.\<close>

fun covers :: "approval_grant \<Rightarrow> string option \<Rightarrow> string list \<Rightarrow> string option \<Rightarrow> string \<Rightarrow> bool" where
  "covers GrantTurn turn names t tool \<longleftrightarrow> turn \<noteq> None \<and> turn = t"
| "covers GrantSession turn names t tool \<longleftrightarrow> True"
| "covers GrantSessionTool turn names t tool \<longleftrightarrow> tool \<in> set names"

text \<open>
  The event, in the state it meets, gives \<open>chat\<close> a grant that covers the call: an answer of the
  chat itself to a request it was asked, approving a call of that request, or a direct grant.
\<close>

fun gives :: "approval_broker \<Rightarrow> broker_op \<Rightarrow> string \<Rightarrow> string option \<Rightarrow> string \<Rightarrow> bool" where
  "gives b (OpResolve c i ids grant) chat t tool \<longleftrightarrow>
     c = chat \<and>
     (case (map_of (bk_pending b) i, grant) of
        (Some entry, Some g) \<Rightarrow>
          pa_chat_id entry = chat \<and> (\<exists>call \<in> set (pa_calls entry). ac_id call \<in> set ids) \<and>
          covers g (pa_turn_id entry)
            (map ac_name (filter (\<lambda>call. ac_id call \<in> set ids) (pa_calls entry))) t tool
      | _ \<Rightarrow> False)"
| "gives b (OpGrant c g turn names) chat t tool \<longleftrightarrow> c = chat \<and> covers g turn names t tool"
| "gives b x chat t tool \<longleftrightarrow> False"

text \<open>Some event of the history gives the grant, and the chat does not revoke later.\<close>

definition earned :: "broker_op list \<Rightarrow> string \<Rightarrow> string option \<Rightarrow> string \<Rightarrow> bool" where
  "earned ops chat t tool \<longleftrightarrow>
     (\<exists>before x after. ops = before @ x # after \<and> gives (broker_run before broker_new) x chat t tool \<and>
        OpRevoke chat \<notin> set after)"

lemma earned_snoc: "x \<noteq> OpRevoke chat \<Longrightarrow> earned ops chat t tool \<Longrightarrow> earned (ops @ [x]) chat t tool"
  unfolding earned_def
proof (elim exE conjE)
  fix before y after
  assume "x \<noteq> OpRevoke chat" "ops = before @ y # after" "gives (broker_run before broker_new) y chat t tool"
    "OpRevoke chat \<notin> set after"
  then show "\<exists>before y after. ops @ [x] = before @ y # after \<and>
      gives (broker_run before broker_new) y chat t tool \<and> OpRevoke chat \<notin> set after"
    by (intro exI [of _ before] exI [of _ y] exI [of _ "after @ [x]"]) auto
qed

lemma earned_last: "gives (broker_run ops broker_new) x chat t tool \<Longrightarrow> earned (ops @ [x]) chat t tool"
  unfolding earned_def by (intro exI [of _ ops] exI [of _ x] exI [of _ "[]"]) simp

lemma granted_after_add:
  "grants_is_granted chat t tool (snd (grants_add c g turn names gs)) \<Longrightarrow>
   grants_is_granted chat t tool gs \<or> c = chat \<and> covers g turn names t tool"
  by (cases g) (auto simp: grants_add_def grants_is_granted_def chat_entry_def no_grants_def
      split: option.splits if_splits)

lemma granted_after_revoke:
  "grants_is_granted chat t tool (snd (grants_revoke c gs)) \<longleftrightarrow> chat \<noteq> c \<and> grants_is_granted chat t tool gs"
  by (auto simp: grants_revoke_def grants_is_granted_def split: option.splits if_splits)

lemma resolve_other:
  "(\<And>entry. map_of (bk_pending b) i = Some entry \<Longrightarrow> pa_chat_id entry \<noteq> c) \<Longrightarrow>
   snd (resolve_with_grant c i ids grant b) = b"
  by (auto simp: resolve_with_grant_def split: option.splits)

lemma resolve_own:
  assumes "map_of (bk_pending b) i = Some entry" "pa_chat_id entry = c"
  defines "approved \<equiv> filter (\<lambda>j. \<exists>call \<in> set (pa_calls entry). ac_id call = j)"
  shows "snd (resolve_with_grant c i ids grant b) =
    b\<lparr>bk_pending := AList.delete i (bk_pending b),
      bk_grants := (case grant of
          Some g \<Rightarrow> if approved ids \<noteq> []
            then snd (grants_add c g (pa_turn_id entry)
              (map ac_name (filter (\<lambda>call. ac_id call \<in> set (approved ids)) (pa_calls entry))) (bk_grants b))
            else bk_grants b
        | None \<Rightarrow> bk_grants b),
      bk_answers := AList.update i (approved ids) (bk_answers b)\<rparr>"
  using assms by (simp add: resolve_with_grant_def broker_add_grant_def Let_def split: option.splits prod.splits)

lemma granted_step:
  assumes "broker_is_granted chat t tool (broker_step x b)"
  shows "gives b x chat t tool \<or> x \<noteq> OpRevoke chat \<and> broker_is_granted chat t tool b"
proof (cases x)
  case (OpResolve c i ids grant)
  show ?thesis
  proof (cases "\<exists>entry. map_of (bk_pending b) i = Some entry \<and> pa_chat_id entry = c")
    case True
    then obtain entry where e: "map_of (bk_pending b) i = Some entry" "pa_chat_id entry = c" by blast
    let ?approved = "filter (\<lambda>j. \<exists>call \<in> set (pa_calls entry). ac_id call = j) ids"
    let ?names = "map ac_name (filter (\<lambda>call. ac_id call \<in> set ?approved) (pa_calls entry))"
    have names: "?names = map ac_name (filter (\<lambda>call. ac_id call \<in> set ids) (pa_calls entry))"
      by (rule arg_cong [where f = "map ac_name"]) (auto intro!: filter_cong)
    have some: "?approved \<noteq> [] \<longleftrightarrow> (\<exists>call \<in> set (pa_calls entry). ac_id call \<in> set ids)"
      by (auto simp: filter_empty_conv)
    have "broker_is_granted chat t tool b \<or>
        (\<exists>g. grant = Some g \<and> ?approved \<noteq> [] \<and> c = chat \<and> covers g (pa_turn_id entry) ?names t tool)"
      using assms granted_after_add [of chat t tool c _ "pa_turn_id entry" ?names "bk_grants b"]
      unfolding OpResolve broker_step.simps resolve_own [OF e] broker_is_granted_def
      by (cases grant) (auto split: if_splits)
    then show ?thesis unfolding some names using e by (auto simp: OpResolve)
  next
    case False
    then have "snd (resolve_with_grant c i ids grant b) = b" by (intro resolve_other) blast
    with assms show ?thesis by (simp add: OpResolve)
  qed
next
  case (OpGrant c g turn names)
  then show ?thesis
    using assms granted_after_add [of chat t tool c g turn names "bk_grants b"]
    by (auto simp: broker_add_grant_def broker_is_granted_def split: prod.splits)
next
  case (OpRevoke c)
  then show ?thesis
    using assms granted_after_revoke [of chat t tool c "bk_grants b"]
    by (auto simp: broker_revoke_grants_def broker_is_granted_def split: prod.splits)
qed (use assms in \<open>auto simp: register_for_turn_def cancel_approval_def broker_is_granted_def\<close>)

text \<open>Whatever happened, a grant was earned.\<close>

lemma granted_earned:
  "broker_is_granted chat t tool (broker_run ops broker_new) \<Longrightarrow> earned ops chat t tool"
proof (induction ops rule: rev_induct)
  case Nil
  then show ?case by (simp add: broker_is_granted_def grants_is_granted_def broker_new_def)
next
  case (snoc x ops)
  then have "broker_is_granted chat t tool (broker_step x (broker_run ops broker_new))" by simp
  from granted_step [OF this] snoc.IH earned_snoc earned_last show ?case by blast
qed

text \<open>The answers sent: to the chat that asked, and only ids it was shown and chose.\<close>

lemma answer_step:
  assumes "map_of (bk_answers (broker_step x b)) i = Some ids"
  shows "map_of (bk_answers b) i = Some ids \<or>
    (\<exists>chat asked grant entry. x = OpResolve chat i asked grant \<and> map_of (bk_pending b) i = Some entry \<and>
       pa_chat_id entry = chat \<and> set ids \<subseteq> set asked \<inter> ac_id ` set (pa_calls entry))"
proof (cases x)
  case (OpResolve chat j asked grant)
  show ?thesis
  proof (cases "\<exists>entry. map_of (bk_pending b) j = Some entry \<and> pa_chat_id entry = chat")
    case True
    then obtain entry where e: "map_of (bk_pending b) j = Some entry" "pa_chat_id entry = chat" by blast
    from assms show ?thesis
      unfolding OpResolve broker_step.simps resolve_own [OF e] using e by (auto split: if_splits)
  next
    case False
    then have "snd (resolve_with_grant chat j asked grant b) = b" by (intro resolve_other) blast
    with assms show ?thesis by (simp add: OpResolve)
  qed
qed (use assms in \<open>auto simp: register_for_turn_def cancel_approval_def broker_add_grant_def
    broker_revoke_grants_def split: prod.splits\<close>)

definition answered_by :: "broker_op list \<Rightarrow> approval_broker \<Rightarrow> string \<Rightarrow> string list \<Rightarrow> bool" where
  "answered_by ops b i ids \<longleftrightarrow>
     (\<exists>before chat asked grant rest entry. ops = before @ OpResolve chat i asked grant # rest \<and>
        map_of (bk_pending (broker_run before b)) i = Some entry \<and> pa_chat_id entry = chat \<and>
        set ids \<subseteq> set asked \<inter> ac_id ` set (pa_calls entry))"

lemma answered_by_snoc: "answered_by ops b i ids \<Longrightarrow> answered_by (ops @ [x]) b i ids"
  unfolding answered_by_def by (metis append_Cons append_assoc)

lemma answer_earned:
  "map_of (bk_answers (broker_run ops b)) i = Some ids \<Longrightarrow>
   map_of (bk_answers b) i = Some ids \<or> answered_by ops b i ids"
proof (induction ops rule: rev_induct)
  case (snoc x ops)
  then have "map_of (bk_answers (broker_step x (broker_run ops b))) i = Some ids" by simp
  from answer_step [OF this] show ?case
  proof
    assume "map_of (bk_answers (broker_run ops b)) i = Some ids"
    from snoc.IH [OF this] show ?thesis using answered_by_snoc by blast
  next
    assume "\<exists>chat asked grant entry. x = OpResolve chat i asked grant \<and>
        map_of (bk_pending (broker_run ops b)) i = Some entry \<and> pa_chat_id entry = chat \<and>
        set ids \<subseteq> set asked \<inter> ac_id ` set (pa_calls entry)"
    then have "answered_by (ops @ [x]) b i ids"
      unfolding answered_by_def by (metis append_Nil2)
    then show ?thesis ..
  qed
qed simp

text \<open>A pending request is one that was registered.\<close>

lemma pending_registered:
  "map_of (bk_pending (broker_run ops b)) i = Some entry \<Longrightarrow>
   map_of (bk_pending b) i = Some entry \<or>
   OpRegister i (pa_chat_id entry) (pa_calls entry) (pa_turn_id entry) \<in> set ops"
proof (induction ops rule: rev_induct)
  case (snoc x ops)
  show ?case
  proof (cases x)
    case (OpResolve chat j asked grant)
    have "bk_pending (broker_step x b') \<in> {bk_pending b', AList.delete j (bk_pending b')}" for b'
      using resolve_other [of b' j chat asked grant] resolve_own [of b' j _ chat asked grant]
      by (cases "\<exists>entry. map_of (bk_pending b') j = Some entry \<and> pa_chat_id entry = chat")
        (auto simp: OpResolve)
    from this [of "broker_run ops b"] have "map_of (bk_pending (broker_run ops b)) i = Some entry"
      using snoc.prems by (auto split: if_splits)
    from snoc.IH [OF this] show ?thesis by auto
  qed (use snoc in \<open>auto simp: register_for_turn_def cancel_approval_def broker_add_grant_def
      broker_revoke_grants_def split: prod.splits if_splits\<close>)
qed simp

section \<open>Questions\<close>

record question_choice =
  qc_id :: string
  qc_label :: string
  qc_description :: "string option"

record question_answer =
  qa_option_id :: "string option"
  qa_free_text :: "string option"
  qa_chat_about :: bool

record pending_question =
  pq_chat_id :: string
  pq_question :: string
  pq_options :: "question_choice list"

record question_broker =
  qb_pending :: "(string \<times> pending_question) list"
  qb_answers :: "(string \<times> question_answer) list"

definition register_question ::
    "string \<Rightarrow> string \<Rightarrow> string \<Rightarrow> question_choice list \<Rightarrow> question_broker \<Rightarrow> question_broker" where
  "register_question request_id chat_id question options b =
     b\<lparr>qb_pending := AList.update request_id
         \<lparr>pq_chat_id = chat_id, pq_question = question, pq_options = options\<rparr> (qb_pending b)\<rparr>"

definition resolve_question ::
    "string \<Rightarrow> string \<Rightarrow> string option \<Rightarrow> string option \<Rightarrow> bool \<Rightarrow> question_broker \<Rightarrow>
     (resolve_error + unit) \<times> question_broker" where
  "resolve_question chat_id request_id option_id free_text chat_about b =
     (case map_of (qb_pending b) request_id of
        None \<Rightarrow> (Inl NotFound, b)
      | Some entry \<Rightarrow>
          if pq_chat_id entry \<noteq> chat_id then (Inl ChatMismatch, b)
          else
            (Inr (),
             b\<lparr>qb_pending := AList.delete request_id (qb_pending b),
               qb_answers := AList.update request_id
                 \<lparr>qa_option_id = (case option_id of
                      Some i \<Rightarrow> if \<exists>opt \<in> set (pq_options entry). qc_id opt = i then Some i else None
                    | None \<Rightarrow> None),
                  qa_free_text = free_text, qa_chat_about = chat_about\<rparr> (qb_answers b)\<rparr>))"

definition cancel_question :: "string \<Rightarrow> question_broker \<Rightarrow> question_broker" where
  "cancel_question request_id b = b\<lparr>qb_pending := AList.delete request_id (qb_pending b)\<rparr>"

definition questions_for_chat :: "string \<Rightarrow> question_broker \<Rightarrow> (string \<times> string \<times> question_choice list) list" where
  "questions_for_chat chat_id b =
     map (\<lambda>(request_id, entry). (request_id, pq_question entry, pq_options entry))
       (filter (\<lambda>(request_id, entry). pq_chat_id entry = chat_id) (qb_pending b))"

end
