(* ===== verification/Ask_Hooks.thy ===== *)
theory Ask_Hooks
  imports Approval Pipeline_Laws
begin

text \<open>
  The hooks that ask before a tool runs, \<open>src/cli/confirm_tools.rs\<close>, and the chain of hooks of a
  turn, \<open>src/agent/hook.rs\<close>.

  A prompt at the terminal is the parameter \<open>prompt\<close> (what the user picks from the choices, if
  anything).  While a web chat is asked, other operations reach the broker: they are the parameter
  \<open>traffic\<close>, cut off by the time limit, and the waiter is dropped at its end.  \<open>{:?}\<close> of a channel is
  the parameter \<open>show_channel\<close>, the UUID of a request \<open>fresh_id\<close>.
\<close>

section \<open>Chains of hooks\<close>

text \<open>\<open>combine_revocations\<close>.\<close>

definition combine_revocations :: "bool option list \<Rightarrow> bool option" where
  "combine_revocations answers =
     foldl (\<lambda>combined answer.
       if combined = Some True \<or> answer = Some True then Some True
       else if combined = Some False \<or> answer = Some False then Some False
       else None) None answers"

lemma combine_revocations_eq:
  "combine_revocations answers =
   (if Some True \<in> set answers then Some True
    else if Some False \<in> set answers then Some False else None)"
  unfolding combine_revocations_def
  by (induction answers rule: rev_induct) auto

definition no_decision :: post_call_decision where
  "no_decision = \<lparr>pd_replacement = None, pd_block_reason = None, pd_added_context = []\<rparr>"

lemma no_decision_shows [simp]: "pd_block_reason no_decision = None"
  by (simp add: no_decision_def)

definition block_result :: "string \<Rightarrow> post_call_decision" where
  "block_result reason = no_decision\<lparr>pd_block_reason := Some reason\<rparr>"

text \<open>\<open>CompositeHook::authorize_call\<close>: in order, up to the first denial; a panic denies.\<close>

fun composite_authorize :: "'h agent_hook list \<Rightarrow> authorization_request \<Rightarrow> 'h \<Rightarrow> call_decision \<times> 'h" where
  "composite_authorize [] request h = (AllowCall, h)"
| "composite_authorize (hook # hooks) request h =
     (case hk_authorize hook request h of
        (Some AllowCall, h) \<Rightarrow> composite_authorize hooks request h
      | (Some denied, h) \<Rightarrow> (denied, h)
      | (None, h) \<Rightarrow> (DenyCall HOOK_PANIC_DENY_REASON, h))"

text \<open>\<open>CompositeHook::after_tool_call\<close>: each hook sees the result as the earlier ones left it.\<close>

definition current_view :: "result_view \<Rightarrow> post_call_decision \<Rightarrow> result_view" where
  "current_view result decision =
     result\<lparr>rv_content := (case pd_replacement decision of Some t \<Rightarrow> t | None \<Rightarrow> rv_content result)\<rparr>"

fun composite_after_from ::
    "'h agent_hook list \<Rightarrow> result_view \<Rightarrow> post_call_decision \<Rightarrow> 'h \<Rightarrow> post_call_decision \<times> 'h" where
  "composite_after_from [] result decision h = (decision, h)"
| "composite_after_from (hook # hooks) result decision h =
     (case hk_after hook (current_view result decision) h of
        (None, h) \<Rightarrow> (post_then decision (block_result HOOK_PANIC_RESULT_REASON), h)
      | (Some next_decision, h) \<Rightarrow>
          (let decision = post_then decision next_decision in
           if pd_block_reason decision \<noteq> None then (decision, h)
           else composite_after_from hooks result decision h))"

definition composite_after :: "'h agent_hook list \<Rightarrow> result_view \<Rightarrow> 'h \<Rightarrow> post_call_decision \<times> 'h" where
  "composite_after hooks result h = composite_after_from hooks result no_decision h"

definition composite_on_result :: "'h agent_hook list \<Rightarrow> tool_event \<Rightarrow> 'h \<Rightarrow> 'h" where
  "composite_on_result hooks event h = foldl (\<lambda>h hook. hk_on_result hook event h) h hooks"

definition composite_hook :: "'h agent_hook list \<Rightarrow> 'h agent_hook" where
  "composite_hook hooks =
     \<lparr>hk_authorize = (\<lambda>request h. case composite_authorize hooks request h of (d, h) \<Rightarrow> (Some d, h)),
      hk_after = (\<lambda>result h. case composite_after hooks result h of (d, h) \<Rightarrow> (Some d, h)),
      hk_on_result = composite_on_result hooks\<rparr>"

text \<open>\<open>LoopHookChain\<close>: the core hook first, its panics not caught here.\<close>

definition loop_authorize ::
    "'h agent_hook \<Rightarrow> 'h agent_hook list \<Rightarrow> authorization_request \<Rightarrow> 'h \<Rightarrow> call_decision option \<times> 'h" where
  "loop_authorize primary extras request h =
     (case hk_authorize primary request h of
        (Some AllowCall, h) \<Rightarrow> (case composite_authorize extras request h of (d, h) \<Rightarrow> (Some d, h))
      | (denied, h) \<Rightarrow> (denied, h))"

definition loop_after ::
    "'h agent_hook \<Rightarrow> 'h agent_hook list \<Rightarrow> result_view \<Rightarrow> 'h \<Rightarrow> post_call_decision option \<times> 'h" where
  "loop_after primary extras result h =
     (case hk_after primary result h of
        (None, h) \<Rightarrow> (None, h)
      | (Some first, h) \<Rightarrow>
          if pd_block_reason first \<noteq> None then (Some first, h)
          else (case composite_after extras (current_view result first) h of
                  (d, h) \<Rightarrow> (Some (post_then first d), h)))"

definition loop_hook_chain :: "'h agent_hook \<Rightarrow> 'h agent_hook list \<Rightarrow> 'h agent_hook" where
  "loop_hook_chain primary extras =
     \<lparr>hk_authorize = loop_authorize primary extras,
      hk_after = loop_after primary extras,
      hk_on_result = (\<lambda>event h. composite_on_result extras event (hk_on_result primary event h))\<rparr>"

section \<open>What a chain guarantees\<close>

text \<open>The hooks, asked one after the other, all say yes.\<close>

fun all_allow :: "'h agent_hook list \<Rightarrow> authorization_request \<Rightarrow> 'h \<Rightarrow> bool" where
  "all_allow [] request h \<longleftrightarrow> True"
| "all_allow (hook # hooks) request h \<longleftrightarrow>
     fst (hk_authorize hook request h) = Some AllowCall \<and>
     all_allow hooks request (snd (hk_authorize hook request h))"

lemma composite_allows_iff:
  "fst (composite_authorize hooks request h) = AllowCall \<longleftrightarrow> all_allow hooks request h"
  by (induction hooks arbitrary: h) (auto split: prod.splits option.splits call_decision.splits)

lemma loop_allows_iff:
  "fst (loop_authorize primary extras request h) = Some AllowCall \<longleftrightarrow> all_allow (primary # extras) request h"
  by (auto simp: loop_authorize_def simp flip: composite_allows_iff
      split: prod.splits option.splits call_decision.splits)

text \<open>The hooks, each seeing what the earlier ones left, all answer and none blocks.\<close>

fun all_pass :: "'h agent_hook list \<Rightarrow> result_view \<Rightarrow> post_call_decision \<Rightarrow> 'h \<Rightarrow> bool" where
  "all_pass [] result d h \<longleftrightarrow> True"
| "all_pass (hook # hooks) result d h \<longleftrightarrow>
     (case hk_after hook (current_view result d) h of
        (None, h') \<Rightarrow> False
      | (Some e, h') \<Rightarrow> pd_block_reason e = None \<and> all_pass hooks result (post_then d e) h')"

lemma post_then_block: "pd_block_reason (post_then d e) = None \<longleftrightarrow> pd_block_reason d = None \<and> pd_block_reason e = None"
  by (auto simp: post_then_def)

lemma post_then_assoc: "post_then (post_then a b) c = post_then a (post_then b c)"
  by (auto simp: post_then_def)

lemma post_then_none [simp]: "post_then d no_decision = d" "post_then no_decision d = d"
  by (simp_all add: post_then_def no_decision_def)

lemma composite_shows_iff:
  "pd_block_reason d = None \<Longrightarrow>
   pd_block_reason (fst (composite_after_from hooks result d h)) = None \<longleftrightarrow> all_pass hooks result d h"
proof (induction hooks arbitrary: d h)
  case (Cons hook hooks)
  obtain a h' where r: "hk_after hook (current_view result d) h = (a, h')"
    by (cases "hk_after hook (current_view result d) h")
  show ?case
  proof (cases a)
    case None
    then show ?thesis by (simp add: r block_result_def post_then_def)
  next
    case (Some e)
    show ?thesis
    proof (cases "pd_block_reason e")
      case None
      then have "pd_block_reason (post_then d e) = None" using Cons.prems by (simp add: post_then_block)
      with None show ?thesis using Cons.IH [of "post_then d e" h'] by (simp add: r Some Let_def)
    next
      case (Some reason)
      then show ?thesis using Cons.prems by (simp add: r \<open>a = Some e\<close> post_then_def)
    qed
  qed
qed simp

text \<open>Through the pipeline: a call that acted was allowed by every hook of its chain.\<close>

lemma acted_all_allow:
  assumes "sp_hook spec = Some (loop_hook_chain primary extras)"
    and "ps_world (snd (run_tool_call ops env spec call ps)) \<noteq> ps_world ps"
  shows "\<exists>tool params. cleared spec call ps tool params \<and>
    all_allow (primary # extras) (call_request spec call params) (ps_hook ps)"
proof -
  from run_tool_call_gate [OF assms(2)] obtain tool params where c: "cleared spec call ps tool params" by blast
  then have "fst (loop_authorize primary extras (call_request spec call params) (ps_hook ps)) = Some AllowCall"
    using assms(1) by (auto simp: cleared_def hook_allows_def loop_hook_chain_def)
  with c show ?thesis unfolding loop_allows_iff by blast
qed

section \<open>Asking at the terminal\<close>

definition ARG_PREVIEW_LIMIT :: nat where "ARG_PREVIEW_LIMIT = 120"

definition USER_DENIED_REASON :: string where "USER_DENIED_REASON = ''User denied tool execution''"

definition CLI_CHAT_ID :: string where "CLI_CHAT_ID = ''cli''"

definition WEBSOCKET_CHANNEL :: string where "WEBSOCKET_CHANNEL = ''websocket''"

definition unanswerable :: "string \<Rightarrow> call_decision" where
  "unanswerable why =
     DenyCall (''confirmation is required (tools.confirmBeforeExecute) but '' @ why @
       '', so the call was not run'')"

datatype cli_choice = RunCall | SkipCall | RunAndGrant approval_grant string

definition cli_choices :: "string \<Rightarrow> bool \<Rightarrow> cli_choice list" where
  "cli_choices tool_name turn_known =
     [RunCall, SkipCall] @
     (if turn_known then [RunAndGrant GrantTurn ''Run, and allow all calls for this turn''] else []) @
     [RunAndGrant GrantSessionTool (''Run, and always allow `'' @ tool_name @ ''` this session''),
      RunAndGrant GrantSession ''Run, and allow everything this session'']"

definition apply_choice ::
    "cli_choice option \<Rightarrow> string \<Rightarrow> string option \<Rightarrow> string \<Rightarrow> approval_grants \<Rightarrow> call_decision \<times> approval_grants" where
  "apply_choice answer chat_id turn_id tool_name g =
     (case answer of
        Some RunCall \<Rightarrow> (AllowCall, g)
      | Some (RunAndGrant grant label) \<Rightarrow> (AllowCall, snd (grants_add chat_id grant turn_id [tool_name] g))
      | _ \<Rightarrow> (DenyCall USER_DENIED_REASON, g))"

definition cli_authorize ::
    "(json \<Rightarrow> string option) \<Rightarrow> bool \<Rightarrow> (string \<Rightarrow> string \<Rightarrow> cli_choice list \<Rightarrow> cli_choice option) \<Rightarrow>
     authorization_request \<Rightarrow> approval_grants \<Rightarrow> call_decision \<times> approval_grants" where
  "cli_authorize show_json tty prompt request g =
     (let chat_id = (case ar_chat_id request of Some c \<Rightarrow> c | None \<Rightarrow> CLI_CHAT_ID) in
      if grants_is_granted chat_id (ar_turn_id request) (ar_tool_name request) g then (AllowCall, g)
      else if \<not> tty then (unanswerable ''stdin is not a terminal'', g)
      else
        (let choices = cli_choices (ar_tool_name request) (ar_turn_id request \<noteq> None);
             answer = prompt (ar_tool_name request)
               (preview_arguments show_json (ar_arguments request) ARG_PREVIEW_LIMIT) choices
         in apply_choice answer chat_id (ar_turn_id request) (ar_tool_name request) g))"

section \<open>Asking a web chat\<close>

definition approval_call_of :: "(json \<Rightarrow> string option) \<Rightarrow> authorization_request \<Rightarrow> approval_call" where
  "approval_call_of show_json request =
     \<lparr>ac_id = ar_call_id request, ac_name = ar_tool_name request,
      ac_arguments_preview = preview_arguments show_json (ar_arguments request) APPROVAL_ARG_PREVIEW_LIMIT\<rparr>"

record ask_env =
  ae_show_json :: "json \<Rightarrow> string option"
  ae_show_channel :: "string option \<Rightarrow> string"
  ae_bus_wired :: bool
  ae_publish_ok :: bool
  ae_fresh_id :: "approval_broker \<Rightarrow> string"
  ae_traffic :: "string \<Rightarrow> approval_broker \<Rightarrow> broker_op list"

text \<open>
  The answer of the request, if one was sent before the limit; dropping the guard forgets the
  request on every path after it was registered.
\<close>

definition ws_authorize ::
    "ask_env \<Rightarrow> authorization_request \<Rightarrow> approval_broker \<Rightarrow> call_decision \<times> approval_broker" where
  "ws_authorize env request b =
     (case (ar_channel request, ar_chat_id request) of
        (Some channel, Some chat_id) \<Rightarrow>
          if channel = WEBSOCKET_CHANNEL \<and> chat_id \<noteq> [] then
            (if broker_is_granted chat_id (ar_turn_id request) (ar_tool_name request) b then (AllowCall, b)
             else if \<not> ae_bus_wired env then (unanswerable ''no bus is wired to ask through'', b)
             else
               (let request_id = ae_fresh_id env b;
                    b1 = register_for_turn request_id chat_id
                           [approval_call_of (ae_show_json env) request] (ar_turn_id request) b
                in if \<not> ae_publish_ok env
                   then (DenyCall USER_DENIED_REASON, cancel_approval request_id b1)
                   else
                     (let b2 = broker_run (ae_traffic env request_id b1) b1;
                          approved = (case map_of (bk_answers b2) request_id of Some ids \<Rightarrow> ids | None \<Rightarrow> [])
                      in (if ar_call_id request \<in> set approved then AllowCall
                          else DenyCall USER_DENIED_REASON,
                          cancel_approval request_id b2))))
          else (unanswerable (''channel '' @ ae_show_channel env (ar_channel request) @ '' cannot ask for it''), b)
      | _ \<Rightarrow> (unanswerable (''channel '' @ ae_show_channel env (ar_channel request) @ '' cannot ask for it''), b))"

definition ws_ask_hook :: "ask_env \<Rightarrow> approval_broker agent_hook" where
  "ws_ask_hook env =
     \<lparr>hk_authorize = (\<lambda>request b. case ws_authorize env request b of (d, b) \<Rightarrow> (Some d, b)),
      hk_after = (\<lambda>result b. (Some no_decision, b)),
      hk_on_result = (\<lambda>event b. b)\<rparr>"

text \<open>
  The chat answered the request it was asked, naming the call: an answer of that chat in the
  traffic, before the limit.
\<close>

definition chat_approved :: "ask_env \<Rightarrow> authorization_request \<Rightarrow> string \<Rightarrow> approval_broker \<Rightarrow> bool" where
  "chat_approved env request chat b \<longleftrightarrow>
     (let i = ae_fresh_id env b;
          b1 = register_for_turn i chat [approval_call_of (ae_show_json env) request] (ar_turn_id request) b
      in \<exists>asked grant. OpResolve chat i asked grant \<in> set (ae_traffic env i b1) \<and> ar_call_id request \<in> set asked)"

text \<open>UUIDs do not repeat: the id of a request is new, and nobody else registers it.\<close>

definition fresh_ids :: "ask_env \<Rightarrow> bool" where
  "fresh_ids env \<longleftrightarrow>
     (\<forall>b. map_of (bk_answers b) (ae_fresh_id env b) = None) \<and>
     (\<forall>i b chat calls turn. OpRegister i chat calls turn \<notin> set (ae_traffic env i b))"

lemma ws_allows_only_when_approved:
  assumes fresh: "fresh_ids env"
    and allow: "fst (ws_authorize env request b) = AllowCall"
  obtains chat where "ar_channel request = Some WEBSOCKET_CHANNEL" "ar_chat_id request = Some chat" "chat \<noteq> []"
    "broker_is_granted chat (ar_turn_id request) (ar_tool_name request) b \<or> chat_approved env request chat b"
proof -
  from allow obtain chat where c: "ar_channel request = Some WEBSOCKET_CHANNEL" "ar_chat_id request = Some chat"
      "chat \<noteq> []"
    by (auto simp: ws_authorize_def unanswerable_def split: option.splits if_splits)
  let ?i = "ae_fresh_id env b"
  let ?b1 = "register_for_turn ?i chat [approval_call_of (ae_show_json env) request] (ar_turn_id request) b"
  let ?ops = "ae_traffic env ?i ?b1"
  have "broker_is_granted chat (ar_turn_id request) (ar_tool_name request) b \<or> chat_approved env request chat b"
  proof (cases "broker_is_granted chat (ar_turn_id request) (ar_tool_name request) b")
    case False
    then obtain ids where ids: "map_of (bk_answers (broker_run ?ops ?b1)) ?i = Some ids" "ar_call_id request \<in> set ids"
      using allow c
      by (cases "map_of (bk_answers (broker_run ?ops ?b1)) ?i")
        (auto simp: ws_authorize_def unanswerable_def Let_def split: if_splits)
    have "map_of (bk_answers ?b1) ?i = None" using fresh by (simp add: fresh_ids_def register_for_turn_def)
    with answer_earned [OF ids(1)] have "answered_by ?ops ?b1 ?i ids" by simp
    then obtain before c' asked grant rest entry where
        ops: "?ops = before @ OpResolve c' ?i asked grant # rest"
        and entry: "map_of (bk_pending (broker_run before ?b1)) ?i = Some entry" "pa_chat_id entry = c'"
        and sub: "set ids \<subseteq> set asked"
      unfolding answered_by_def by blast
    have "OpRegister ?i (pa_chat_id entry) (pa_calls entry) (pa_turn_id entry) \<notin> set before"
    proof
      assume "OpRegister ?i (pa_chat_id entry) (pa_calls entry) (pa_turn_id entry) \<in> set before"
      then have "OpRegister ?i (pa_chat_id entry) (pa_calls entry) (pa_turn_id entry) \<in> set ?ops"
        unfolding ops by simp
      with fresh show False by (simp add: fresh_ids_def)
    qed
    with pending_registered [OF entry(1)] have "map_of (bk_pending ?b1) ?i = Some entry" by blast
    then have "c' = chat" using entry(2) by (auto simp: register_for_turn_def)
    moreover have "OpResolve c' ?i asked grant \<in> set ?ops" unfolding ops by simp
    ultimately show ?thesis using sub ids(2) unfolding chat_approved_def Let_def by blast
  qed simp
  with that c show thesis by blast
qed

text \<open>
  Through the pipeline: with the web hook in the chain of a turn, a call acted only in a web chat,
  and only after that chat allowed it, by a grant or by an answer.
\<close>

definition web_chat_allows :: "ask_env \<Rightarrow> authorization_request \<Rightarrow> approval_broker \<Rightarrow> bool" where
  "web_chat_allows env request b \<longleftrightarrow>
     (\<exists>chat. ar_channel request = Some WEBSOCKET_CHANNEL \<and> ar_chat_id request = Some chat \<and> chat \<noteq> [] \<and>
        (broker_is_granted chat (ar_turn_id request) (ar_tool_name request) b \<or>
         chat_approved env request chat b))"

lemma pipeline_asks_the_chat:
  assumes "sp_hook spec = Some (loop_hook_chain primary (ws_ask_hook env # extras))" and "fresh_ids env"
    and "ps_world (snd (run_tool_call ops penv spec call ps)) \<noteq> ps_world ps"
  shows "\<exists>tool params. cleared spec call ps tool params \<and>
    web_chat_allows env (call_request spec call params)
      (snd (hk_authorize primary (call_request spec call params) (ps_hook ps)))"
proof -
  from acted_all_allow [OF assms(1,3)] obtain tool params where
      c: "cleared spec call ps tool params"
      and a: "all_allow (primary # ws_ask_hook env # extras) (call_request spec call params) (ps_hook ps)"
    by blast
  let ?b = "snd (hk_authorize primary (call_request spec call params) (ps_hook ps))"
  from a have "fst (ws_authorize env (call_request spec call params) ?b) = AllowCall"
    by (auto simp: ws_ask_hook_def split: prod.splits)
  from ws_allows_only_when_approved [OF assms(2) this]
  have "web_chat_allows env (call_request spec call params) ?b" unfolding web_chat_allows_def by blast
  with c show ?thesis by blast
qed

lemma cli_allows_only_when_answered:
  assumes "fst (cli_authorize show_json tty prompt request g) = AllowCall"
  defines "chat \<equiv> (case ar_chat_id request of Some c \<Rightarrow> c | None \<Rightarrow> CLI_CHAT_ID)"
  shows "grants_is_granted chat (ar_turn_id request) (ar_tool_name request) g \<or>
    tty \<and> (\<exists>choice. prompt (ar_tool_name request)
      (preview_arguments show_json (ar_arguments request) ARG_PREVIEW_LIMIT)
      (cli_choices (ar_tool_name request) (ar_turn_id request \<noteq> None)) = Some choice \<and> choice \<noteq> SkipCall)"
  using assms(1) unfolding chat_def
  by (auto simp: cli_authorize_def apply_choice_def unanswerable_def Let_def
      split: if_splits option.splits cli_choice.splits)

end
