(* ===== verification/Message_Bus.thy ===== *)
theory Message_Bus
  imports Inbox_Laws
begin

text \<open>
  \<open>src/bus/queue.rs\<close>: queues with a count of pending messages, and the bus whose inbound side is
  screened by a guard.

  \<open>mpsc\<close> is a list and a flag whether the receiver still exists.  A send and a receive are two
  atomic steps each (the counter and the channel), which other tasks can interleave; the count is
  a \<open>usize\<close> and wraps.  Waiting for a message is \<open>None\<close>.
\<close>

section \<open>Tracked queues\<close>

record 'm async_queue =
  aq_inner :: "'m list"
  aq_open :: bool
  aq_count :: u64

definition queue_new :: "'m async_queue" where
  "queue_new = \<lparr>aq_inner = [], aq_open = True, aq_count = 0\<rparr>"

definition count_up :: "'m async_queue \<Rightarrow> 'm async_queue" where
  "count_up q = q\<lparr>aq_count := aq_count q + 1\<rparr>"

definition count_down :: "'m async_queue \<Rightarrow> 'm async_queue" where
  "count_down q = q\<lparr>aq_count := aq_count q - 1\<rparr>"

text \<open>\<open>UnboundedSender::send\<close>: the message comes back when the receiver is gone.\<close>

definition channel_send :: "'m \<Rightarrow> 'm async_queue \<Rightarrow> ('m + unit) \<times> 'm async_queue" where
  "channel_send m q = (if aq_open q then (Inr (), q\<lparr>aq_inner := aq_inner q @ [m]\<rparr>) else (Inl m, q))"

definition queue_send :: "'m \<Rightarrow> 'm async_queue \<Rightarrow> ('m + unit) \<times> 'm async_queue" where
  "queue_send m q = channel_send m (count_up q)"

definition queue_recv :: "'m async_queue \<Rightarrow> ('m \<times> 'm async_queue) option" where
  "queue_recv q =
     (case aq_inner q of
        [] \<Rightarrow> None
      | m # ms \<Rightarrow> Some (m, count_down (q\<lparr>aq_inner := ms\<rparr>)))"

definition queue_len :: "'m async_queue \<Rightarrow> nat" where
  "queue_len q = unat (aq_count q)"

definition queue_is_empty :: "'m async_queue \<Rightarrow> bool" where
  "queue_is_empty q \<longleftrightarrow> queue_len q = 0"

text \<open>\<open>try_recv\<close>: nothing also when another task holds the receiver.\<close>

definition queue_try_recv :: "bool \<Rightarrow> 'm async_queue \<Rightarrow> ('m \<times> 'm async_queue) option" where
  "queue_try_recv busy q = (if busy then None else queue_recv q)"

section \<open>Concurrent senders and receivers\<close>

text \<open>
  The queue with the tasks between their two steps: what they are about to send, how many have
  taken a message without counting it down, and the messages that found the receiver gone.
  \<open>taken\<close> records the messages received, in order, and \<open>sent\<close> those that entered the channel.
\<close>

record 'm queue_run =
  qr_queue :: "'m async_queue"
  qr_sending :: "'m list"
  qr_taking :: nat
  qr_lost :: "'m list"
  qr_sent :: "'m list"
  qr_taken :: "'m list"

definition queue_run_new :: "'m queue_run" where
  "queue_run_new = \<lparr>qr_queue = queue_new, qr_sending = [], qr_taking = 0, qr_lost = [], qr_sent = [], qr_taken = []\<rparr>"

inductive queue_step :: "'m queue_run \<Rightarrow> 'm queue_run \<Rightarrow> bool" where
  send_count: "queue_step r (r\<lparr>qr_queue := count_up (qr_queue r), qr_sending := m # qr_sending r\<rparr>)"
| send_channel: "m \<in> set (qr_sending r) \<Longrightarrow> channel_send m (qr_queue r) = (Inr (), q) \<Longrightarrow>
    queue_step r (r\<lparr>qr_queue := q, qr_sending := remove1 m (qr_sending r), qr_sent := qr_sent r @ [m]\<rparr>)"
| send_lost: "m \<in> set (qr_sending r) \<Longrightarrow> channel_send m (qr_queue r) = (Inl m', q) \<Longrightarrow>
    queue_step r (r\<lparr>qr_queue := q, qr_sending := remove1 m (qr_sending r), qr_lost := m' # qr_lost r\<rparr>)"
| take: "aq_inner (qr_queue r) = m # ms \<Longrightarrow>
    queue_step r (r\<lparr>qr_queue := (qr_queue r)\<lparr>aq_inner := ms\<rparr>, qr_taking := qr_taking r + 1, qr_taken := qr_taken r @ [m]\<rparr>)"
| take_count: "qr_taking r = Suc n \<Longrightarrow>
    queue_step r (r\<lparr>qr_queue := count_down (qr_queue r), qr_taking := n\<rparr>)"
| close: "queue_step r (r\<lparr>qr_queue := (qr_queue r)\<lparr>aq_open := False\<rparr>\<rparr>)"

inductive_cases queue_stepE: "queue_step r r'"

definition queue_run_ok :: "'m queue_run \<Rightarrow> bool" where
  "queue_run_ok r \<longleftrightarrow>
     aq_count (qr_queue r) =
       of_nat (length (aq_inner (qr_queue r)) + length (qr_sending r) + qr_taking r + length (qr_lost r)) \<and>
     qr_sent r = qr_taken r @ aq_inner (qr_queue r) \<and>
     (aq_open (qr_queue r) \<longrightarrow> qr_lost r = [])"

lemma queue_step_ok: "queue_step r r' \<Longrightarrow> queue_run_ok r \<Longrightarrow> queue_run_ok r'"
proof (induction rule: queue_step.induct)
  case (send_channel m r q)
  then obtain n where "length (qr_sending r) = Suc n" by (cases "qr_sending r") auto
  with send_channel show ?case
    by (auto simp: queue_run_ok_def channel_send_def length_remove1 split: if_splits)
next
  case (send_lost m r m' q)
  then obtain n where "length (qr_sending r) = Suc n" by (cases "qr_sending r") auto
  with send_lost show ?case
    by (auto simp: queue_run_ok_def channel_send_def length_remove1 split: if_splits)
qed (auto simp: queue_run_ok_def count_up_def count_down_def)

lemma queue_steps_ok: "queue_step\<^sup>*\<^sup>* r r' \<Longrightarrow> queue_run_ok r \<Longrightarrow> queue_run_ok r'"
  by (induction rule: rtranclp_induct) (auto intro: queue_step_ok)

lemma queue_run_new_ok: "queue_run_ok queue_run_new"
  by (simp add: queue_run_ok_def queue_run_new_def queue_new_def)

lemma queue_count_exact:
  assumes "queue_step\<^sup>*\<^sup>* queue_run_new r"
    and "length (aq_inner (qr_queue r)) + length (qr_sending r) + qr_taking r + length (qr_lost r) < 2 ^ 64"
  shows "queue_len (qr_queue r) =
    length (aq_inner (qr_queue r)) + length (qr_sending r) + qr_taking r + length (qr_lost r)"
  using queue_steps_ok [OF assms(1) queue_run_new_ok] assms(2)
  by (simp add: queue_run_ok_def queue_len_def unsigned_of_nat take_bit_nat_eq_self del: of_nat_add)

lemma queue_fifo: "queue_step\<^sup>*\<^sup>* queue_run_new r \<Longrightarrow> qr_sent r = qr_taken r @ aq_inner (qr_queue r)"
  using queue_steps_ok queue_run_new_ok by (fastforce simp: queue_run_ok_def)

section \<open>The bus\<close>

record 'ev message_bus =
  mb_inbound :: "inbound_message async_queue"
  mb_outbound :: "'ev outbound_message async_queue"

definition bus_new :: "'ev message_bus" where
  "bus_new = \<lparr>mb_inbound = queue_new, mb_outbound = queue_new\<rparr>"

definition publish_outbound ::
    "'ev outbound_message \<Rightarrow> 'ev message_bus \<Rightarrow> ('ev outbound_message + unit) \<times> 'ev message_bus" where
  "publish_outbound msg bus =
     (case queue_send msg (mb_outbound bus) of (res, q) \<Rightarrow> (res, bus\<lparr>mb_outbound := q\<rparr>))"

definition republish_inbound ::
    "inbound_message \<Rightarrow> 'ev message_bus \<Rightarrow> (inbound_message + unit) \<times> 'ev message_bus" where
  "republish_inbound msg bus =
     (case queue_send msg (mb_inbound bus) of (res, q) \<Rightarrow> (res, bus\<lparr>mb_inbound := q\<rparr>))"

definition consume_inbound :: "'ev message_bus \<Rightarrow> (inbound_message \<times> 'ev message_bus) option" where
  "consume_inbound bus = map_option (\<lambda>(m, q). (m, bus\<lparr>mb_inbound := q\<rparr>)) (queue_recv (mb_inbound bus))"

definition consume_outbound :: "'ev message_bus \<Rightarrow> ('ev outbound_message \<times> 'ev message_bus) option" where
  "consume_outbound bus = map_option (\<lambda>(m, q). (m, bus\<lparr>mb_outbound := q\<rparr>)) (queue_recv (mb_outbound bus))"

text \<open>The installed guard, if any, decides on its own state \<open>g\<close>.\<close>

definition publish_inbound ::
    "(inbound_message \<Rightarrow> 'g \<Rightarrow> 'ev inbound_admission \<times> 'g) option \<Rightarrow> inbound_message \<Rightarrow> 'ev message_bus \<times> 'g \<Rightarrow>
     (inbound_message + unit) \<times> 'ev message_bus \<times> 'g" where
  "publish_inbound guard msg s =
     (case s of (bus, g) \<Rightarrow>
        (case (case guard of None \<Rightarrow> (Accept, g) | Some admit_msg \<Rightarrow> admit_msg msg g) of
           (Accept, g) \<Rightarrow> (case republish_inbound msg bus of (res, bus) \<Rightarrow> (res, bus, g))
         | (Drop, g) \<Rightarrow> (Inr (), bus, g)
         | (Reply reply, g) \<Rightarrow> (Inr (), snd (publish_outbound reply bus), g)))"

section \<open>With the ledger as the guard\<close>

datatype bus_op =
    BusPublish string inbound_message
  | BusConsume
  | BusLedger run_journal ledger_op

text \<open>One operation on the bus and the journals, and the messages it puts on the inbound queue.\<close>

fun bus_step ::
    "'st journal_store \<Rightarrow> (inbound_message \<Rightarrow> json option) \<Rightarrow> bus_op \<Rightarrow> 'ev message_bus \<times> 'st \<Rightarrow>
     inbound_message list \<times> 'ev message_bus \<times> 'st" where
  "bus_step ops tv (BusPublish now msg) s =
     (case publish_inbound (Some (guard_admit ops tv now)) msg s of
        (_, bus', st') \<Rightarrow>
          (drop (length (aq_inner (mb_inbound (fst s)))) (aq_inner (mb_inbound bus')), bus', st'))"
| "bus_step ops tv BusConsume s =
     (case consume_inbound (fst s) of Some (_, bus) \<Rightarrow> ([], bus, snd s) | None \<Rightarrow> ([], s))"
| "bus_step ops tv (BusLedger rj x) s = ([], fst s, ledger_op_step ops tv rj x (snd s))"

fun bus_run ::
    "'st journal_store \<Rightarrow> (inbound_message \<Rightarrow> json option) \<Rightarrow> bus_op list \<Rightarrow> 'ev message_bus \<times> 'st \<Rightarrow>
     inbound_message list \<times> 'ev message_bus \<times> 'st" where
  "bus_run ops tv [] s = ([], s)"
| "bus_run ops tv (x # xs) s =
     (case bus_step ops tv x s of (ms, s) \<Rightarrow>
       (case bus_run ops tv xs s of (ms', s) \<Rightarrow> (ms @ ms', s)))"

text \<open>A store whose appends do not fail.\<close>

definition reliable :: "'st journal_store \<Rightarrow> bool" where
  "reliable ops \<longleftrightarrow> (\<forall>st key now r d. \<exists>n st'. js_append ops st key now r d = (Inr n, st'))"

definition deliveries :: "string \<Rightarrow> string \<Rightarrow> inbound_message list \<Rightarrow> nat" where
  "deliveries key r ms = length (filter (\<lambda>m. session_key m = key \<and> im_request_id m = Some r) ms)"

lemma deliveries_simps [simp]:
  "deliveries key r [] = 0"
  "deliveries key r (ms @ ms') = deliveries key r ms + deliveries key r ms'"
  "deliveries key r (m # ms) = (if session_key m = key \<and> im_request_id m = Some r then 1 else 0) + deliveries key r ms"
  by (simp_all add: deliveries_def)

lemma fst_publish_ledger:
  "publish_inbound (Some (guard_admit ops tv now)) msg (bus, st) = (res, bus', st') \<Longrightarrow>
   st' = snd (admit ops tv (rj_new (session_key msg)) now msg st) \<and>
   drop (length (aq_inner (mb_inbound bus))) (aq_inner (mb_inbound bus')) =
   (if fst (admit ops tv (rj_new (session_key msg)) now msg st) = New \<and> aq_open (mb_inbound bus) then [msg] else [])"
  by (cases "admit ops tv (rj_new (session_key msg)) now msg st")
    (auto simp: publish_inbound_def guard_admit_def republish_inbound_def publish_outbound_def queue_send_def
      channel_send_def count_up_def Let_def split: admission.splits option.splits inbox_state.splits if_splits prod.splits)

context journal_laws
begin

lemma append_known_mono:
  assumes "inv st" "js_append ops st k now r d = (res, st')"
  shows "known_ids (entries_of ops st key) \<subseteq> known_ids (entries_of ops st' key)"
proof (cases "slot key = slot k")
  case True
  then have "js_scan ops st key = js_scan ops st k" "js_scan ops st' key = js_scan ops st' k"
    using slot_scan assms append_inv by blast+
  moreover have "known_ids (entries_of ops st k) \<subseteq> known_ids (entries_of ops st' k)"
    using assms by (rule append_entries_cases) (auto simp del: set_simps)
  ultimately show ?thesis by simp
next
  case False
  then show ?thesis using append_frame [OF assms] by simp
qed

lemma ledger_op_append:
  "ledger_op_step ops tv rj x st = st \<or> (\<exists>k now r d. ledger_op_step ops tv rj x st = snd (js_append ops st k now r d))"
  by (cases x) (auto simp: admit_def mark_processing_def mark_done_def mark_entry_done_def ledger_append_def
      rj_append_def rj_append_synced_def Let_def split: option.splits)

lemma ledger_op_known_mono:
  assumes "inv st"
  shows "known_ids (entries_of ops st key) \<subseteq> known_ids (entries_of ops (ledger_op_step ops tv rj x st) key)"
  using ledger_op_append [of tv rj x st]
proof
  assume "\<exists>k now r d. ledger_op_step ops tv rj x st = snd (js_append ops st k now r d)"
  then obtain k now r d where "ledger_op_step ops tv rj x st = snd (js_append ops st k now r d)" by blast
  with append_known_mono [OF assms, of k now r d _ _ key] show ?thesis
    by (cases "js_append ops st k now r d") simp
qed simp

lemma admit_new_knows:
  assumes "reliable ops" "inv st" "im_request_id msg = Some r"
    and "admit ops tv (rj_new (session_key msg)) now msg st = (New, st')"
  shows "r \<notin> known_ids (entries_of ops st (session_key msg)) \<and> r \<in> known_ids (entries_of ops st' (session_key msg))"
proof -
  let ?rj = "rj_new (session_key msg)"
  have key: "rj_session_key ?rj = session_key msg" by (simp add: rj_new_def)
  have fresh: "r \<notin> known_ids (entries_of ops st (session_key msg))"
    using admit_known [of r ops ?rj st msg tv now] assms(3,4) by (auto simp: rj_scan_def key)
  obtain n where "rj_append_synced ops ?rj now (Inbox r (im_channel msg) (im_chat_id msg) (session_key msg)
      Queued None None (tv msg)) st = (Inr n, st')"
  proof -
    obtain m s where a: "rj_append_synced ops ?rj now (Inbox r (im_channel msg) (im_chat_id msg) (session_key msg)
      Queued None None (tv msg)) st = (Inr m, s)"
      using assms(1) unfolding reliable_def rj_append_synced_def by blast
    then have "s = st'" using assms(3,4) by (auto simp: admit_def ledger_append_def split: option.splits)
    with a that show thesis by blast
  qed
  from rj_append_synced_ok [OF assms(2) this] have
    "r \<in> known_ids (entries_of ops st' (session_key msg))"
    by (simp add: rj_scan_def key map_filter_Cons inbox_id_def)
  with fresh show ?thesis by blast
qed

lemma bus_step_once:
  assumes rel: "reliable ops" and inv: "inv (snd s)" and step: "bus_step ops tv x s = (ms, s')"
  shows "inv (snd s') \<and> known_ids (entries_of ops (snd s) key) \<subseteq> known_ids (entries_of ops (snd s') key) \<and>
    deliveries key r ms \<le> 1 \<and>
    (deliveries key r ms = 1 \<longrightarrow>
      r \<notin> known_ids (entries_of ops (snd s) key) \<and> r \<in> known_ids (entries_of ops (snd s') key))"
proof (cases x)
  case (BusPublish now msg)
  obtain bus st where s: "s = (bus, st)" by (cases s)
  obtain res bus' st' where p: "publish_inbound (Some (guard_admit ops tv now)) msg (bus, st) = (res, bus', st')"
    by (metis prod.exhaust)
  let ?rj = "rj_new (session_key msg)"
  note pub = fst_publish_ledger [OF p]
  from step have ms: "ms = (if fst (admit ops tv ?rj now msg st) = New \<and> aq_open (mb_inbound bus) then [msg] else [])"
    and s': "s' = (bus', st')"
    using pub by (auto simp: BusPublish s p)
  have st': "st' = ledger_op_step ops tv ?rj (OpAdmit now msg) st" using pub by simp
  have "inv st'" using ledger_op_mono [of st ?rj tv "OpAdmit now msg"] inv unfolding st' s by simp
  moreover have "known_ids (entries_of ops st key) \<subseteq> known_ids (entries_of ops st' key)"
    unfolding st' using inv s by (intro ledger_op_known_mono) simp
  moreover have "r \<notin> known_ids (entries_of ops st key) \<and> r \<in> known_ids (entries_of ops st' key)"
    if one: "deliveries key r ms = 1"
  proof -
    from one have new: "fst (admit ops tv ?rj now msg st) = New" and m: "session_key msg = key" "im_request_id msg = Some r"
      by (auto simp: ms split: if_splits)
    have "admit ops tv ?rj now msg st = (New, st')" using new pub by (simp add: prod_eq_iff)
    from admit_new_knows [OF rel _ m(2) this] inv s m show ?thesis by simp
  qed
  ultimately show ?thesis by (simp add: s s' ms)
next
  case BusConsume
  then show ?thesis using inv step by (auto simp: consume_inbound_def split: option.splits prod.splits)
next
  case (BusLedger rj y)
  then show ?thesis
    using step inv ledger_op_mono [of "snd s" rj tv y] ledger_op_known_mono [of "snd s" key tv rj y] by auto
qed

lemma bus_run_once:
  assumes "reliable ops" "inv (snd s)" "bus_run ops tv xs s = (ms, s')"
  shows "deliveries key r ms \<le> 1 \<and>
    (r \<in> known_ids (entries_of ops (snd s) key) \<longrightarrow> deliveries key r ms = 0)"
  using assms(2,3)
proof (induction xs arbitrary: s ms)
  case (Cons x xs)
  obtain ms1 s1 where a: "bus_step ops tv x s = (ms1, s1)" by (cases "bus_step ops tv x s")
  obtain ms2 s2 where b: "bus_run ops tv xs s1 = (ms2, s2)" by (cases "bus_run ops tv xs s1")
  have ms: "ms = ms1 @ ms2" using Cons.prems a b by simp
  have s2: "bus_run ops tv xs s1 = (ms2, s')" using Cons.prems a b by simp
  note one = bus_step_once [OF assms(1) Cons.prems(1) a, where key = key and r = r]
  note rest = Cons.IH [OF _ s2]
  show ?case
  proof (cases "deliveries key r ms1")
    case 0
    then show ?thesis using one rest ms by auto
  next
    case (Suc n)
    then have "deliveries key r ms1 = 1" using one by simp
    then show ?thesis using one rest ms by auto
  qed
qed simp

end

section \<open>Two deliveries at the same time\<close>

text \<open>
  \<open>admit\<close> reads the ledger and then writes, and nothing keeps another task out in between: the
  two halves of the guard, as two tasks can interleave them.
\<close>

definition admit_lookup :: "'st journal_store \<Rightarrow> run_journal \<Rightarrow> inbound_message \<Rightarrow> 'st \<Rightarrow> admission" where
  "admit_lookup ops rj msg st =
     (case im_request_id msg of
        None \<Rightarrow> New
      | Some request_id \<Rightarrow>
          (case List.find (\<lambda>entry. ib_request_id entry = request_id) (ledger_entries ops rj st) of
             Some known \<Rightarrow> Duplicate (ib_state known) (ib_outcome known)
           | None \<Rightarrow> New))"

definition admit_record ::
    "'st journal_store \<Rightarrow> (inbound_message \<Rightarrow> json option) \<Rightarrow> run_journal \<Rightarrow> string \<Rightarrow> inbound_message \<Rightarrow> admission \<Rightarrow>
     'st \<Rightarrow> 'st" where
  "admit_record ops tv rj now msg verdict st =
     (case (verdict, im_request_id msg) of
        (New, Some request_id) \<Rightarrow> ledger_append ops rj now msg request_id Queued None None (tv msg) st
      | _ \<Rightarrow> st)"

lemma admit_halves:
  "admit ops tv rj now msg st =
   (admit_lookup ops rj msg st, admit_record ops tv rj now msg (admit_lookup ops rj msg st) st)"
  by (auto simp: admit_def admit_lookup_def admit_record_def split: option.splits admission.splits)

text \<open>Both tasks look, then both record: the same request is new twice.\<close>

lemma concurrent_deliveries_both_new:
  assumes "im_request_id msg = Some r" and "r \<notin> known_ids (scan_entries (rj_scan memory_ops rj st))"
    and "verdict1 = admit_lookup memory_ops rj msg st" and "verdict2 = admit_lookup memory_ops rj msg st"
    and "st1 = admit_record memory_ops tv rj now msg verdict1 st"
    and "st2 = admit_record memory_ops tv rj now' msg verdict2 st1"
  shows "verdict1 = New" "verdict2 = New"
    and "\<exists>n m. scan_entries (rj_scan memory_ops rj st2) = scan_entries (rj_scan memory_ops rj st) @
      [new_entry now n (Inbox r (im_channel msg) (im_chat_id msg) (session_key msg) Queued None None (tv msg)),
       new_entry now' m (Inbox r (im_channel msg) (im_chat_id msg) (session_key msg) Queued None None (tv msg))]"
proof -
  have "List.find (\<lambda>entry. ib_request_id entry = r) (ledger_entries memory_ops rj st) = None"
    using assms(2) entry_for_None_iff by (simp add: ledger_entries_def)
  then show new: "verdict1 = New" "verdict2 = New"
    using assms(1,3,4) by (simp_all add: admit_lookup_def)
  show "\<exists>n m. scan_entries (rj_scan memory_ops rj st2) = scan_entries (rj_scan memory_ops rj st) @
      [new_entry now n (Inbox r (im_channel msg) (im_chat_id msg) (session_key msg) Queued None None (tv msg)),
       new_entry now' m (Inbox r (im_channel msg) (im_chat_id msg) (session_key msg) Queued None None (tv msg))]"
    unfolding assms(5,6) new admit_record_def assms(1) ledger_append_def Let_def
    by (auto simp: rj_append_synced_def mem_append_def rj_scan_def Let_def)
qed

end
