(* ===== verification/Ask_Examples.thy ===== *)
theory Ask_Examples
  imports Examples Ask_Hooks Message_Bus
begin

text \<open>
  Concrete inputs for approvals, hook chains and the bus: a web chat that is asked about the call of
  \<open>Examples\<close> and answers it, and the ledger guard on the in-memory store.
\<close>

section \<open>A web chat that approves a call\<close>

definition ex_ask_env :: ask_env where
  "ex_ask_env = \<lparr>ae_show_json = (\<lambda>v. Some ''{}''), ae_show_channel = (\<lambda>c. ''channel''),
     ae_bus_wired = True, ae_publish_ok = True,
     ae_fresh_id = (\<lambda>b. replicate (Suc (sum_list (map (length \<circ> fst) (bk_answers b)))) CHR ''q''),
     ae_traffic = (\<lambda>i b. [OpResolve ''chat'' i [''c1''] (Some GrantTurn)])\<rparr>"

lemma ex_fresh: "fresh_ids ex_ask_env"
proof -
  have "map_of (bk_answers b) (ae_fresh_id ex_ask_env b) = None" for b
  proof (rule ccontr)
    assume "map_of (bk_answers b) (ae_fresh_id ex_ask_env b) \<noteq> None"
    then obtain v where "(ae_fresh_id ex_ask_env b, v) \<in> set (bk_answers b)" by (auto dest: map_of_SomeD)
    then have "length (ae_fresh_id ex_ask_env b) \<in> set (map (length \<circ> fst) (bk_answers b))" by force
    from member_le_sum_list [OF this] show False by (simp add: ex_ask_env_def)
  qed
  then show ?thesis by (simp add: fresh_ids_def ex_ask_env_def)
qed

definition ex_silent_hook :: "approval_broker agent_hook" where
  "ex_silent_hook = \<lparr>hk_authorize = (\<lambda>request h. (Some AllowCall, h)), hk_after = (\<lambda>view h. (Some no_decision, h)),
     hk_on_result = (\<lambda>event h. h)\<rparr>"

definition ex_web_spec :: "(nat, approval_broker) run_spec" where
  "ex_web_spec = \<lparr>sp_tools = ex_registry, sp_max_tool_result_chars = 0,
     sp_hook = Some (loop_hook_chain ex_silent_hook [ws_ask_hook ex_ask_env]),
     sp_fail_on_tool_error = False, sp_workspace = None, sp_session_key = Some ''websocket:chat'',
     sp_channel = Some ''websocket'', sp_chat_id = Some ''chat'', sp_journal = Some ex_turn,
     sp_tool_timeout = None\<rparr>"

definition ex_web_state :: "(nat, approval_broker, memory_store) pipe_state" where
  "ex_web_state = \<lparr>ps_world = 0, ps_hook = broker_new, ps_journal = (rj_new ''websocket:chat'', []),
     ps_breaker = breaker_new 5, ps_counts = [], ps_counts_poisoned = False, ps_result_files = []\<rparr>"

lemma ex_web_prepare:
  "\<exists>ps'. prepare_tool_call memory_ops ex_env ex_web_spec ex_call ex_web_state =
   (Returns (Inr (ex_tool, JObject [(''text'', JString ''hi'')])), ps') \<and> ps_world ps' = 0"
proof -
  have "resolve_and_validate (sp_tools ex_web_spec) ex_call = Inr (ex_tool, JObject [(''text'', JString ''hi'')])"
    by (simp add: resolve_and_validate_def ex_web_spec_def ex_call_def validate_call_def ex_tool_def [simplified] Let_def
        flip: ex_tool_def)
  then show ?thesis
    by (simp add: prepare_tool_call_def guard_well_formed_arguments_def ex_call_def ARG_PARSE_ERROR_KEY_def
        authorize_def ex_web_spec_def loop_hook_chain_def loop_authorize_def ex_silent_hook_def ws_ask_hook_def
        ws_authorize_def WEBSOCKET_CHANNEL_def broker_is_granted_def grants_is_granted_def chat_entry_def
        no_grants_def broker_new_def ex_ask_env_def register_for_turn_def approval_call_of_def
        resolve_with_grant_def ex_turn_def broker_add_grant_def grants_add_def cancel_approval_def
        guard_message_circuit_breaker_def observe_def ex_web_state_def
        breaker_new_def MESSAGE_TOOL_NAME_def breaker_reset_def guard_repeated_external_lookup_def
        repeated_external_lookup_error_def external_lookup_signature_def Let_def)
qed

lemma ex_web_world: "ps_world (snd (run_tool_call memory_ops ex_env ex_web_spec ex_call ex_web_state)) = 1"
proof -
  let ?p = "JObject [(''text'', JString ''hi'')]"
  obtain ps' where p: "prepare_tool_call memory_ops ex_env ex_web_spec ex_call ex_web_state =
      (Returns (Inr (ex_tool, ?p)), ps')" "ps_world ps' = 0"
    using ex_web_prepare by blast
  have "ps_world (snd (execute_prepared memory_ops ex_env ex_web_spec ex_call (ex_tool, ?p) ps')) = 1"
    by (simp add: execute_prepared_memory_world execute_tool_def ex_tool_def p(2)
        effective_timeout_def Let_def)
  then show ?thesis
    by (cases "execute_prepared memory_ops ex_env ex_web_spec ex_call (ex_tool, ?p) ps'")
      (simp add: run_tool_call_def p complete_tool_call_def Let_def)
qed

section \<open>The bus\<close>

lemma reliable_memory: "reliable memory_ops"
  by (auto simp: reliable_def mem_append_def Let_def)

definition ex_deliveries :: "bus_op list" where
  "ex_deliveries = [BusPublish ''now'' ex_msg, BusConsume, BusPublish ''later'' ex_msg]"

end
