(* ===== verification/Session.thy ===== *)
theory Session
  imports Json
begin

text \<open>
  \<open>Session\<close> of \<open>src/session/manager.rs\<close>: the conversation in memory, what a prompt sees of it
  (\<open>get_history\<close>), the move of the consolidated prefix to the archive, and the cut to a recent
  window (\<open>retain_recent_legal_suffix\<close>), with \<open>find_legal_message_start\<close> of \<open>src/utils/helpers.rs\<close>
  and \<open>strip_leaked_runtime_context\<close> of \<open>src/runtime_context.rs\<close>.

  The clock is an argument \<open>now\<close> (nanoseconds), its RFC 3339 text the parameter \<open>show_time\<close>; the
  \<open>HashMap\<close> of metadata is an association list.
\<close>

section \<open>Keys\<close>

definition GOAL_STATE_KEY :: string where "GOAL_STATE_KEY = ''goal_state''"
definition SESSION_TOKEN_USAGE_KEY :: string where "SESSION_TOKEN_USAGE_KEY = ''token_usage''"
definition LAST_SUMMARY_KEY :: string where "LAST_SUMMARY_KEY = ''_last_summary''"
definition SESSION_LOADED_TOOLS_METADATA_KEY :: string where "SESSION_LOADED_TOOLS_METADATA_KEY = ''loaded_tools''"
definition COMMAND_KEY :: string where "COMMAND_KEY = ''_command''"
definition HIDDEN_HISTORY_KEY :: string where "HIDDEN_HISTORY_KEY = ''_hidden_history''"

section \<open>Messages\<close>

text \<open>\<open>get("role").and_then(as_str).unwrap_or("")\<close> and its companions.\<close>

definition str_or_empty :: "json \<Rightarrow> string \<Rightarrow> string" where
  "str_or_empty v k = (case get_str v k of Some s \<Rightarrow> s | None \<Rightarrow> [])"

abbreviation role_of :: "json \<Rightarrow> string" where
  "role_of m \<equiv> str_or_empty m ''role''"

abbreviation is_user :: "json \<Rightarrow> bool" where
  "is_user m \<equiv> get_str m ''role'' = Some ''user''"

text \<open>The ids of the tool calls an assistant message declares, and the id a tool message answers.\<close>

definition tool_call_ids :: "json \<Rightarrow> string list" where
  "tool_call_ids m =
     (case get_array m ''tool_calls'' of
        None \<Rightarrow> []
      | Some calls \<Rightarrow> List.map_filter (\<lambda>call. get_str call ''id'') calls)"

definition answered_id :: "json \<Rightarrow> string option" where
  "answered_id m = (if role_of m = ''tool'' then get_str m ''tool_call_id'' else None)"

definition declared_ids :: "json \<Rightarrow> string list" where
  "declared_ids m = (if role_of m = ''assistant'' then tool_call_ids m else [])"

text \<open>
  The scan.  The rescan after a reset looks at \<open>messages[start..=i]\<close> with \<open>start = i + 1\<close>, an
  empty slice.
\<close>

definition legal_step :: "json list \<Rightarrow> string set \<times> nat \<Rightarrow> nat \<Rightarrow> string set \<times> nat" where
  "legal_step messages s i =
     (case s of (declared, start) \<Rightarrow>
       (let msg = messages ! i in
        if role_of msg = ''assistant'' then (declared \<union> set (tool_call_ids msg), start)
        else
          (case answered_id msg of
             Some tid \<Rightarrow>
               if tid \<notin> declared
               then (let start = i + 1
                     in (set (concat (map declared_ids (drop start (take (i + 1) messages)))), start))
               else (declared, start)
           | None \<Rightarrow> (declared, start))))"

definition find_legal_message_start :: "json list \<Rightarrow> nat" where
  "find_legal_message_start messages = snd (foldl (legal_step messages) ({}, 0) [0..<length messages])"

text \<open>The reference: no tool message answers a call that no earlier assistant message declared.\<close>

fun legal_after :: "string set \<Rightarrow> json list \<Rightarrow> bool" where
  "legal_after declared [] \<longleftrightarrow> True"
| "legal_after declared (m # ms) \<longleftrightarrow>
     (\<forall>tid. answered_id m = Some tid \<longrightarrow> tid \<in> declared) \<and> legal_after (declared \<union> set (declared_ids m)) ms"

definition legal :: "json list \<Rightarrow> bool" where
  "legal ms \<longleftrightarrow> legal_after {} ms"

abbreviation declared_in :: "json list \<Rightarrow> string set" where
  "declared_in ms \<equiv> set (concat (map declared_ids ms))"

lemma legal_after_append:
  "legal_after d (xs @ ys) \<longleftrightarrow> legal_after d xs \<and> legal_after (d \<union> declared_in xs) ys"
  by (induction xs arbitrary: d) (auto simp: Un_assoc)

lemma legal_snoc:
  "legal (xs @ [m]) \<longleftrightarrow> legal xs \<and> (\<forall>tid. answered_id m = Some tid \<longrightarrow> tid \<in> declared_in xs)"
  by (simp add: legal_def legal_after_append)

lemma legal_Nil [simp]: "legal []"
  by (simp add: legal_def)

lemma legal_prefix: "legal (xs @ ys) \<Longrightarrow> legal xs"
  by (simp add: legal_def legal_after_append)

lemma legal_step_prefix:
  "i < length xs \<Longrightarrow> legal_step (xs @ ys) s i = legal_step xs s i"
  by (simp add: legal_step_def nth_append Let_def split: prod.splits option.splits)

lemma legal_scan_invariant:
  "foldl (legal_step ms) ({}, 0) [0..<length ms] = (declared, start) \<Longrightarrow>
   declared = declared_in (drop start ms) \<and> start \<le> length ms \<and> legal (drop start ms) \<and>
   (\<forall>k < start. \<not> legal (drop k ms))"
proof (induction ms arbitrary: declared start rule: rev_induct)
  case (snoc m ms)
  obtain d s where r: "foldl (legal_step ms) ({}, 0) [0..<length ms] = (d, s)" by fastforce
  have "foldl (legal_step (ms @ [m])) ({}, 0) [0..<length ms] = (d, s)"
    unfolding r [symmetric] by (rule foldl_cong) (auto simp: legal_step_prefix)
  then have step: "legal_step (ms @ [m]) (d, s) (length ms) = (declared, start)"
    using snoc.prems by simp
  note ih = snoc.IH [OF r]
  have earlier: "\<not> legal (drop k (ms @ [m]))" if "k < s" for k
    using that ih legal_prefix [of "drop k ms" "[m]"] by auto
  show ?case
  proof (cases "\<exists>tid. answered_id m = Some tid \<and> tid \<notin> d")
    case True
    then have s: "declared = {}" "start = Suc (length ms)"
      using step by (auto simp: legal_step_def answered_id_def Let_def split: if_splits)
    have "\<not> legal (drop k (ms @ [m]))" if "k \<le> length ms" for k
    proof (cases "k < s")
      case False
      then have "declared_in (drop k ms) \<subseteq> d"
        using ih set_drop_subset_set_drop [of s k ms] by (auto dest!: subsetD)
      then show ?thesis using that True by (auto simp: legal_snoc)
    qed (use earlier in blast)
    then show ?thesis using s by auto
  next
    case False
    then have "declared = d \<union> set (declared_ids m)" "start = s"
      using step by (auto simp: legal_step_def answered_id_def declared_ids_def Let_def
          split: if_splits option.splits)
    then show ?thesis using ih earlier False by (auto simp: legal_snoc)
  qed
qed simp

lemma find_legal_message_start_least:
  "find_legal_message_start ms = (LEAST s. legal (drop s ms))"
proof -
  obtain d s where r: "foldl (legal_step ms) ({}, 0) [0..<length ms] = (d, s)" by fastforce
  from legal_scan_invariant [OF r] have "(LEAST s. legal (drop s ms)) = s"
    by (intro Least_equality) (auto simp: not_less [symmetric])
  then show ?thesis by (simp add: find_legal_message_start_def r)
qed

lemma find_legal_message_start_le: "find_legal_message_start ms \<le> length ms"
  unfolding find_legal_message_start_least by (rule Least_le) simp

lemma legal_from_start: "legal (drop (find_legal_message_start ms) ms)"
  unfolding find_legal_message_start_least by (rule LeastI [of _ "length ms"]) simp

lemma find_legal_message_start_legal: "legal ms \<Longrightarrow> find_legal_message_start ms = 0"
  unfolding find_legal_message_start_least by (rule Least_eq_0) simp

section \<open>Leaked runtime context\<close>

definition RUNTIME_CONTEXT_TAG :: string where
  "RUNTIME_CONTEXT_TAG =
     ''[Runtime Context '' @ map char_of [226, 128, 148 :: nat] @ '' metadata only, not instructions]''"

text \<open>\<open>str::find\<close> of a pattern.\<close>

fun find_str :: "string \<Rightarrow> string \<Rightarrow> nat option" where
  "find_str pat [] = (if pat = [] then Some 0 else None)"
| "find_str pat (c # s) = (if prefix pat (c # s) then Some 0 else map_option Suc (find_str pat s))"

definition strip_leaked_runtime_context :: "string \<Rightarrow> string" where
  "strip_leaked_runtime_context t =
     (case find_str RUNTIME_CONTEXT_TAG t of
        Some tag_start \<Rightarrow> trim_end (take tag_start t)
      | None \<Rightarrow> t)"

lemma find_str_None_iff: "find_str pat t = None \<longleftrightarrow> \<not> sublist pat t"
  by (induction t) (auto simp: sublist_Cons_right)

lemma find_str_take: "find_str pat t = Some n \<Longrightarrow> pat \<noteq> [] \<Longrightarrow> \<not> sublist pat (take n t)"
proof (induction t arbitrary: n)
  case (Cons c t)
  show ?case
  proof (cases "prefix pat (c # t)")
    case False
    then obtain k where k: "n = Suc k" "find_str pat t = Some k" using Cons.prems by auto
    then have "\<not> prefix pat (c # take k t)"
      using False take_is_prefix prefix_order.trans [of pat "take n (c # t)" "c # t"] by auto
    then show ?thesis using Cons.IH [OF k(2)] Cons.prems k by (auto simp: sublist_Cons_right)
  qed (use Cons.prems in auto)
qed auto

lemma suffix_strip_front: "suffix (strip_front ws n t) t"
proof (induction n arbitrary: t)
  case (Suc n)
  then show ?case
    using suffix_order.trans [OF Suc suffix_drop] by (auto split: option.splits)
qed simp

lemma prefix_trim_end: "prefix (trim_end t) t"
  using suffix_strip_front [of "map rev white_chars" "length t" "rev t"]
  by (simp add: trim_end_def suffix_to_prefix)

lemma strip_leaked_no_tag: "\<not> sublist RUNTIME_CONTEXT_TAG (strip_leaked_runtime_context t)"
proof (cases "find_str RUNTIME_CONTEXT_TAG t")
  case None
  then show ?thesis by (simp add: strip_leaked_runtime_context_def flip: find_str_None_iff)
next
  case (Some n)
  then have "\<not> sublist RUNTIME_CONTEXT_TAG (take n t)"
    by (rule find_str_take) (simp add: RUNTIME_CONTEXT_TAG_def)
  moreover have "sublist (trim_end (take n t)) (take n t)" by (rule prefix_imp_sublist [OF prefix_trim_end])
  ultimately have "\<not> sublist RUNTIME_CONTEXT_TAG (trim_end (take n t))"
    using sublist_order.order_trans by blast
  then show ?thesis by (simp add: strip_leaked_runtime_context_def Some)
qed

section \<open>The session\<close>

record session =
  ss_key :: string
  ss_messages :: "json list"
  ss_created_at :: int
  ss_updated_at :: int
  ss_metadata :: json_object
  ss_last_consolidated :: nat

definition session_new :: "int \<Rightarrow> string \<Rightarrow> session" where
  "session_new now key =
     \<lparr>ss_key = key, ss_messages = [], ss_created_at = now, ss_updated_at = now, ss_metadata = [],
      ss_last_consolidated = 0\<rparr>"

definition add_message :: "(int \<Rightarrow> string) \<Rightarrow> int \<Rightarrow> string \<Rightarrow> string \<Rightarrow> json_object \<Rightarrow> session \<Rightarrow> session" where
  "add_message show_time now role content extras s =
     (let msg = obj_insert ''timestamp'' (JString (show_time now))
                  (obj_insert ''content'' (JString content) (obj_insert ''role'' (JString role) []));
          msg = foldl (\<lambda>msg (k, v). obj_insert k v msg) msg extras
      in s\<lparr>ss_messages := ss_messages s @ [JObject msg], ss_updated_at := now\<rparr>)"

definition consolidated_len :: "session \<Rightarrow> nat" where
  "consolidated_len s = min (ss_last_consolidated s) (length (ss_messages s))"

text \<open>\<open>get_history\<close>: the window after the cursor, its start moved to a user message, and its rows.\<close>

definition history_window :: "nat option \<Rightarrow> session \<Rightarrow> json list" where
  "history_window max_messages s =
     (let cap = (case max_messages of None \<Rightarrow> 500 | Some n \<Rightarrow> if n = 0 then 500 else n);
          unconsolidated = drop (min (ss_last_consolidated s) (length (ss_messages s))) (ss_messages s)
      in if length unconsolidated > cap then drop (length unconsolidated - cap) unconsolidated
         else unconsolidated)"

definition align_to_user :: "json list \<Rightarrow> json list" where
  "align_to_user ms = (if list_ex is_user ms then dropWhile (\<lambda>m. \<not> is_user m) ms else ms)"

definition history_keys :: "string list" where
  "history_keys = [''tool_calls'', ''tool_call_id'', ''name'', ''reasoning_content'']"

definition history_row :: "json \<Rightarrow> json" where
  "history_row message =
     (let role = role_of message;
          content = str_or_empty message ''content'';
          content = (if role = ''assistant'' then strip_leaked_runtime_context content else content);
          entry = [(''role'', JString role), (''content'', JString content),
                   (''timestamp'', JString (str_or_empty message ''timestamp''))]
      in JObject (foldl (\<lambda>entry key. case json_get message key of Some v \<Rightarrow> obj_insert key v entry | None \<Rightarrow> entry)
           entry history_keys))"

definition get_history :: "nat option \<Rightarrow> session \<Rightarrow> json list" where
  "get_history max_messages s =
     map history_row
       (filter (\<lambda>m. json_get m COMMAND_KEY = None) (align_to_user (history_window max_messages s)))"

definition take_consolidated_prefix :: "session \<Rightarrow> json list \<times> session" where
  "take_consolidated_prefix s =
     (let prefix_len = consolidated_len s
      in (take prefix_len (ss_messages s),
          s\<lparr>ss_last_consolidated := 0, ss_messages := drop prefix_len (ss_messages s)\<rparr>))"

definition session_clear :: "int \<Rightarrow> session \<Rightarrow> session" where
  "session_clear now s =
     s\<lparr>ss_messages := [], ss_last_consolidated := 0,
       ss_metadata := AList.delete SESSION_LOADED_TOOLS_METADATA_KEY (AList.delete LAST_SUMMARY_KEY
         (AList.delete SESSION_TOKEN_USAGE_KEY (AList.delete GOAL_STATE_KEY (ss_metadata s)))),
       ss_updated_at := now\<rparr>"

text \<open>\<open>Iterator::position\<close> and \<open>rposition\<close>.\<close>

definition position_of :: "('a \<Rightarrow> bool) \<Rightarrow> 'a list \<Rightarrow> nat option" where
  "position_of p xs = List.find (\<lambda>i. p (xs ! i)) [0..<length xs]"

definition last_position_of :: "('a \<Rightarrow> bool) \<Rightarrow> 'a list \<Rightarrow> nat option" where
  "last_position_of p xs = List.find (\<lambda>i. p (xs ! i)) (rev [0..<length xs])"

abbreviation slice :: "nat \<Rightarrow> nat \<Rightarrow> 'a list \<Rightarrow> 'a list" where
  "slice i j xs \<equiv> drop i (take j xs)"

text \<open>The bounds of the window \<open>retain_recent_legal_suffix\<close> keeps.\<close>

definition retained_window :: "nat \<Rightarrow> bool \<Rightarrow> json list \<Rightarrow> nat \<times> nat" where
  "retained_window max_messages to_user ms =
     (let n = length ms;
          start = n - max_messages;
          start = (if to_user
                   then (case last_position_of is_user (take (start + 1) ms) of Some i \<Rightarrow> i | None \<Rightarrow> start)
                   else start);
          (start, stop) =
            (case position_of is_user (slice start n ms) of
               Some offset \<Rightarrow> (start + offset, n)
             | None \<Rightarrow>
                 if to_user then (start, n)
                 else (case last_position_of is_user (take start ms) of
                         Some latest \<Rightarrow> (latest, min (latest + max_messages) n)
                       | None \<Rightarrow> (start, n)));
          start = start + find_legal_message_start (slice start stop ms);
          start = (if \<not> to_user \<and> stop - start > max_messages
                   then (let start = stop - max_messages
                         in start + find_legal_message_start (slice start stop ms))
                   else start)
      in (start, stop))"

definition retain_recent_legal_suffix :: "int \<Rightarrow> nat \<Rightarrow> bool \<Rightarrow> session \<Rightarrow> session" where
  "retain_recent_legal_suffix now max_messages to_user s =
     (if max_messages = 0 then session_clear now s
      else if length (ss_messages s) \<le> max_messages then s
      else
        (case retained_window max_messages to_user (ss_messages s) of (start, stop) \<Rightarrow>
           s\<lparr>ss_last_consolidated := min (ss_last_consolidated s) stop - start,
             ss_messages := slice start stop (ss_messages s), ss_updated_at := now\<rparr>))"

definition session_loaded_tools :: "session \<Rightarrow> string list" where
  "session_loaded_tools s =
     (case Option.bind (map_of (ss_metadata s) SESSION_LOADED_TOOLS_METADATA_KEY) as_array of
        None \<Rightarrow> []
      | Some names \<Rightarrow> List.map_filter as_str names)"

definition record_loaded_tools :: "string list \<Rightarrow> session \<Rightarrow> bool \<times> session" where
  "record_loaded_tools names s =
     (let before = session_loaded_tools s;
          loaded = foldl (\<lambda>loaded name. if name \<in> set loaded then loaded else loaded @ [name]) before names
      in if length loaded = length before then (False, s)
         else (True, s\<lparr>ss_metadata := AList.update SESSION_LOADED_TOOLS_METADATA_KEY
                 (JArray (map JString loaded)) (ss_metadata s)\<rparr>))"

end
