(* ===== verification/Session_Laws.thy ===== *)
theory Session_Laws
  imports Session
begin

text \<open>
  What holds of the operations on a session: the prompt window does not change when the
  consolidated prefix moves to the archive, the retained window is contiguous, legal, bounded and
  starts at a user message, the cursor keeps pointing at the same message, and the list of loaded
  tools only grows.
\<close>

section \<open>The prompt window\<close>

lemma take_consolidated_prefix_parts:
  "fst (take_consolidated_prefix s) @ ss_messages (snd (take_consolidated_prefix s)) = ss_messages s"
  by (simp add: take_consolidated_prefix_def Let_def)

lemma history_window_taken [simp]:
  "history_window max_messages (snd (take_consolidated_prefix s)) = history_window max_messages s"
  by (simp add: history_window_def take_consolidated_prefix_def consolidated_len_def Let_def)

lemma get_history_taken: "get_history max_messages (snd (take_consolidated_prefix s)) = get_history max_messages s"
  by (simp add: get_history_def)

lemma length_history_window:
  "length (history_window max_messages s) \<le> (case max_messages of Some n \<Rightarrow> if n = 0 then 500 else n | None \<Rightarrow> 500)"
  by (auto simp: history_window_def Let_def split: option.splits)

lemma length_align: "length (align_to_user ms) \<le> length ms"
  by (simp add: align_to_user_def length_dropWhile_le)

lemma length_get_history:
  "length (get_history max_messages s) \<le> (case max_messages of Some n \<Rightarrow> if n = 0 then 500 else n | None \<Rightarrow> 500)"
proof -
  have "length (get_history max_messages s) \<le> length (history_window max_messages s)"
    unfolding get_history_def length_map
    using length_filter_le [of "\<lambda>m. json_get m COMMAND_KEY = None"] length_align le_trans by blast
  then show ?thesis using length_history_window le_trans by blast
qed

text \<open>A row keeps the role, and an assistant row never shows the injected tag.\<close>

lemma history_row_fold:
  "k \<notin> set keys \<Longrightarrow>
   map_of (foldl (\<lambda>entry key. case json_get message key of Some v \<Rightarrow> obj_insert key v entry | None \<Rightarrow> entry) entry keys) k =
   map_of entry k"
  by (induction keys arbitrary: entry) (auto split: option.splits)

lemma history_row_fields:
  "get_str (history_row m) ''role'' = Some (role_of m)"
  "get_str (history_row m) ''content'' = Some (if role_of m = ''assistant''
     then strip_leaked_runtime_context (str_or_empty m ''content'') else str_or_empty m ''content'')"
  unfolding get_str_Some_iff history_row_def Let_def json_get_JObject
  by (subst history_row_fold; simp add: history_keys_def)+

lemma history_shows_no_tag:
  assumes "row \<in> set (get_history max_messages s)" and "get_str row ''role'' = Some ''assistant''"
    and "get_str row ''content'' = Some t"
  shows "\<not> sublist RUNTIME_CONTEXT_TAG t"
  using assms strip_leaked_no_tag by (auto simp: get_history_def history_row_fields)

section \<open>The retained window\<close>

lemma position_of_SomeD: "position_of p xs = Some i \<Longrightarrow> i < length xs \<and> p (xs ! i)"
  by (auto simp: position_of_def dest: find_SomeD)

lemma position_of_None_iff: "position_of p xs = None \<longleftrightarrow> (\<forall>i < length xs. \<not> p (xs ! i))"
  by (auto simp: position_of_def find_None_iff_all)

lemma last_position_of_SomeD: "last_position_of p xs = Some i \<Longrightarrow> i < length xs \<and> p (xs ! i)"
  by (auto simp: last_position_of_def dest: find_SomeD)

lemma last_position_of_None_iff: "last_position_of p xs = None \<longleftrightarrow> (\<forall>i < length xs. \<not> p (xs ! i))"
  by (auto simp: last_position_of_def find_None_iff_all)

text \<open>Where the window starts before its legal start is looked for.\<close>

definition anchor_start :: "nat \<Rightarrow> bool \<Rightarrow> json list \<Rightarrow> nat" where
  "anchor_start max_messages to_user ms =
     (let start = length ms - max_messages in
      if to_user
      then (case last_position_of is_user (take (start + 1) ms) of Some i \<Rightarrow> i | None \<Rightarrow> start)
      else start)"

definition anchored_window :: "nat \<Rightarrow> bool \<Rightarrow> json list \<Rightarrow> nat \<times> nat" where
  "anchored_window max_messages to_user ms =
     (let n = length ms; start = anchor_start max_messages to_user ms in
      case position_of is_user (slice start n ms) of
        Some offset \<Rightarrow> (start + offset, n)
      | None \<Rightarrow>
          if to_user then (start, n)
          else (case last_position_of is_user (take start ms) of
                  Some latest \<Rightarrow> (latest, min (latest + max_messages) n)
                | None \<Rightarrow> (start, n)))"

lemma anchor_start_le: "anchor_start max_messages to_user ms \<le> length ms - max_messages"
  by (auto simp: anchor_start_def Let_def split: option.splits dest: last_position_of_SomeD)

lemma anchored_window_bounds:
  assumes "0 < max_messages" and "max_messages < length ms" and "anchored_window max_messages to_user ms = (start, stop)"
  shows "start < stop" "stop \<le> length ms" "\<not> to_user \<Longrightarrow> stop - start \<le> max_messages"
  using assms anchor_start_le [of max_messages to_user ms]
  by (auto simp: anchored_window_def Let_def anchor_start_def split: option.splits if_splits
      dest!: position_of_SomeD last_position_of_SomeD)

lemma retained_window_anchored:
  assumes "0 < max_messages" and "max_messages < length ms" and "anchored_window max_messages to_user ms = (start, stop)"
  shows "retained_window max_messages to_user ms = (start + find_legal_message_start (slice start stop ms), stop)"
proof -
  have "retained_window max_messages to_user ms =
      (case anchored_window max_messages to_user ms of (start, stop) \<Rightarrow>
        (let start = start + find_legal_message_start (slice start stop ms);
             start = (if \<not> to_user \<and> stop - start > max_messages
                   then (let start = stop - max_messages
                         in start + find_legal_message_start (slice start stop ms))
                   else start)
         in (start, stop)))"
    by (simp add: retained_window_def anchored_window_def anchor_start_def Let_def)
  moreover have "\<not> (\<not> to_user \<and> stop - (start + find_legal_message_start (slice start stop ms)) > max_messages)"
    using anchored_window_bounds [OF assms] by linarith
  ultimately show ?thesis unfolding assms(3) by (simp add: Let_def)
qed

lemma retained_window_spec:
  assumes "0 < max_messages" and "max_messages < length ms" and "retained_window max_messages to_user ms = (start, stop)"
  shows "start \<le> stop" "stop \<le> length ms" "legal (slice start stop ms)"
    "\<not> to_user \<Longrightarrow> stop - start \<le> max_messages"
proof -
  obtain a where a: "anchored_window max_messages to_user ms = (a, stop)"
      "start = a + find_legal_message_start (slice a stop ms)"
    using retained_window_anchored [OF assms(1,2)] assms(3)
    by (cases "anchored_window max_messages to_user ms") auto
  note b = anchored_window_bounds [OF assms(1,2) a(1)]
  show "start \<le> stop" "stop \<le> length ms" "\<not> to_user \<Longrightarrow> stop - start \<le> max_messages"
    using b a(2) find_legal_message_start_le [of "slice a stop ms"] by auto
  show "legal (slice start stop ms)"
    using legal_from_start [of "slice a stop ms"] a(2) by (simp add: add.commute)
qed

text \<open>
  In a conversation whose turns are closed (from every user message on, tool results answer calls
  of that part), the window starts at a user message.
\<close>

definition turns_closed :: "json list \<Rightarrow> bool" where
  "turns_closed ms \<longleftrightarrow> (\<forall>i < length ms. is_user (ms ! i) \<longrightarrow> legal (drop i ms))"

lemma anchored_at_user:
  assumes "0 < max_messages" and "max_messages < length ms" and "list_ex is_user ms"
    and "anchored_window max_messages to_user ms = (start, stop)"
  shows "is_user (ms ! start)"
proof -
  let ?a = "anchor_start max_messages to_user ms"
  from assms(3) obtain u where u: "u < length ms" "is_user (ms ! u)"
    by (auto simp: list_ex_iff in_set_conv_nth)
  show ?thesis
  proof (cases "position_of is_user (slice ?a (length ms) ms)")
    case (Some offset)
    then show ?thesis using assms(4) position_of_SomeD [OF Some] by (auto simp: anchored_window_def Let_def)
  next
    case None
    then have late: "\<not> is_user (ms ! i)" if "?a \<le> i" "i < length ms" for i
      using that by (auto simp: position_of_None_iff dest!: spec [of _ "i - ?a"])
    show ?thesis
    proof (cases to_user)
      case True
      have "u < ?a" using late u by (meson not_le)
      then have "u < length ms - max_messages + 1"
        using anchor_start_le [of max_messages to_user ms] by linarith
      then have "last_position_of is_user (take (length ms - max_messages + 1) ms) \<noteq> None"
        using u by (auto simp: last_position_of_None_iff)
      then obtain i where i: "last_position_of is_user (take (length ms - max_messages + 1) ms) = Some i" by blast
      then have "?a = i" using True by (simp add: anchor_start_def Let_def)
      with last_position_of_SomeD [OF i] late [of ?a] assms(1,2) have False by auto
      then show ?thesis ..
    next
      case False
      have "u < ?a" using late u by (meson not_le)
      then have "last_position_of is_user (take ?a ms) \<noteq> None"
        using u by (auto simp: last_position_of_None_iff)
      then obtain i where i: "last_position_of is_user (take ?a ms) = Some i" by blast
      then show ?thesis
        using assms(4) None False last_position_of_SomeD [OF i] by (auto simp: anchored_window_def Let_def)
    qed
  qed
qed

lemma retained_starts_at_user:
  assumes "0 < max_messages" and "max_messages < length ms" and "list_ex is_user ms" and "turns_closed ms"
    and "retained_window max_messages to_user ms = (start, stop)"
  shows "start < stop \<and> is_user (ms ! start)"
proof -
  obtain a where a: "anchored_window max_messages to_user ms = (a, stop)"
      "start = a + find_legal_message_start (slice a stop ms)"
    using retained_window_anchored [OF assms(1,2)] assms(5)
    by (cases "anchored_window max_messages to_user ms") auto
  note b = anchored_window_bounds [OF assms(1,2) a(1)]
  have u: "is_user (ms ! a)" by (rule anchored_at_user [OF assms(1-3) a(1)])
  have "drop a ms = slice a stop ms @ drop stop ms"
    using b by (metis append_take_drop_id drop_append length_take less_imp_le_nat min.absorb2 diff_is_0_eq drop0)
  moreover have "legal (drop a ms)" using assms(4) u b by (simp add: turns_closed_def)
  ultimately have "legal (slice a stop ms)" using legal_prefix by metis
  then show ?thesis using a(2) b u by (simp add: find_legal_message_start_legal)
qed

text \<open>The cursor still separates the same messages.\<close>

lemma retained_cursor:
  assumes "stop \<le> length ms" and "i < stop - start"
  shows "i < min lc stop - start \<longleftrightarrow> start + i < (lc :: nat)"
  using assms by auto

lemma retain_spec:
  assumes "0 < max_messages" and "max_messages < length (ss_messages s)"
    and "t = retain_recent_legal_suffix now max_messages to_user s"
  shows "\<exists>start stop. start \<le> stop \<and> stop \<le> length (ss_messages s) \<and>
    ss_messages t = slice start stop (ss_messages s) \<and> legal (ss_messages t) \<and>
    (\<not> to_user \<longrightarrow> length (ss_messages t) \<le> max_messages) \<and>
    (\<forall>i < length (ss_messages t). i < ss_last_consolidated t \<longleftrightarrow> start + i < ss_last_consolidated s) \<and>
    (list_ex is_user (ss_messages s) \<and> turns_closed (ss_messages s) \<longrightarrow>
       start < stop \<and> is_user (ss_messages s ! start))"
proof -
  obtain start stop where w: "retained_window max_messages to_user (ss_messages s) = (start, stop)" by fastforce
  then have t: "ss_messages t = slice start stop (ss_messages s)"
      "ss_last_consolidated t = min (ss_last_consolidated s) stop - start"
    using assms by (simp_all add: retain_recent_legal_suffix_def)
  note spec = retained_window_spec [OF assms(1,2) w]
  from spec(1,2) have len: "length (ss_messages t) = stop - start" by (simp add: t(1))
  show ?thesis
  proof (intro exI conjI)
    show "\<forall>i < length (ss_messages t). i < ss_last_consolidated t \<longleftrightarrow> start + i < ss_last_consolidated s"
      unfolding len t(2) using retained_cursor [OF spec(2)] by blast
    show "\<not> to_user \<longrightarrow> length (ss_messages t) \<le> max_messages" unfolding len using spec(4) by blast
  qed (use spec t retained_starts_at_user [OF assms(1,2) _ _ w] in auto)
qed

section \<open>Loaded tools\<close>

lemma loaded_fold:
  "foldl (\<lambda>loaded name. if name \<in> set loaded then loaded else loaded @ [name]) xs names =
   xs @ filter (\<lambda>n. n \<notin> set xs) (firsts names)"
proof (induction names rule: rev_induct)
  case (snoc n names)
  then show ?case by (auto simp: filter_empty_conv)
qed simp

lemma loaded_tools_recorded:
  "session_loaded_tools (snd (record_loaded_tools names s)) =
   session_loaded_tools s @ filter (\<lambda>n. n \<notin> set (session_loaded_tools s)) (firsts names)"
proof -
  have "List.map_filter as_str (map JString ns) = ns" for ns
    by (induction ns) (auto simp: List.map_filter_simps)
  then show ?thesis
    by (auto simp: record_loaded_tools_def loaded_fold session_loaded_tools_def Let_def)
qed

lemma record_loaded_tools_changed:
  "fst (record_loaded_tools names s) \<longleftrightarrow> \<not> set names \<subseteq> set (session_loaded_tools s)"
  by (auto simp: record_loaded_tools_def loaded_fold Let_def filter_empty_conv)

end
