(* ===== verification/Session_Store.thy ===== *)
theory Session_Store
  imports Session_Laws Journal
begin

text \<open>
  The trait \<open>SessionStore\<close> of \<open>src/session/manager.rs\<close> as a record of operations on a state, and
  its promises as the locale \<open>session_store_laws\<close>: a saved session loads back, the archive is
  append-only, nothing touches another session's data.  Sessions are told apart by their
  \<open>slot\<close>: keys with one slot share what is stored.  \<open>storable\<close> and \<open>archivable\<close> are the values a
  store can write and read back.

  The promises after an error are what callers need: a failed save changes nothing, a failed
  archive append leaves a prefix of the messages, and only the invariant may be gone.
\<close>

record session_payload =
  pl_key :: string
  pl_created_at :: "string option"
  pl_updated_at :: "string option"
  pl_metadata :: json_object
  pl_messages :: "json_object list"

record 'st session_store =
  so_load :: "int \<Rightarrow> 'st \<Rightarrow> string \<Rightarrow> session option"
  so_save :: "'st \<Rightarrow> session \<Rightarrow> (io_error + unit) \<times> 'st"
  so_exists :: "'st \<Rightarrow> string \<Rightarrow> bool"
  so_delete_session :: "'st \<Rightarrow> string \<Rightarrow> (io_error + unit) \<times> 'st"
  so_list_sessions :: "'st \<Rightarrow> json list"
  so_read_payload :: "int \<Rightarrow> 'st \<Rightarrow> string \<Rightarrow> session_payload option"
  so_append_archive :: "'st \<Rightarrow> string \<Rightarrow> json list \<Rightarrow> (io_error + unit) \<times> 'st"
  so_load_archive :: "'st \<Rightarrow> string \<Rightarrow> json list"
  so_delete_archive :: "'st \<Rightarrow> string \<Rightarrow> (io_error + unit) \<times> 'st"
  so_journal_delete :: "'st \<Rightarrow> string \<Rightarrow> (io_error + unit) \<times> 'st"

locale session_store_laws =
  fixes ops :: "'st session_store"
    and inv :: "'st \<Rightarrow> bool"
    and slot :: "string \<Rightarrow> string"
    and storable :: "session \<Rightarrow> bool"
    and archivable :: "json list \<Rightarrow> bool"
  assumes exists_load: "so_load ops now st k \<noteq> None \<Longrightarrow> so_exists ops st k"
    and load_key: "so_load ops now st k = Some s \<Longrightarrow> ss_key s = k"
    and save_ok: "inv st \<Longrightarrow> storable s \<Longrightarrow> so_save ops st s = (Inr (), st') \<Longrightarrow>
      inv st' \<and> so_load ops now st' (ss_key s) = Some s"
    and save_err: "inv st \<Longrightarrow> so_save ops st s = (Inl e, st') \<Longrightarrow>
      inv st' \<and> so_load ops now st' k = so_load ops now st k"
    and save_frame: "so_save ops st s = (r, st') \<Longrightarrow>
      so_load_archive ops st' k = so_load_archive ops st k \<and>
      (slot k \<noteq> slot (ss_key s) \<longrightarrow> so_load ops now st' k = so_load ops now st k)"
    and append_ok: "inv st \<Longrightarrow> archivable ms \<Longrightarrow> so_append_archive ops st key ms = (Inr (), st') \<Longrightarrow>
      inv st' \<and> so_load_archive ops st' key = so_load_archive ops st key @ ms"
    and append_err: "inv st \<Longrightarrow> archivable ms \<Longrightarrow> so_append_archive ops st key ms = (Inl e, st') \<Longrightarrow>
      \<exists>n. so_load_archive ops st' key = so_load_archive ops st key @ take n ms"
    and append_frame: "so_append_archive ops st key ms = (r, st') \<Longrightarrow>
      so_load ops now st' k = so_load ops now st k \<and>
      (slot k \<noteq> slot key \<longrightarrow> so_load_archive ops st' k = so_load_archive ops st k)"
    and append_none: "so_append_archive ops st key [] = (Inr (), st)"
    and delete_ok: "so_delete_session ops st key = (Inr (), st') \<Longrightarrow>
      so_load ops now st' key = None \<and> so_load_archive ops st' key = []"
    and delete_frame: "so_delete_session ops st key = (r, st') \<Longrightarrow>
      so_load ops now st' k \<in> {None, so_load ops now st k} \<and>
      so_load_archive ops st' k \<in> {[], so_load_archive ops st k} \<and>
      (slot k \<noteq> slot key \<longrightarrow> so_load ops now st' k = so_load ops now st k \<and>
         so_load_archive ops st' k = so_load_archive ops st k)"
    and delete_archive_ok: "inv st \<Longrightarrow> so_delete_archive ops st key = (Inr (), st') \<Longrightarrow>
      inv st' \<and> so_load_archive ops st' key = []"
    and delete_archive_frame: "so_delete_archive ops st key = (r, st') \<Longrightarrow>
      so_load ops now st' k = so_load ops now st k \<and>
      so_load_archive ops st' k \<in> {[], so_load_archive ops st k} \<and>
      (slot k \<noteq> slot key \<longrightarrow> so_load_archive ops st' k = so_load_archive ops st k)"
    and journal_delete_frame: "so_journal_delete ops st key = (r, st') \<Longrightarrow>
      (inv st \<longrightarrow> inv st') \<and> so_load ops now st' k = so_load ops now st k \<and>
      so_load_archive ops st' k = so_load_archive ops st k"

end
