(* ===== verification/Session_Manager.thy ===== *)
theory Session_Manager
  imports Session_Store
begin

text \<open>
  \<open>SessionManager\<close> of \<open>src/session/manager.rs\<close>: the cache and the tombstones over a
  \<open>SessionStore\<close>, saving with the move of the consolidated prefix to the archive, deletion,
  resetting, forking and the small edits of the metadata; with the visibility of messages from
  \<open>src/session/history_visibility.rs\<close> and \<open>src/session/automation_turns.rs\<close>.

  A manager is a value; \<open>&mut\<close> access to a cached session is the operation \<open>mgr_update\<close>.
\<close>

section \<open>Visibility of messages\<close>

definition AUTOMATION_HISTORY_KEY :: string where "AUTOMATION_HISTORY_KEY = ''_automation_turn''"

definition has_message_value :: "json \<Rightarrow> string \<Rightarrow> bool" where
  "has_message_value message key =
     (case message of
        JObject m \<Rightarrow> m \<noteq> [] \<and>
          (case map_of m key of Some (JBool b) \<Rightarrow> b | Some (JObject x) \<Rightarrow> True | _ \<Rightarrow> False)
      | _ \<Rightarrow> False)"

definition is_hidden_history_message :: "json \<Rightarrow> bool" where
  "is_hidden_history_message message \<longleftrightarrow>
     has_message_value message HIDDEN_HISTORY_KEY \<or> has_message_value message AUTOMATION_HISTORY_KEY"

definition is_visible_user_message :: "json \<Rightarrow> bool" where
  "is_visible_user_message message \<longleftrightarrow> is_user message \<and> \<not> is_hidden_history_message message"

text \<open>\<open>Map::remove\<close> with the \<open>preserve_order\<close> feature: the last entry takes the place.\<close>

definition obj_remove :: "string \<Rightarrow> json_object \<Rightarrow> json option \<times> json_object" where
  "obj_remove k m =
     (case position_of (\<lambda>(k', v). k' = k) m of
        None \<Rightarrow> (None, m)
      | Some i \<Rightarrow> (Some (snd (m ! i)), butlast (if i = length m - 1 then m else m[i := last m])))"

definition RUNTIME_CONTEXT_HISTORY_META :: string where "RUNTIME_CONTEXT_HISTORY_META = ''_runtime_context''"

text \<open>\<open>public_history_message\<close>: the injected context is cut off where the marker says.\<close>

definition strip_context :: "json_object \<Rightarrow> json_object \<Rightarrow> json_object" where
  "strip_context marker m =
     (let sfx = (case Option.bind (map_of marker ''suffix'') as_str of
             Some s \<Rightarrow> if s \<noteq> [] then Some s else None | None \<Rightarrow> None);
          expected = (case map_of marker ''blocks'' of
             Some (JArray blocks) \<Rightarrow> if blocks \<noteq> [] then Some blocks else None | _ \<Rightarrow> None)
      in case (sfx, Option.bind (map_of m ''content'') as_str) of
           (Some sfx, Some content) \<Rightarrow>
             if content = sfx then obj_insert ''content'' (JString []) m
             else (let tail = [CHR 0x0A, CHR 0x0A] @ sfx in
                   if length tail \<le> length content \<and> drop (length content - length tail) content = tail
                   then obj_insert ''content'' (JString (take (length content - length tail) content)) m
                   else m)
         | _ \<Rightarrow>
             (case (expected, map_of m ''content'') of
                (Some blocks, Some (JArray content)) \<Rightarrow>
                  if length content \<ge> length blocks \<and>
                     list_all2 json_eq (drop (length content - length blocks) content) blocks
                  then obj_insert ''content'' (JArray (take (length content - length blocks) content)) m
                  else m
              | _ \<Rightarrow> m))"

definition public_history_message :: "json \<Rightarrow> json" where
  "public_history_message message =
     (case message of
        JObject m \<Rightarrow>
          (case obj_remove RUNTIME_CONTEXT_HISTORY_META m of
             (Some (JObject marker), m) \<Rightarrow>
               if map_of marker ''version'' = Some (JNumber (PosInt 1)) then JObject (strip_context marker m)
               else JObject m
           | (_, m) \<Rightarrow> JObject m)
      | _ \<Rightarrow> message)"

section \<open>The manager\<close>

definition SESSION_TITLE_METADATA_KEY :: string where "SESSION_TITLE_METADATA_KEY = ''title''"
definition SESSION_PINNED_METADATA_KEY :: string where "SESSION_PINNED_METADATA_KEY = ''pinned''"
definition SESSION_WEBSOCKET_OWNER_CLIENT_ID_KEY :: string where
  "SESSION_WEBSOCKET_OWNER_CLIENT_ID_KEY = ''websocket_owner_client_id''"

definition FORK_VOLATILE_METADATA_KEYS :: "string list" where
  "FORK_VOLATILE_METADATA_KEYS =
     [''goal_state'', ''pending_user_turn'', ''runtime_checkpoint'', ''thread_goal'', ''title'', ''title_user_edited'']"

record 'st session_manager =
  mg_store :: 'st
  mg_cache :: "(string \<times> session) list"
  mg_deleted :: "string set"
  mg_eviction_hours :: nat

definition with_store :: "'st \<Rightarrow> nat \<Rightarrow> 'st session_manager" where
  "with_store st hours = \<lparr>mg_store = st, mg_cache = [], mg_deleted = {}, mg_eviction_hours = hours\<rparr>"

definition get_session_internal :: "'st session_store \<Rightarrow> int \<Rightarrow> string \<Rightarrow> 'st session_manager \<Rightarrow> session option" where
  "get_session_internal ops now key m =
     (case map_of (mg_cache m) key of
        Some s \<Rightarrow> Some s
      | None \<Rightarrow> so_load ops now (mg_store m) key)"

definition get_session_with_archive ::
    "'st session_store \<Rightarrow> int \<Rightarrow> string \<Rightarrow> 'st session_manager \<Rightarrow> session option" where
  "get_session_with_archive ops now key m =
     (case get_session_internal ops now key m of
        None \<Rightarrow> None
      | Some s \<Rightarrow>
          (let messages = so_load_archive ops (mg_store m) key
           in Some (s\<lparr>ss_last_consolidated := ss_last_consolidated s + length messages,
                      ss_messages := messages @ ss_messages s\<rparr>)))"

definition get_or_create_session ::
    "'st session_store \<Rightarrow> int \<Rightarrow> string \<Rightarrow> 'st session_manager \<Rightarrow> session \<times> 'st session_manager" where
  "get_or_create_session ops now key m =
     (case map_of (mg_cache m) key of
        Some s \<Rightarrow> (s, m)
      | None \<Rightarrow>
          (let s = (if key \<in> mg_deleted m then session_new now key
                    else case so_load ops now (mg_store m) key of Some s \<Rightarrow> s | None \<Rightarrow> session_new now key)
           in (s, m\<lparr>mg_cache := AList.update key s (mg_cache m)\<rparr>)))"

definition mgr_update ::
    "'st session_store \<Rightarrow> int \<Rightarrow> string \<Rightarrow> (session \<Rightarrow> session) \<Rightarrow> 'st session_manager \<Rightarrow> 'st session_manager" where
  "mgr_update ops now key f m =
     (case get_or_create_session ops now key m of
        (s, m) \<Rightarrow> m\<lparr>mg_cache := AList.update key (f s) (mg_cache m)\<rparr>)"

definition mgr_save :: "'st session_store \<Rightarrow> session \<Rightarrow> 'st session_manager \<Rightarrow> (io_error + unit) \<times> 'st session_manager" where
  "mgr_save ops s m =
     (if ss_key s \<in> mg_deleted m then (Inr (), m)
      else
        (case so_append_archive ops (mg_store m) (ss_key s) (take (consolidated_len s) (ss_messages s)) of
           (Inl e, st) \<Rightarrow> (Inl e, m\<lparr>mg_store := st\<rparr>)
         | (Inr _, st) \<Rightarrow>
             (let s = snd (take_consolidated_prefix s) in
              case so_save ops st s of
                (Inl e, st) \<Rightarrow> (Inl e, m\<lparr>mg_store := st\<rparr>)
              | (Inr _, st) \<Rightarrow> (Inr (), m\<lparr>mg_store := st, mg_cache := AList.update (ss_key s) s (mg_cache m)\<rparr>))))"

definition reset_session ::
    "'st session_store \<Rightarrow> int \<Rightarrow> session \<Rightarrow> 'st session_manager \<Rightarrow> (io_error + unit) \<times> 'st session_manager" where
  "reset_session ops now s m =
     (case so_delete_archive ops (mg_store m) (ss_key s) of
        (Inl e, st) \<Rightarrow> (Inl e, m\<lparr>mg_store := st\<rparr>)
      | (Inr _, st) \<Rightarrow>
          (case so_journal_delete ops st (ss_key s) of
             (Inl e, st) \<Rightarrow> (Inl e, m\<lparr>mg_store := st\<rparr>)
           | (Inr _, st) \<Rightarrow> mgr_save ops (session_clear now s) (m\<lparr>mg_store := st\<rparr>)))"

definition invalidate :: "string \<Rightarrow> 'st session_manager \<Rightarrow> session option \<times> 'st session_manager" where
  "invalidate key m = (map_of (mg_cache m) key, m\<lparr>mg_cache := AList.delete key (mg_cache m)\<rparr>)"

definition remove_stale_sessions :: "int \<Rightarrow> 'st session_manager \<Rightarrow> 'st session_manager" where
  "remove_stale_sessions now m =
     (if mg_eviction_hours m = 0 then m
      else (let threshold = now - int (mg_eviction_hours m) * 3600 * 1000000000
            in m\<lparr>mg_cache := filter (\<lambda>(key, s). ss_updated_at s \<ge> threshold) (mg_cache m)\<rparr>))"

datatype delete_error = DeleteNotFound | DeleteIo io_error

definition mgr_delete_session ::
    "'st session_store \<Rightarrow> string \<Rightarrow> 'st session_manager \<Rightarrow> (delete_error + unit) \<times> 'st session_manager" where
  "mgr_delete_session ops key m =
     (if map_of (mg_cache m) key = None \<and> \<not> so_exists ops (mg_store m) key then (Inl DeleteNotFound, m)
      else
        (let m = m\<lparr>mg_deleted := insert key (mg_deleted m)\<rparr>; m = snd (invalidate key m) in
         case so_delete_session ops (mg_store m) key of
           (Inl e, st) \<Rightarrow> (Inl (DeleteIo e), m\<lparr>mg_store := st\<rparr>)
         | (Inr _, st) \<Rightarrow> (Inr (), m\<lparr>mg_store := st\<rparr>)))"

section \<open>Forking and edits\<close>

datatype fork_error = ForkNotFound | InvalidIndex | ForkIo io_error

text \<open>The copying loop: the messages before the user message with the given number, the number reached, and whether it was found.\<close>

fun fork_copy :: "nat \<Rightarrow> nat \<Rightarrow> json list \<Rightarrow> json list \<times> nat \<times> bool" where
  "fork_copy before user_index [] = ([], user_index, False)"
| "fork_copy before user_index (message # messages) =
     (if is_visible_user_message message \<and> user_index = before then ([], user_index, True)
      else
        (case fork_copy before (if is_visible_user_message message then user_index + 1 else user_index) messages of
           (copied, user_index, found) \<Rightarrow> (public_history_message message # copied, user_index, found)))"

definition fork_session_before_user_index ::
    "'st session_store \<Rightarrow> int \<Rightarrow> string \<Rightarrow> string \<Rightarrow> nat \<Rightarrow> 'st session_manager \<Rightarrow>
     (fork_error + session) \<times> 'st session_manager" where
  "fork_session_before_user_index ops now source_key target_key before m =
     (case get_session_internal ops now source_key m of
        None \<Rightarrow> (Inl ForkNotFound, m)
      | Some source \<Rightarrow>
          (let archive = so_load_archive ops (mg_store m) source_key;
               source_last_consolidated = length archive + ss_last_consolidated source;
               full_history = archive @ ss_messages source;
               (copied, user_index, found) = fork_copy before 0 full_history
           in if \<not> (found \<or> user_index = before) then (Inl InvalidIndex, m)
              else
                (let metadata = fold AList.delete FORK_VOLATILE_METADATA_KEYS (ss_metadata source);
                     beyond = source_last_consolidated > length copied;
                     new_session = (session_new now target_key)
                       \<lparr>ss_messages := copied,
                        ss_metadata := (if beyond then AList.delete LAST_SUMMARY_KEY metadata else metadata),
                        ss_last_consolidated := (if beyond then 0 else source_last_consolidated)\<rparr>
                 in case so_journal_delete ops (mg_store m) target_key of
                      (Inl e, st) \<Rightarrow> (Inl (ForkIo e), m\<lparr>mg_store := st\<rparr>)
                    | (Inr _, st) \<Rightarrow>
                        (case mgr_save ops new_session (m\<lparr>mg_store := st\<rparr>) of
                           (Inl e, m) \<Rightarrow> (Inl (ForkIo e), m)
                         | (Inr _, m) \<Rightarrow> (Inr new_session, m)))))"

text \<open>An edit of an existing session's metadata, then a save; \<open>None\<close> for a missing session.\<close>

definition edit_session ::
    "'st session_store \<Rightarrow> int \<Rightarrow> string \<Rightarrow> (session \<Rightarrow> session) \<Rightarrow> 'st session_manager \<Rightarrow>
     (io_error + unit) option \<times> 'st session_manager" where
  "edit_session ops now key f m =
     (case get_session_internal ops now key m of
        None \<Rightarrow> (None, m)
      | Some s \<Rightarrow> (case mgr_save ops (f s) m of (r, m) \<Rightarrow> (Some r, m)))"

definition rename_session ::
    "'st session_store \<Rightarrow> int \<Rightarrow> string \<Rightarrow> string \<Rightarrow> 'st session_manager \<Rightarrow> (io_error + unit) option \<times> 'st session_manager" where
  "rename_session ops now key title =
     edit_session ops now key (\<lambda>s. s\<lparr>ss_metadata := AList.update SESSION_TITLE_METADATA_KEY (JString title) (ss_metadata s),
       ss_updated_at := now\<rparr>)"

definition set_session_pinned ::
    "'st session_store \<Rightarrow> int \<Rightarrow> string \<Rightarrow> bool \<Rightarrow> 'st session_manager \<Rightarrow> (io_error + unit) option \<times> 'st session_manager" where
  "set_session_pinned ops now key pinned =
     edit_session ops now key (\<lambda>s. s\<lparr>ss_metadata :=
       (if pinned then AList.update SESSION_PINNED_METADATA_KEY (JBool True) (ss_metadata s)
        else AList.delete SESSION_PINNED_METADATA_KEY (ss_metadata s))\<rparr>)"

definition stamp_websocket_owner_if_absent ::
    "'st session_store \<Rightarrow> int \<Rightarrow> string \<Rightarrow> string \<Rightarrow> 'st session_manager \<Rightarrow> 'st session_manager" where
  "stamp_websocket_owner_if_absent ops now key client_id m =
     (if client_id = [] then m
      else (case get_session_internal ops now key m of
              None \<Rightarrow> m
            | Some s \<Rightarrow>
                if map_of (ss_metadata s) SESSION_WEBSOCKET_OWNER_CLIENT_ID_KEY \<noteq> None then m
                else snd (mgr_save ops (s\<lparr>ss_metadata :=
                  AList.update SESSION_WEBSOCKET_OWNER_CLIENT_ID_KEY (JString client_id) (ss_metadata s)\<rparr>) m)))"

definition stored_title :: "session \<Rightarrow> string option" where
  "stored_title s =
     (case Option.bind (map_of (ss_metadata s) SESSION_TITLE_METADATA_KEY) as_str of
        Some t \<Rightarrow> if t \<noteq> [] then Some t else None
      | None \<Rightarrow> None)"

definition persist_generated_title ::
    "'st session_store \<Rightarrow> int \<Rightarrow> string \<Rightarrow> string \<Rightarrow> 'st session_manager \<Rightarrow> string option \<times> 'st session_manager" where
  "persist_generated_title ops now key title m =
     (case get_or_create_session ops now key m of
        (s, m) \<Rightarrow>
          (case stored_title s of
             Some existing \<Rightarrow> (Some existing, m)
           | None \<Rightarrow>
               (let s = s\<lparr>ss_metadata := AList.update SESSION_TITLE_METADATA_KEY (JString title) (ss_metadata s)\<rparr>;
                    m = m\<lparr>mg_cache := AList.update key s (mg_cache m)\<rparr>
                in (Some title, snd (mgr_save ops s m)))))"

end
