(* ===== verification/Session_Manager_Laws.thy ===== *)
theory Session_Manager_Laws
  imports Session_Manager
begin

text \<open>
  What the manager guarantees over every store that keeps \<open>session_store_laws\<close>: saving keeps the whole
  conversation, a failed save loses nothing, a deleted session stays deleted whatever races past
  the deletion, and a fork is the public prefix before the chosen user message.
\<close>

section \<open>Forks\<close>

abbreviation visible_users :: "json list \<Rightarrow> nat" where
  "visible_users ms \<equiv> length (filter is_visible_user_message ms)"

lemma fork_copy_spec:
  assumes "fork_copy before i ms = (copied, j, found)" and "i \<le> before"
  shows "\<exists>n \<le> length ms. copied = map public_history_message (take n ms) \<and>
    j = i + visible_users (take n ms) \<and> j \<le> before \<and>
    (if found then n < length ms \<and> is_visible_user_message (ms ! n) \<and> j = before else n = length ms)"
  using assms
proof (induction before i ms arbitrary: copied rule: fork_copy.induct)
  case (2 before i m ms)
  show ?case
  proof (cases "is_visible_user_message m \<and> i = before")
    case True
    with 2(2) show ?thesis by (intro exI [of _ 0]) auto
  next
    case False
    let ?i = "if is_visible_user_message m then i + 1 else i"
    obtain c where c: "fork_copy before ?i ms = (c, j, found)" "copied = public_history_message m # c"
      using 2(2) False by (auto split: prod.splits if_splits)
    have "?i \<le> before" using 2(3) False by auto
    from 2(1) [OF False c(1) this] obtain n where n: "n \<le> length ms" "c = map public_history_message (take n ms)"
        "j = ?i + visible_users (take n ms)" "j \<le> before"
        "if found then n < length ms \<and> is_visible_user_message (ms ! n) \<and> j = before else n = length ms"
      by blast
    then show ?thesis using c(2) by (intro exI [of _ "Suc n"]) (auto split: if_splits)
  qed
qed auto

lemma fork_copy_found_iff:
  assumes "fork_copy before 0 ms = (copied, j, found)"
  shows "found \<or> j = before \<longleftrightarrow> before \<le> visible_users ms"
proof -
  from fork_copy_spec [OF assms] obtain n where n: "n \<le> length ms" "j = visible_users (take n ms)" "j \<le> before"
      "if found then n < length ms \<and> is_visible_user_message (ms ! n) \<and> j = before else n = length ms"
    by auto
  have "visible_users ms = visible_users (take n ms) + visible_users (drop n ms)"
    by (metis append_take_drop_id filter_append length_append)
  with n show ?thesis by (auto split: if_splits)
qed

lemma map_of_fold_delete:
  "map_of (fold AList.delete ks al) k = (if k \<in> set ks then None else map_of al k)"
  by (induction ks arbitrary: al) auto

lemma fork_result:
  assumes "get_session_internal ops now source_key m = Some source"
    and "full = so_load_archive ops (mg_store m) source_key @ ss_messages source"
  shows "fst (fork_session_before_user_index ops now source_key target_key before m) = Inl InvalidIndex \<longleftrightarrow>
      visible_users full < before"
    and "fst (fork_session_before_user_index ops now source_key target_key before m) = Inr new \<Longrightarrow>
      \<exists>n \<le> length full. ss_messages new = map public_history_message (take n full) \<and>
        visible_users (take n full) = before \<and> (n < length full \<longrightarrow> is_visible_user_message (full ! n)) \<and>
        ss_key new = target_key \<and> ss_last_consolidated new \<le> length (ss_messages new) \<and>
        (\<forall>k \<in> set FORK_VOLATILE_METADATA_KEYS. map_of (ss_metadata new) k = None)"
proof -
  obtain copied j found where c: "fork_copy before 0 full = (copied, j, found)" by (cases "fork_copy before 0 full")
  let ?new = "(session_new now target_key)
     \<lparr>ss_messages := copied,
      ss_metadata := (if length (so_load_archive ops (mg_store m) source_key) + ss_last_consolidated source > length copied
        then AList.delete LAST_SUMMARY_KEY (fold AList.delete FORK_VOLATILE_METADATA_KEYS (ss_metadata source))
        else fold AList.delete FORK_VOLATILE_METADATA_KEYS (ss_metadata source)),
      ss_last_consolidated := (if length (so_load_archive ops (mg_store m) source_key) + ss_last_consolidated source > length copied
        then 0 else length (so_load_archive ops (mg_store m) source_key) + ss_last_consolidated source)\<rparr>"
  note r = fork_session_before_user_index_def Let_def assms(1) assms(2) [symmetric] c
  have "fst (fork_session_before_user_index ops now source_key target_key before m) = Inl InvalidIndex \<longleftrightarrow>
      \<not> (found \<or> j = before)"
    by (auto simp: r split: prod.splits sum.splits)
  then show "fst (fork_session_before_user_index ops now source_key target_key before m) = Inl InvalidIndex \<longleftrightarrow>
      visible_users full < before"
    using fork_copy_found_iff [OF c] by auto
  assume "fst (fork_session_before_user_index ops now source_key target_key before m) = Inr new"
  then have new: "new = ?new" and ok: "found \<or> j = before"
    by (auto simp: r split: prod.splits sum.splits if_splits)
  from fork_copy_spec [OF c] obtain n where n: "n \<le> length full" "copied = map public_history_message (take n full)"
      "j = visible_users (take n full)"
      "if found then n < length full \<and> is_visible_user_message (full ! n) \<and> j = before else n = length full"
    by auto
  have "ss_key new = target_key \<and> ss_messages new = copied \<and> ss_last_consolidated new \<le> length copied \<and>
      (\<forall>k \<in> set FORK_VOLATILE_METADATA_KEYS. map_of (ss_metadata new) k = None)"
    unfolding new by (simp add: session_new_def map_of_fold_delete)
  then show "\<exists>n \<le> length full. ss_messages new = map public_history_message (take n full) \<and>
        visible_users (take n full) = before \<and> (n < length full \<longrightarrow> is_visible_user_message (full ! n)) \<and>
        ss_key new = target_key \<and> ss_last_consolidated new \<le> length (ss_messages new) \<and>
        (\<forall>k \<in> set FORK_VOLATILE_METADATA_KEYS. map_of (ss_metadata new) k = None)"
    using n ok by (intro exI [of _ n]) (auto split: if_splits)
qed

section \<open>Saving\<close>

lemma consolidated_taken [simp]: "ss_key (snd (take_consolidated_prefix s)) = ss_key s"
  "ss_last_consolidated (snd (take_consolidated_prefix s)) = 0"
  "ss_messages (snd (take_consolidated_prefix s)) = drop (consolidated_len s) (ss_messages s)"
  by (simp_all add: take_consolidated_prefix_def Let_def)

context session_store_laws
begin

text \<open>
  After a successful save, in this process or after a restart, the archive and the live messages
  together are the old archive and all messages of the saved session, the cursor stands where it
  stood, and the prompt sees the same window.
\<close>

lemma save_keeps_history:
  assumes "inv (mg_store m)" and "ss_key s \<notin> mg_deleted m"
    and "archivable (take (consolidated_len s) (ss_messages s))" and "storable (snd (take_consolidated_prefix s))"
    and save: "mgr_save ops s m = (Inr (), m')"
    and m'': "m'' = m' \<or> m'' = with_store (mg_store m') hours"
  shows "inv (mg_store m') \<and>
    get_session_internal ops now (ss_key s) m'' = Some (snd (take_consolidated_prefix s)) \<and>
    so_load_archive ops (mg_store m') (ss_key s) @ drop (consolidated_len s) (ss_messages s) =
      so_load_archive ops (mg_store m) (ss_key s) @ ss_messages s"
proof -
  let ?t = "snd (take_consolidated_prefix s)" and ?p = "take (consolidated_len s) (ss_messages s)"
  obtain st where st: "so_append_archive ops (mg_store m) (ss_key s) ?p = (Inr (), st)"
      "so_save ops st ?t = (Inr (), mg_store m')" "mg_cache m' = AList.update (ss_key s) ?t (mg_cache m)"
    using save assms(2) by (auto simp: mgr_save_def Let_def split: prod.splits sum.splits)
  note a = append_ok [OF assms(1,3) st(1)]
  have "inv st" using a by simp
  note b = save_ok [OF \<open>inv st\<close> assms(4) st(2)]
  have "so_load_archive ops (mg_store m') (ss_key s) = so_load_archive ops (mg_store m) (ss_key s) @ ?p"
    using a save_frame [OF st(2), of "ss_key s"] by simp
  then show ?thesis using b m'' st(3) by (auto simp: get_session_internal_def with_store_def)
qed

lemma save_error_loses_nothing:
  assumes "inv (mg_store m)" and "archivable (take (consolidated_len s) (ss_messages s))"
    and "mgr_save ops s m = (Inl e, m')"
  shows "mg_cache m' = mg_cache m"
    and "so_load ops now (mg_store m') k = so_load ops now (mg_store m) k"
    and "\<exists>n. so_load_archive ops (mg_store m') (ss_key s) =
      so_load_archive ops (mg_store m) (ss_key s) @ take n (ss_messages s)"
proof -
  let ?t = "snd (take_consolidated_prefix s)" and ?p = "take (consolidated_len s) (ss_messages s)"
  obtain r st where st: "so_append_archive ops (mg_store m) (ss_key s) ?p = (r, st)" by fastforce
  have frame: "so_load ops now st k = so_load ops now (mg_store m) k" for now k
    using append_frame [OF st] by blast
  have "mg_cache m' = mg_cache m \<and> (\<forall>now k. so_load ops now (mg_store m') k = so_load ops now (mg_store m) k) \<and>
    (\<exists>n. so_load_archive ops (mg_store m') (ss_key s) = so_load_archive ops (mg_store m) (ss_key s) @ take n ?p)"
  proof (cases r)
    case (Inl e')
    then have "m' = m\<lparr>mg_store := st\<rparr>"
      using assms(3) st by (auto simp: mgr_save_def split: if_splits)
    then show ?thesis using append_err [OF assms(1,2)] st Inl frame by auto
  next
    case (Inr u)
    then have r: "r = Inr ()" by simp
    then obtain st2 where st2: "so_save ops st ?t = (Inl e, st2)" "m' = m\<lparr>mg_store := st2\<rparr>"
      using assms(3) st by (auto simp: mgr_save_def Let_def split: if_splits prod.splits sum.splits)
    have a: "inv st" "so_load_archive ops st (ss_key s) = so_load_archive ops (mg_store m) (ss_key s) @ ?p"
      using append_ok [OF assms(1,2)] st r by auto
    have "so_load_archive ops st2 (ss_key s) = so_load_archive ops (mg_store m) (ss_key s) @ take (consolidated_len s) ?p"
      using save_frame [OF st2(1)] a(2) by simp
    then have "\<exists>n. so_load_archive ops st2 (ss_key s) = so_load_archive ops (mg_store m) (ss_key s) @ take n ?p" ..
    then show ?thesis using save_err [OF a(1) st2(1)] frame unfolding st2(2) by simp
  qed
  then show "mg_cache m' = mg_cache m" "so_load ops now (mg_store m') k = so_load ops now (mg_store m) k"
    "\<exists>n. so_load_archive ops (mg_store m') (ss_key s) =
      so_load_archive ops (mg_store m) (ss_key s) @ take n (ss_messages s)"
    by (auto simp: take_take)
qed

end

section \<open>Tombstones\<close>

datatype mgr_op =
    MgUpdate int string "session \<Rightarrow> session"
  | MgSave session
  | MgReset int session
  | MgInvalidate string
  | MgStale int
  | MgDelete string
  | MgFork int string string nat
  | MgRename int string string
  | MgPin int string bool
  | MgStamp int string string
  | MgTitle int string string

fun mgr_step :: "'st session_store \<Rightarrow> mgr_op \<Rightarrow> 'st session_manager \<Rightarrow> 'st session_manager" where
  "mgr_step ops (MgUpdate now k f) m = mgr_update ops now k f m"
| "mgr_step ops (MgSave s) m = snd (mgr_save ops s m)"
| "mgr_step ops (MgReset now s) m = snd (reset_session ops now s m)"
| "mgr_step ops (MgInvalidate k) m = snd (invalidate k m)"
| "mgr_step ops (MgStale now) m = remove_stale_sessions now m"
| "mgr_step ops (MgDelete k) m = snd (mgr_delete_session ops k m)"
| "mgr_step ops (MgFork now k k' n) m = snd (fork_session_before_user_index ops now k k' n m)"
| "mgr_step ops (MgRename now k t) m = snd (rename_session ops now k t m)"
| "mgr_step ops (MgPin now k b) m = snd (set_session_pinned ops now k b m)"
| "mgr_step ops (MgStamp now k c) m = stamp_websocket_owner_if_absent ops now k c m"
| "mgr_step ops (MgTitle now k t) m = snd (persist_generated_title ops now k t m)"

definition mgr_run :: "'st session_store \<Rightarrow> mgr_op list \<Rightarrow> 'st session_manager \<Rightarrow> 'st session_manager" where
  "mgr_run ops xs m = fold (mgr_step ops) xs m"

text \<open>The session keys an operation names; updates in place do not change a session's key.\<close>

fun op_keys :: "mgr_op \<Rightarrow> string set" where
  "op_keys (MgUpdate now k f) = {k}"
| "op_keys (MgSave s) = {ss_key s}"
| "op_keys (MgReset now s) = {ss_key s}"
| "op_keys (MgInvalidate k) = {k}"
| "op_keys (MgStale now) = {}"
| "op_keys (MgDelete k) = {k}"
| "op_keys (MgFork now k k' n) = {k, k'}"
| "op_keys (MgRename now k t) = {k}"
| "op_keys (MgPin now k b) = {k}"
| "op_keys (MgStamp now k c) = {k}"
| "op_keys (MgTitle now k t) = {k}"

fun keeps_key :: "mgr_op \<Rightarrow> bool" where
  "keeps_key (MgUpdate now k f) \<longleftrightarrow> (\<forall>s. ss_key (f s) = ss_key s)"
| "keeps_key _ \<longleftrightarrow> True"

definition cache_keys_ok :: "'st session_manager \<Rightarrow> bool" where
  "cache_keys_ok m \<longleftrightarrow> (\<forall>(k, s) \<in> set (mg_cache m). ss_key s = k)"

lemma set_AList_update: "set (AList.update k v al) \<subseteq> insert (k, v) (set al)"
  by (induction al) auto

lemma set_AList_delete: "set (AList.delete k al) \<subseteq> set al"
  by (auto simp: AList.delete_eq)

lemma cache_keys_okI: "mg_cache m' = mg_cache m \<Longrightarrow> cache_keys_ok m \<Longrightarrow> cache_keys_ok m'"
  by (simp add: cache_keys_ok_def)

lemma cache_keys_update:
  "cache_keys_ok m \<Longrightarrow> ss_key s = k \<Longrightarrow> mg_cache m' = AList.update k s (mg_cache m) \<Longrightarrow> cache_keys_ok m'"
  using set_AList_update [of k s "mg_cache m"] by (fastforce simp: cache_keys_ok_def)

lemma cache_keys_subset: "cache_keys_ok m \<Longrightarrow> set (mg_cache m') \<subseteq> set (mg_cache m) \<Longrightarrow> cache_keys_ok m'"
  by (fastforce simp: cache_keys_ok_def)

lemma cache_keys_get: "cache_keys_ok m \<Longrightarrow> map_of (mg_cache m) k = Some s \<Longrightarrow> ss_key s = k"
  by (auto simp: cache_keys_ok_def dest: map_of_SomeD)

context session_store_laws
begin

text \<open>Seen from one key: what is stored is the same or gone, the key stays deleted.\<close>

definition only_removed :: "string \<Rightarrow> 'st session_manager \<Rightarrow> 'st session_manager \<Rightarrow> bool" where
  "only_removed key m m' \<longleftrightarrow>
     (\<forall>now. so_load ops now (mg_store m') key = None \<or>
        so_load ops now (mg_store m') key = so_load ops now (mg_store m) key) \<and>
     (so_load_archive ops (mg_store m') key = [] \<or>
        so_load_archive ops (mg_store m') key = so_load_archive ops (mg_store m) key) \<and>
     mg_deleted m \<subseteq> mg_deleted m'"

lemma only_removed_trans: "only_removed key m m' \<Longrightarrow> only_removed key m' m'' \<Longrightarrow> only_removed key m m''"
  unfolding only_removed_def by (metis subset_trans)

lemma only_removed_same [intro]:
  "mg_store m' = mg_store m \<Longrightarrow> mg_deleted m \<subseteq> mg_deleted m' \<Longrightarrow> only_removed key m m'"
  by (simp add: only_removed_def)

lemma only_removed_store:
  assumes "\<And>now. so_load ops now st key = so_load ops now (mg_store m) key"
    and "so_load_archive ops st key \<in> {[], so_load_archive ops (mg_store m) key}"
  shows "only_removed key m (m\<lparr>mg_store := st\<rparr>)"
  using assms by (simp add: only_removed_def)

lemma internal_key: "cache_keys_ok m \<Longrightarrow> get_session_internal ops now k m = Some s \<Longrightarrow> ss_key s = k"
  by (auto simp: get_session_internal_def split: option.splits dest: load_key cache_keys_get)

lemma get_or_create_key:
  assumes "cache_keys_ok m" and "get_or_create_session ops now k m = (s, m')"
  shows "ss_key s = k" "cache_keys_ok m'" "mg_store m' = mg_store m" "mg_deleted m' = mg_deleted m"
proof -
  show key: "ss_key s = k"
    using assms by (auto simp: get_or_create_session_def session_new_def Let_def
        split: option.splits if_splits dest: load_key cache_keys_get)
  have c: "mg_cache m' = mg_cache m \<or> mg_cache m' = AList.update k s (mg_cache m)"
    and frame: "mg_store m' = mg_store m" "mg_deleted m' = mg_deleted m"
    using assms(2) by (auto simp: get_or_create_session_def Let_def split: option.splits)
  from c show "cache_keys_ok m'"
    using assms(1) key cache_keys_update cache_keys_okI by blast
  show "mg_store m' = mg_store m" "mg_deleted m' = mg_deleted m" by (rule frame)+
qed

lemma save_cache:
  assumes "cache_keys_ok m" and "mgr_save ops s m = (r, m')"
  shows "cache_keys_ok m'"
proof -
  let ?t = "snd (take_consolidated_prefix s)"
  have "mg_cache m' = mg_cache m \<or> mg_cache m' = AList.update (ss_key s) ?t (mg_cache m)"
    using assms(2) by (auto simp: mgr_save_def Let_def split: if_splits prod.splits sum.splits)
  then show ?thesis
    using cache_keys_okI [OF _ assms(1)] cache_keys_update [OF assms(1), of ?t "ss_key s" m'] by auto
qed

lemma save_only_removed:
  assumes "key \<in> mg_deleted m" and "slot (ss_key s) = slot key \<longrightarrow> ss_key s = key" and "mgr_save ops s m = (r, m')"
  shows "only_removed key m m'"
proof (cases "ss_key s \<in> mg_deleted m")
  case True
  then show ?thesis using assms(3) by (simp add: mgr_save_def only_removed_def)
next
  case False
  then have other: "slot key \<noteq> slot (ss_key s)" using assms(1,2) by auto
  let ?t = "snd (take_consolidated_prefix s)" and ?p = "take (consolidated_len s) (ss_messages s)"
  obtain r1 st where st: "so_append_archive ops (mg_store m) (ss_key s) ?p = (r1, st)" by fastforce
  obtain r2 st2 where st2: "so_save ops st ?t = (r2, st2)" by fastforce
  have a: "so_load ops now st key = so_load ops now (mg_store m) key \<and>
      so_load_archive ops st key = so_load_archive ops (mg_store m) key" for now
    using append_frame [OF st] other by blast
  have b: "so_load ops now st2 key = so_load ops now (mg_store m) key \<and>
      so_load_archive ops st2 key = so_load_archive ops (mg_store m) key" for now
    using save_frame [OF st2, of key] a other by simp
  have "mg_store m' \<in> {st, st2} \<and> mg_deleted m' = mg_deleted m"
    using assms(3) False st st2 by (auto simp: mgr_save_def Let_def split: sum.splits)
  then show ?thesis using a b by (auto simp: only_removed_def)
qed

lemma delete_only_removed:
  assumes "mgr_delete_session ops k m = (r, m')"
  shows "only_removed key m m' \<and> (cache_keys_ok m \<longrightarrow> cache_keys_ok m')"
proof -
  obtain r1 st where st: "so_delete_session ops (mg_store m) k = (r1, st)" by fastforce
  from assms st have m': "m' = m \<or> (mg_store m' = st \<and> mg_deleted m' = insert k (mg_deleted m) \<and>
      mg_cache m' = AList.delete k (mg_cache m))"
    by (auto simp: mgr_delete_session_def invalidate_def Let_def split: if_splits sum.splits)
  then have "set (mg_cache m') \<subseteq> set (mg_cache m)" using set_AList_delete [of k "mg_cache m"] by auto
  then have "cache_keys_ok m \<longrightarrow> cache_keys_ok m'" using cache_keys_subset by blast
  then show ?thesis using m' delete_frame [OF st, of _ key] by (auto simp: only_removed_def)
qed

lemma edit_only_removed:
  assumes "key \<in> mg_deleted m" and "slot k = slot key \<longrightarrow> k = key" and "cache_keys_ok m"
    and "\<And>s. ss_key (f s) = ss_key s" and "edit_session ops now k f m = (r, m')"
  shows "only_removed key m m' \<and> cache_keys_ok m'"
proof (cases "get_session_internal ops now k m")
  case None
  then show ?thesis using assms(3,5) by (auto simp: edit_session_def)
next
  case (Some s)
  then obtain r' where s: "mgr_save ops (f s) m = (r', m')"
    using assms(5) by (auto simp: edit_session_def split: prod.splits)
  have "ss_key (f s) = k" using assms(4) internal_key [OF assms(3) Some] by simp
  then show ?thesis using save_only_removed [OF assms(1) _ s] save_cache [OF assms(3) s] assms(2) by simp
qed

lemma reset_only_removed:
  assumes "key \<in> mg_deleted m" and "slot (ss_key s) = slot key \<longrightarrow> ss_key s = key" and "cache_keys_ok m"
    and "reset_session ops now s m = (r, m')"
  shows "only_removed key m m' \<and> cache_keys_ok m'"
proof -
  obtain r1 st1 where a: "so_delete_archive ops (mg_store m) (ss_key s) = (r1, st1)" by fastforce
  obtain r2 st2 where b: "so_journal_delete ops st1 (ss_key s) = (r2, st2)" by fastforce
  obtain r3 m3 where c: "mgr_save ops (session_clear now s) (m\<lparr>mg_store := st2\<rparr>) = (r3, m3)" by fastforce
  have 1: "only_removed key m (m\<lparr>mg_store := st1\<rparr>)"
    using delete_archive_frame [OF a] by (intro only_removed_store) auto
  have 2: "only_removed key m (m\<lparr>mg_store := st2\<rparr>)"
    using delete_archive_frame [OF a] journal_delete_frame [OF b] by (intro only_removed_store) auto
  have 3: "only_removed key (m\<lparr>mg_store := st2\<rparr>) m3"
    by (rule save_only_removed [OF _ _ c]) (use assms(1,2) in \<open>auto simp: session_clear_def\<close>)
  have 4: "cache_keys_ok (m\<lparr>mg_store := st\<rparr>)" for st by (rule cache_keys_okI [OF _ assms(3)]) simp
  note 5 = only_removed_trans [OF 2 3] save_cache [OF 4 c]
  have "m' = m\<lparr>mg_store := st1\<rparr> \<or> m' = m\<lparr>mg_store := st2\<rparr> \<or> m' = m3"
    using assms(4) a b c by (auto simp: reset_session_def split: sum.splits)
  then show ?thesis using 1 2 4 5 by blast
qed

lemma fork_only_removed:
  assumes "key \<in> mg_deleted m" and "slot k' = slot key \<longrightarrow> k' = key" and "cache_keys_ok m"
    and "fork_session_before_user_index ops now k k' n m = (r, m')"
  shows "only_removed key m m' \<and> cache_keys_ok m'"
proof (cases "m' = m")
  case False
  obtain r2 st2 where b: "so_journal_delete ops (mg_store m) k' = (r2, st2)" by fastforce
  have 1: "only_removed key m (m\<lparr>mg_store := st2\<rparr>)"
    using journal_delete_frame [OF b] by (intro only_removed_store) auto
  have c: "cache_keys_ok (m\<lparr>mg_store := st2\<rparr>)" by (rule cache_keys_okI [OF _ assms(3)]) simp
  from False assms(4) b have "m' = m\<lparr>mg_store := st2\<rparr> \<or>
      (\<exists>s r3. ss_key s = k' \<and> mgr_save ops s (m\<lparr>mg_store := st2\<rparr>) = (r3, m'))"
    by (auto simp: fork_session_before_user_index_def Let_def
        split: option.splits prod.splits if_splits sum.splits) (simp_all add: session_new_def)
  then show ?thesis
  proof (elim disjE exE conjE)
    fix s r3
    assume s: "ss_key s = k'" "mgr_save ops s (m\<lparr>mg_store := st2\<rparr>) = (r3, m')"
    have "only_removed key (m\<lparr>mg_store := st2\<rparr>) m'"
      by (rule save_only_removed [OF _ _ s(2)]) (use assms(1,2) s(1) in auto)
    then show ?thesis using only_removed_trans [OF 1] save_cache [OF c s(2)] by blast
  qed (use 1 c in auto)
qed (use assms(3) in auto)

lemma title_only_removed:
  assumes "key \<in> mg_deleted m" and "slot k = slot key \<longrightarrow> k = key" and "cache_keys_ok m"
    and "persist_generated_title ops now k title m = (r, m')"
  shows "only_removed key m m' \<and> cache_keys_ok m'"
proof -
  obtain s m1 where g: "get_or_create_session ops now k m = (s, m1)" by fastforce
  note g' = get_or_create_key [OF assms(3) g]
  let ?s = "s\<lparr>ss_metadata := AList.update SESSION_TITLE_METADATA_KEY (JString title) (ss_metadata s)\<rparr>"
  let ?m = "m1\<lparr>mg_cache := AList.update k ?s (mg_cache m1)\<rparr>"
  have c: "cache_keys_ok ?m" by (rule cache_keys_update [OF g'(2), of ?s k]) (use g'(1) in auto)
  have 1: "only_removed key m m1" "only_removed key m ?m" using g' by auto
  obtain r2 m2 where sv: "mgr_save ops ?s ?m = (r2, m2)" by fastforce
  have "only_removed key ?m m2"
    by (rule save_only_removed [OF _ _ sv]) (use assms(1,2) g' in auto)
  then have "only_removed key m m2 \<and> cache_keys_ok m2"
    using only_removed_trans [OF 1(2)] save_cache [OF c sv] by blast
  then show ?thesis using assms(4) g g'(2) 1(1) sv
    by (auto simp: persist_generated_title_def Let_def split: option.splits)
qed

lemma update_only_removed:
  assumes "cache_keys_ok m" and "\<And>s. ss_key (f s) = ss_key s"
  shows "only_removed key m (mgr_update ops now k f m) \<and> cache_keys_ok (mgr_update ops now k f m)"
proof -
  obtain s m1 where g: "get_or_create_session ops now k m = (s, m1)" by fastforce
  note g' = get_or_create_key [OF assms(1) g]
  let ?m = "m1\<lparr>mg_cache := AList.update k (f s) (mg_cache m1)\<rparr>"
  have "cache_keys_ok ?m" by (rule cache_keys_update [OF g'(2), of "f s" k]) (use g'(1) assms(2) in auto)
  moreover have "only_removed key m ?m" using g' by auto
  ultimately show ?thesis by (simp add: mgr_update_def g)
qed

lemma stamp_only_removed:
  assumes "key \<in> mg_deleted m" and "slot k = slot key \<longrightarrow> k = key" and "cache_keys_ok m"
  shows "only_removed key m (stamp_websocket_owner_if_absent ops now k c m) \<and>
    cache_keys_ok (stamp_websocket_owner_if_absent ops now k c m)"
proof (cases "stamp_websocket_owner_if_absent ops now k c m = m")
  case False
  then obtain s where s: "get_session_internal ops now k m = Some s"
      "stamp_websocket_owner_if_absent ops now k c m = snd (mgr_save ops (s\<lparr>ss_metadata :=
         AList.update SESSION_WEBSOCKET_OWNER_CLIENT_ID_KEY (JString c) (ss_metadata s)\<rparr>) m)"
    by (auto simp: stamp_websocket_owner_if_absent_def split: if_splits option.splits)
  let ?s = "s\<lparr>ss_metadata := AList.update SESSION_WEBSOCKET_OWNER_CLIENT_ID_KEY (JString c) (ss_metadata s)\<rparr>"
  obtain r m' where sv: "mgr_save ops ?s m = (r, m')" by fastforce
  have "ss_key ?s = k" using internal_key [OF assms(3) s(1)] by simp
  then show ?thesis
    using save_only_removed [OF assms(1) _ sv] save_cache [OF assms(3) sv] assms(2) sv s(2) by simp
qed (use assms(3) in auto)

lemma step_only_removed:
  assumes "key \<in> mg_deleted m" and "\<forall>k \<in> op_keys x. slot k = slot key \<longrightarrow> k = key" and "keeps_key x"
    and "cache_keys_ok m"
  shows "only_removed key m (mgr_step ops x m) \<and> cache_keys_ok (mgr_step ops x m)"
proof (cases x)
  case (MgUpdate now k f)
  then show ?thesis using update_only_removed [OF assms(4), of f key now k] assms(3) by simp
next
  case (MgSave s)
  obtain r m' where e: "mgr_save ops s m = (r, m')" by fastforce
  from save_only_removed [OF assms(1) _ e] save_cache [OF assms(4) e] assms(2) show ?thesis
    by (simp add: MgSave e)
next
  case (MgReset now s)
  obtain r m' where e: "reset_session ops now s m = (r, m')" by fastforce
  from reset_only_removed [OF assms(1) _ assms(4) e] assms(2) show ?thesis by (simp add: MgReset e)
next
  case (MgInvalidate k)
  have "set (mg_cache (snd (invalidate k m))) \<subseteq> set (mg_cache m)"
    using set_AList_delete by (simp add: invalidate_def)
  from cache_keys_subset [OF assms(4) this] show ?thesis
    by (auto simp: MgInvalidate) (auto simp: invalidate_def)
next
  case (MgStale now)
  have "set (mg_cache (remove_stale_sessions now m)) \<subseteq> set (mg_cache m)"
    by (auto simp: remove_stale_sessions_def)
  from cache_keys_subset [OF assms(4) this] show ?thesis
    by (auto simp: MgStale) (auto simp: remove_stale_sessions_def)
next
  case (MgDelete k)
  obtain r m' where e: "mgr_delete_session ops k m = (r, m')" by fastforce
  from delete_only_removed [OF e] assms(4) show ?thesis by (simp add: MgDelete e)
next
  case (MgFork now k k' n)
  obtain r m' where e: "fork_session_before_user_index ops now k k' n m = (r, m')" by fastforce
  from fork_only_removed [OF assms(1) _ assms(4) e] assms(2) show ?thesis by (simp add: MgFork e)
next
  case (MgRename now k t)
  obtain r m' where e: "rename_session ops now k t m = (r, m')" by fastforce
  from edit_only_removed [OF assms(1) _ assms(4) _ e [unfolded rename_session_def]] assms(2) show ?thesis
    by (simp add: MgRename e)
next
  case (MgPin now k b)
  obtain r m' where e: "set_session_pinned ops now k b m = (r, m')" by fastforce
  from edit_only_removed [OF assms(1) _ assms(4) _ e [unfolded set_session_pinned_def]] assms(2) show ?thesis
    by (simp add: MgPin e)
next
  case (MgStamp now k c)
  from stamp_only_removed [OF assms(1) _ assms(4)] assms(2) show ?thesis by (simp add: MgStamp)
next
  case (MgTitle now k t)
  obtain r m' where e: "persist_generated_title ops now k t m = (r, m')" by fastforce
  from title_only_removed [OF assms(1) _ assms(4) e] assms(2) show ?thesis by (simp add: MgTitle e)
qed

text \<open>
  After a deletion that succeeded, no sequence of operations, whatever they saved or created for
  that key, brings anything of the session back into the store.
\<close>

lemma deleted_stays_deleted:
  assumes "mgr_delete_session ops key m = (Inr (), m1)" and "cache_keys_ok m"
    and "\<forall>x \<in> set xs. keeps_key x \<and> (\<forall>k \<in> op_keys x. slot k = slot key \<longrightarrow> k = key)"
  shows "so_load ops now (mg_store (mgr_run ops xs m1)) key = None \<and>
    so_load_archive ops (mg_store (mgr_run ops xs m1)) key = []"
proof -
  obtain st where d: "so_delete_session ops (mg_store m) key = (Inr (), st)" "mg_store m1 = st" "key \<in> mg_deleted m1"
    using assms(1) by (auto simp: mgr_delete_session_def invalidate_def Let_def split: if_splits prod.splits sum.splits)
  have c: "cache_keys_ok m1" using delete_only_removed [OF assms(1)] assms(2) by blast
  have "only_removed key m1 (mgr_run ops xs m1)"
    using d(3) c assms(3)
  proof (induction xs arbitrary: m1)
    case (Cons x xs)
    from step_only_removed [of key m1 x] Cons.prems
    have s: "only_removed key m1 (mgr_step ops x m1)" "cache_keys_ok (mgr_step ops x m1)" by auto
    then have "key \<in> mg_deleted (mgr_step ops x m1)" using Cons.prems(1) by (auto simp: only_removed_def)
    then have "only_removed key (mgr_step ops x m1) (mgr_run ops xs (mgr_step ops x m1))"
      using Cons s(2) by auto
    then show ?case using only_removed_trans [OF s(1)] by (simp add: mgr_run_def)
  qed (auto simp: mgr_run_def)
  then show ?thesis using delete_ok [OF d(1)] d(2) by (auto simp: only_removed_def)
qed

end

end
