(* ===== verification/Session_File.thy ===== *)
theory Session_File
  imports Session_Store Journal_File
begin

text \<open>
  \<open>JSONLSessionStore\<close> of \<open>src/session/manager.rs\<close>: one file of JSON lines per session (a metadata
  line, then the messages), an append-only archive file of the consolidated messages, and the
  journal file of \<open>Journal_File\<close> beside them, on the same files and scripts of I/O outcomes.

  The texts of serde_json and chrono are parameters (\<open>session_env\<close>) with the laws \<open>env_ok\<close>.
  A value reads back as itself if its objects have distinct keys and its floats are among those that
  the default parser of serde_json reads back exactly (\<open>se_float_ok\<close>).  The directory of the old
  layout is the prefix \<open>legacy/\<close> of a file name.  A failing \<open>write_all\<close> leaves any
  proper prefix of its bytes behind.
\<close>

section \<open>Text\<close>

text \<open>How many bytes must follow the first one of a character, if they make well-formed UTF-8.\<close>

definition utf8_rest :: "nat \<Rightarrow> nat list \<Rightarrow> nat option" where
  "utf8_rest a bs =
     (let cont = (\<lambda>b. 128 \<le> b \<and> b \<le> 191);
          two = (\<lambda>p. case bs of b # c # _ \<Rightarrow> p b \<and> cont c | _ \<Rightarrow> False);
          three = (\<lambda>p. case bs of b # c # d # _ \<Rightarrow> p b \<and> cont c \<and> cont d | _ \<Rightarrow> False)
      in if a < 128 then Some 0
         else if 194 \<le> a \<and> a \<le> 223 then (case bs of b # _ \<Rightarrow> if cont b then Some 1 else None | [] \<Rightarrow> None)
         else if (a = 224 \<and> two (\<lambda>b. 160 \<le> b \<and> b \<le> 191)) \<or> (a = 237 \<and> two (\<lambda>b. 128 \<le> b \<and> b \<le> 159)) \<or>
           (225 \<le> a \<and> a \<le> 239 \<and> a \<noteq> 237 \<and> two cont) then Some 2
         else if (a = 240 \<and> three (\<lambda>b. 144 \<le> b \<and> b \<le> 191)) \<or> (a = 244 \<and> three (\<lambda>b. 128 \<le> b \<and> b \<le> 143)) \<or>
           (241 \<le> a \<and> a \<le> 243 \<and> three cont) then Some 3
         else None)"

fun valid_bytes :: "nat list \<Rightarrow> bool" where
  "valid_bytes [] \<longleftrightarrow> True"
| "valid_bytes (a # bs) \<longleftrightarrow>
     (case utf8_rest a bs of None \<Rightarrow> False | Some k \<Rightarrow> valid_bytes (drop k bs))"

definition valid_utf8 :: "string \<Rightarrow> bool" where
  "valid_utf8 s \<longleftrightarrow> valid_bytes (map of_char s)"

record session_env =
  se_show :: "json \<Rightarrow> string option"
  se_parse :: "string \<Rightarrow> json option"
  se_float_ok :: "u64 \<Rightarrow> bool"
  se_show_time :: "int \<Rightarrow> string"
  se_rfc3339 :: "string \<Rightarrow> int option"
  se_naive_frac :: "string \<Rightarrow> int option"
  se_naive :: "string \<Rightarrow> int option"

fun exact_json :: "(u64 \<Rightarrow> bool) \<Rightarrow> json \<Rightarrow> bool" where
  "exact_json f (JNumber (Float b)) \<longleftrightarrow> f b"
| "exact_json f (JNumber (NegInt n)) \<longleftrightarrow> sint n < 0"
| "exact_json f (JArray xs) \<longleftrightarrow> (\<forall>x \<in> set xs. exact_json f x)"
| "exact_json f (JObject m) \<longleftrightarrow> distinct (map fst m) \<and> (\<forall>kv \<in> set m. exact_json f (snd kv))"
| "exact_json f _ \<longleftrightarrow> True"

definition env_ok :: "session_env \<Rightarrow> bool" where
  "env_ok env \<longleftrightarrow>
     (\<forall>v line. se_show env v = Some line \<longrightarrow>
        valid_utf8 line \<and> NL \<notin> set line \<and> CR \<notin> set line \<and> trim line = line \<and> line \<noteq> [] \<and>
        (exact_json (se_float_ok env) v \<longrightarrow> se_parse env line = Some v) \<and>
        (\<forall>m k. v = JObject m \<and> k < length line \<longrightarrow> se_parse env (take k line) = None)) \<and>
     (\<forall>t. se_rfc3339 env (se_show_time env t) = Some t)"

definition parse_session_timestamp :: "session_env \<Rightarrow> string \<Rightarrow> int option" where
  "parse_session_timestamp env s =
     (case se_rfc3339 env s of
        Some t \<Rightarrow> Some t
      | None \<Rightarrow> (case se_naive_frac env s of Some t \<Rightarrow> Some t | None \<Rightarrow> se_naive env s))"

section \<open>Loading and saving\<close>

definition session_path :: "string \<Rightarrow> string" where
  "session_path key = safe_filename key @ ''.jsonl''"

definition archive_path :: "string \<Rightarrow> string" where
  "archive_path key = safe_filename key @ ''.archive''"

definition legacy_session_path :: "string \<Rightarrow> string" where
  "legacy_session_path key = ''legacy/'' @ safe_filename key @ ''.jsonl''"

definition json_value_as_last_consolidated :: "json \<Rightarrow> nat" where
  "json_value_as_last_consolidated v =
     (case v of
        JNumber (PosInt n) \<Rightarrow> unat n
      | JNumber (NegInt n) \<Rightarrow> nat (max (sint n) 0)
      | _ \<Rightarrow> 0)"

definition is_metadata_line :: "json \<Rightarrow> bool" where
  "is_metadata_line data \<longleftrightarrow> get_str data ''_type'' = Some ''metadata''"

definition load_data :: "session_env \<Rightarrow> session \<Rightarrow> json \<Rightarrow> session" where
  "load_data env s data =
     (if is_metadata_line data
      then s\<lparr>ss_metadata := (case json_get data ''metadata'' of
               Some (JObject m) \<Rightarrow> foldl (\<lambda>md (k, v). AList.update k v md) (ss_metadata s) m
             | _ \<Rightarrow> ss_metadata s),
           ss_created_at := (case Option.bind (get_str data ''created_at'') (parse_session_timestamp env) of
               Some t \<Rightarrow> t | None \<Rightarrow> ss_created_at s),
           ss_updated_at := (case Option.bind (get_str data ''updated_at'') (parse_session_timestamp env) of
               Some t \<Rightarrow> t | None \<Rightarrow> ss_updated_at s),
           ss_last_consolidated := (case json_get data ''last_consolidated'' of
               Some v \<Rightarrow> json_value_as_last_consolidated v | None \<Rightarrow> ss_last_consolidated s)\<rparr>
      else s\<lparr>ss_messages := ss_messages s @ [data]\<rparr>)"

text \<open>A line that is not UTF-8, blank, or not JSON is skipped.\<close>

definition line_data :: "session_env \<Rightarrow> string \<Rightarrow> json option" where
  "line_data env line =
     (if \<not> valid_utf8 line \<or> trim line = [] then None else se_parse env (trim line))"

definition jsonl_load :: "session_env \<Rightarrow> int \<Rightarrow> file_store \<Rightarrow> string \<Rightarrow> session option" where
  "jsonl_load env now st key =
     (case map_of (fs_files st) (session_path key) of
        None \<Rightarrow> None
      | Some bytes \<Rightarrow>
          Some (foldl (load_data env) (session_new now key) (List.map_filter (line_data env) (str_lines bytes))))"

text \<open>One line per value; \<open>None\<close> when one of them cannot be serialised.\<close>

fun show_lines :: "session_env \<Rightarrow> json list \<Rightarrow> string option" where
  "show_lines env [] = Some []"
| "show_lines env (v # vs) =
     (case se_show env v of
        None \<Rightarrow> None
      | Some line \<Rightarrow> map_option (\<lambda>rest. line @ [NL] @ rest) (show_lines env vs))"

definition metadata_line :: "session_env \<Rightarrow> session \<Rightarrow> json" where
  "metadata_line env s =
     JObject [(''_type'', JString ''metadata''), (''key'', JString (ss_key s)),
       (''created_at'', JString (se_show_time env (ss_created_at s))),
       (''updated_at'', JString (se_show_time env (ss_updated_at s))),
       (''metadata'', JObject (ss_metadata s)),
       (''last_consolidated'', JNumber (PosInt (of_nat (ss_last_consolidated s))))]"

definition jsonl_save :: "session_env \<Rightarrow> file_store \<Rightarrow> session \<Rightarrow> (io_error + unit) \<times> file_store" where
  "jsonl_save env st s =
     (case show_lines env (metadata_line env s # ss_messages s) of
        None \<Rightarrow> (Inl ''serialize'', st)
      | Some contents \<Rightarrow>
          (case pop_io st of (io, st) \<Rightarrow> write_atomic io (session_path (ss_key s)) contents st))"

definition jsonl_exists :: "file_store \<Rightarrow> string \<Rightarrow> bool" where
  "jsonl_exists st key \<longleftrightarrow>
     map_of (fs_files st) (session_path key) \<noteq> None \<or> map_of (fs_files st) (legacy_session_path key) \<noteq> None"

definition remove_file_if_present :: "string \<Rightarrow> file_store \<Rightarrow> (io_error + unit) \<times> file_store" where
  "remove_file_if_present name st =
     (case pop_io st of (io, st) \<Rightarrow>
        (case map_of (fs_files st) name of
           None \<Rightarrow> (Inr (), st)
         | Some _ \<Rightarrow>
             if io_remove io then (Inr (), st\<lparr>fs_files := AList.delete name (fs_files st)\<rparr>)
             else (Inl ''remove_file'', st)))"

definition jsonl_delete_archive :: "file_store \<Rightarrow> string \<Rightarrow> (io_error + unit) \<times> file_store" where
  "jsonl_delete_archive st key = remove_file_if_present (archive_path key) st"

definition jsonl_delete_session :: "file_store \<Rightarrow> string \<Rightarrow> (io_error + unit) \<times> file_store" where
  "jsonl_delete_session st key =
     (case remove_file_if_present (session_path key) st of
        (Inl e, st) \<Rightarrow> (Inl e, st)
      | (Inr _, st) \<Rightarrow>
          (case remove_file_if_present (legacy_session_path key) st of
             (Inl e, st) \<Rightarrow> (Inl e, st)
           | (Inr _, st) \<Rightarrow>
               (case jsonl_delete_archive st key of
                  (Inl e, st) \<Rightarrow> (Inl e, st)
                | (Inr _, st) \<Rightarrow> file_delete st key)))"

definition jsonl_append_archive ::
    "session_env \<Rightarrow> file_store \<Rightarrow> string \<Rightarrow> json list \<Rightarrow> (io_error + unit) \<times> file_store" where
  "jsonl_append_archive env st key messages =
     (if messages = [] then (Inr (), st)
      else
        (case show_lines env messages of
           None \<Rightarrow> (Inl ''serialize'', st)
         | Some contents \<Rightarrow>
             (let (io, st) = pop_io st; path = archive_path key; bytes = file_bytes st path in
              if \<not> io_dir io then (Inl ''create_dir_all'', st)
              else if \<not> io_open io then (Inl ''open'', st)
              else
                (case io_line io of
                   Some k \<Rightarrow> (Inl ''write'', put_file path (bytes @ take (min k (length contents - 1)) contents) st)
                 | None \<Rightarrow> (Inr (), put_file path (bytes @ contents) st)))))"

text \<open>\<open>map_while(Result::ok)\<close> ends the reading at the first line that is not UTF-8.\<close>

definition archive_values :: "session_env \<Rightarrow> string \<Rightarrow> json list" where
  "archive_values env bytes =
     List.map_filter (se_parse env) (filter (\<lambda>line. trim line \<noteq> []) (takeWhile valid_utf8 (str_lines bytes)))"

definition jsonl_load_archive :: "session_env \<Rightarrow> file_store \<Rightarrow> string \<Rightarrow> json list" where
  "jsonl_load_archive env st key =
     (case map_of (fs_files st) (archive_path key) of
        None \<Rightarrow> []
      | Some bytes \<Rightarrow> archive_values env bytes)"

section \<open>Reading a payload\<close>

text \<open>The strict read: the first line that is not a JSON object ends it.\<close>

definition metadata_of :: "json_object \<Rightarrow> json_object" where
  "metadata_of data = (case map_of data ''metadata'' of Some (JObject m) \<Rightarrow> m | _ \<Rightarrow> [])"

definition read_line :: "session_env \<Rightarrow> string \<Rightarrow> session_payload option \<Rightarrow> string \<Rightarrow> session_payload option" where
  "read_line env key acc line =
     (case acc of
        None \<Rightarrow> None
      | Some p \<Rightarrow>
          if \<not> valid_utf8 line then None
          else if trim line = [] then Some p
          else
            (case se_parse env (trim line) of
               Some (JObject data) \<Rightarrow>
                 if is_metadata_line (JObject data)
                 then Some (p\<lparr>pl_metadata := metadata_of data,
                        pl_created_at := get_str (JObject data) ''created_at'',
                        pl_updated_at := get_str (JObject data) ''updated_at'',
                        pl_key := (case get_str (JObject data) ''key'' of Some k \<Rightarrow> k | None \<Rightarrow> key)\<rparr>)
                 else Some (p\<lparr>pl_messages := pl_messages p @ [data]\<rparr>)
             | _ \<Rightarrow> None))"

definition try_read_session_payload :: "session_env \<Rightarrow> string \<Rightarrow> string \<Rightarrow> session_payload option" where
  "try_read_session_payload env key bytes =
     foldl (read_line env key)
       (Some \<lparr>pl_key = key, pl_created_at = None, pl_updated_at = None, pl_metadata = [], pl_messages = []\<rparr>)
       (str_lines bytes)"

text \<open>The recovery read: bad lines are skipped.\<close>

record repair_state =
  rp_messages :: "json list"
  rp_metadata :: json_object
  rp_created_at :: "int option"
  rp_updated_at :: "int option"
  rp_last_consolidated :: nat

definition nonempty_str :: "json_object \<Rightarrow> string \<Rightarrow> string option" where
  "nonempty_str data k =
     (case get_str (JObject data) k of Some s \<Rightarrow> if s \<noteq> [] then Some s else None | None \<Rightarrow> None)"

definition repair_data :: "session_env \<Rightarrow> repair_state \<Rightarrow> json_object \<Rightarrow> repair_state" where
  "repair_data env r data =
     (if is_metadata_line (JObject data)
      then r\<lparr>rp_metadata := metadata_of data,
           rp_created_at := (case nonempty_str data ''created_at'' of
             Some s \<Rightarrow> parse_session_timestamp env s | None \<Rightarrow> rp_created_at r),
           rp_updated_at := (case nonempty_str data ''updated_at'' of
             Some s \<Rightarrow> parse_session_timestamp env s | None \<Rightarrow> rp_updated_at r),
           rp_last_consolidated := (case map_of data ''last_consolidated'' of
             Some v \<Rightarrow> json_value_as_last_consolidated v | None \<Rightarrow> rp_last_consolidated r)\<rparr>
      else r\<lparr>rp_messages := rp_messages r @ [JObject data]\<rparr>)"

definition repair :: "session_env \<Rightarrow> int \<Rightarrow> string \<Rightarrow> string \<Rightarrow> session option" where
  "repair env now key bytes =
     (let objects = List.map_filter as_object (List.map_filter (line_data env) (str_lines bytes));
          r = foldl (repair_data env)
            \<lparr>rp_messages = [], rp_metadata = [], rp_created_at = None, rp_updated_at = None, rp_last_consolidated = 0\<rparr>
            objects
      in if rp_messages r = [] \<and> rp_metadata r = [] then None
         else Some \<lparr>ss_key = key, ss_messages = rp_messages r,
           ss_created_at = (case rp_created_at r of Some t \<Rightarrow> t | None \<Rightarrow> now),
           ss_updated_at = (case rp_updated_at r of Some t \<Rightarrow> t | None \<Rightarrow> now),
           ss_metadata = rp_metadata r, ss_last_consolidated = rp_last_consolidated r\<rparr>)"

definition payload_of_session :: "session_env \<Rightarrow> session \<Rightarrow> session_payload" where
  "payload_of_session env s =
     \<lparr>pl_key = ss_key s, pl_created_at = Some (se_show_time env (ss_created_at s)),
      pl_updated_at = Some (se_show_time env (ss_updated_at s)), pl_metadata = ss_metadata s,
      pl_messages = List.map_filter as_object (ss_messages s)\<rparr>"

definition read_session_payload :: "session_env \<Rightarrow> int \<Rightarrow> file_store \<Rightarrow> string \<Rightarrow> session_payload option" where
  "read_session_payload env now st key =
     (case map_of (fs_files st) (session_path key) of
        None \<Rightarrow> None
      | Some bytes \<Rightarrow>
          (case try_read_session_payload env key bytes of
             Some p \<Rightarrow> Some p
           | None \<Rightarrow> map_option (payload_of_session env) (repair env now key bytes)))"

section \<open>Listing\<close>

definition metadata_field :: "json \<Rightarrow> string \<Rightarrow> json option" where
  "metadata_field line k = Option.bind (json_get line ''metadata'') (\<lambda>m. json_get m k)"

definition listed_session_has_summary :: "json \<Rightarrow> bool" where
  "listed_session_has_summary line =
     (case Option.bind (Option.bind (metadata_field line LAST_SUMMARY_KEY) as_object) (\<lambda>m. map_of m ''text'') of
        Some (JString s) \<Rightarrow> s \<noteq> []
      | _ \<Rightarrow> False)"

definition listed_session_is_pinned :: "json \<Rightarrow> bool" where
  "listed_session_is_pinned line =
     (case Option.bind (metadata_field line ''pinned'') as_bool of Some b \<Rightarrow> b | None \<Rightarrow> False)"

definition listed_session_title :: "json \<Rightarrow> string" where
  "listed_session_title line =
     (case Option.bind (metadata_field line ''title'') as_str of Some s \<Rightarrow> s | None \<Rightarrow> [])"

definition listed_session_owner_client_id :: "json \<Rightarrow> string" where
  "listed_session_owner_client_id line =
     (case Option.bind (metadata_field line ''websocket_owner_client_id'') as_str of Some s \<Rightarrow> s | None \<Rightarrow> [])"

definition listed_session :: "session_env \<Rightarrow> string \<Rightarrow> string \<Rightarrow> string \<Rightarrow> json option" where
  "listed_session env dir name bytes =
     (case str_lines bytes of
        [] \<Rightarrow> None
      | line # _ \<Rightarrow>
          if \<not> valid_utf8 line then None
          else
            (case se_parse env line of
               None \<Rightarrow> None
             | Some data \<Rightarrow>
                 (case (is_metadata_line data, get_str data ''key'') of
                    (True, Some key) \<Rightarrow>
                      if key = [] then None
                      else Some (JObject [(''key'', JString key),
                        (''created_at'', JString (str_or_empty data ''created_at'')),
                        (''updated_at'', JString (str_or_empty data ''updated_at'')),
                        (''path'', JString (dir @ ''/'' @ name)),
                        (''title'', JString (listed_session_title data)),
                        (''owner_client_id'', JString (listed_session_owner_client_id data)),
                        (''has_summary'', JBool (listed_session_has_summary data)),
                        (''pinned'', JBool (listed_session_is_pinned data))])
                  | _ \<Rightarrow> None)))"

text \<open>A stable sort, latest \<open>updated_at\<close> first; the directory order is the order of the files.\<close>

definition jsonl_list_sessions :: "session_env \<Rightarrow> string \<Rightarrow> file_store \<Rightarrow> json list" where
  "jsonl_list_sessions env dir st =
     (let names = filter (\<lambda>name. CHR ''/'' \<notin> set name \<and> path_extension name = Some ''jsonl'') (map fst (fs_files st));
          sessions = List.map_filter (\<lambda>name. listed_session env dir name (file_bytes st name)) names
      in rev (sort_key (\<lambda>v. str_or_empty v ''updated_at'') (rev sessions)))"

definition jsonl_ops :: "session_env \<Rightarrow> string \<Rightarrow> file_store session_store" where
  "jsonl_ops env dir =
     \<lparr>so_load = jsonl_load env, so_save = jsonl_save env, so_exists = jsonl_exists,
      so_delete_session = jsonl_delete_session, so_list_sessions = jsonl_list_sessions env dir,
      so_read_payload = read_session_payload env, so_append_archive = jsonl_append_archive env,
      so_load_archive = jsonl_load_archive env, so_delete_archive = jsonl_delete_archive,
      so_journal_delete = file_delete\<rparr>"

lemma jsonl_ops_simps [simp]:
  "so_load (jsonl_ops env dir) = jsonl_load env" "so_save (jsonl_ops env dir) = jsonl_save env"
  "so_exists (jsonl_ops env dir) = jsonl_exists" "so_delete_session (jsonl_ops env dir) = jsonl_delete_session"
  "so_append_archive (jsonl_ops env dir) = jsonl_append_archive env"
  "so_load_archive (jsonl_ops env dir) = jsonl_load_archive env"
  "so_delete_archive (jsonl_ops env dir) = jsonl_delete_archive" "so_journal_delete (jsonl_ops env dir) = file_delete"
  "so_read_payload (jsonl_ops env dir) = read_session_payload env"
  "so_list_sessions (jsonl_ops env dir) = jsonl_list_sessions env dir"
  by (simp_all add: jsonl_ops_def)

end
