(* ===== verification/Session_File_Laws.thy ===== *)
theory Session_File_Laws
  imports Session_File
begin

text \<open>
  The JSONL store keeps the promises of \<open>SessionStore\<close>: a saved session loads back, the archive
  grows by exactly the messages appended, failures change nothing but the tail of the archive.
\<close>

section \<open>File names\<close>

lemma set_trim: "set (trim s) \<subseteq> set s"
  using suffix_strip_front [of white_chars "length s" s] prefix_trim_end [of "trim_start s"]
  by (auto simp: trim_def trim_start_def dest: set_mono_suffix set_mono_prefix)

lemma slash_safe_filename: "CHR ''/'' \<notin> set (safe_filename key)"
  using set_trim [of "map (\<lambda>c. if c \<in> set UNSAFE_PATH_CHARS then CHR ''_'' else c) key"]
  by (auto simp: safe_filename_def UNSAFE_PATH_CHARS_def split: if_splits)

lemma path_neq [simp]:
  "session_path k \<noteq> archive_path k'" "archive_path k \<noteq> session_path k'"
  "legacy_session_path k \<noteq> archive_path k'" "archive_path k \<noteq> legacy_session_path k'"
  "path_for k \<noteq> archive_path k'" "archive_path k \<noteq> path_for k'"
  "path_for k \<noteq> session_path k'" "session_path k \<noteq> path_for k'"
  by (auto simp: session_path_def archive_path_def legacy_session_path_def path_for_def JOURNAL_EXTENSION_def
      dest!: arg_cong [where f = last])

lemma legacy_neq [simp]: "legacy_session_path k \<noteq> session_path k'" "session_path k \<noteq> legacy_session_path k'"
proof -
  have "CHR ''/'' \<in> set (legacy_session_path k)" "CHR ''/'' \<notin> set (session_path k')" for k k'
    using slash_safe_filename by (auto simp: legacy_session_path_def session_path_def)
  then show "legacy_session_path k \<noteq> session_path k'" "session_path k \<noteq> legacy_session_path k'" by metis+
qed

lemma path_slot [simp]:
  "session_path k = session_path k' \<longleftrightarrow> safe_filename k = safe_filename k'"
  "archive_path k = archive_path k' \<longleftrightarrow> safe_filename k = safe_filename k'"
  by (simp_all add: session_path_def archive_path_def)

section \<open>Lines of values\<close>

lemma env_okD:
  assumes "env_ok env" "se_show env v = Some line"
  shows "valid_utf8 line" "NL \<notin> set line" "CR \<notin> set line" "trim line = line" "line \<noteq> []"
    "exact_json (se_float_ok env) v \<Longrightarrow> se_parse env line = Some v"
    "v = JObject m \<Longrightarrow> k < length line \<Longrightarrow> se_parse env (take k line) = None"
  using assms unfolding env_ok_def by blast+

definition exact_all :: "session_env \<Rightarrow> json list \<Rightarrow> bool" where
  "exact_all env vs \<longleftrightarrow> (\<forall>v \<in> set vs. exact_json (se_float_ok env) v)"

lemma exact_all_simps [simp]:
  "exact_all env []" "exact_all env (v # vs) \<longleftrightarrow> exact_json (se_float_ok env) v \<and> exact_all env vs"
  by (simp_all add: exact_all_def)

lemma str_lines_show:
  "env_ok env \<Longrightarrow> show_lines env vs = Some contents \<Longrightarrow>
   \<exists>ls. str_lines contents = ls \<and> ends_cleanly contents \<and> list_all2 (\<lambda>v l. se_show env v = Some l) vs ls"
proof (induction vs arbitrary: contents)
  case (Cons v vs)
  then obtain line rest where l: "se_show env v = Some line" "show_lines env vs = Some rest" "contents = line @ NL # rest"
    by (auto split: option.splits)
  from Cons.IH [OF Cons.prems(1) l(2)] show ?case
    unfolding l(3) str_lines_line [OF env_okD(2,3) [OF Cons.prems(1) l(1)]]
    using l(1) by (auto simp: ends_cleanly_def)
qed (simp add: ends_cleanly_def)

lemma line_data_show:
  "env_ok env \<Longrightarrow> se_show env v = Some line \<Longrightarrow> exact_json (se_float_ok env) v \<Longrightarrow> line_data env line = Some v"
  using env_okD [of env v line] by (simp add: line_data_def)

lemma shown_data:
  assumes "env_ok env" "show_lines env vs = Some contents" "exact_all env vs"
  shows "List.map_filter (line_data env) (str_lines contents) = vs"
proof -
  from str_lines_show [OF assms(1,2)] have "list_all2 (\<lambda>v l. se_show env v = Some l) vs (str_lines contents)"
    by blast
  then show ?thesis using assms(3)
    by (induction rule: list_all2_induct) (auto simp: map_filter_Cons line_data_show [OF assms(1)])
qed

section \<open>A saved session loads back\<close>

definition storable :: "session_env \<Rightarrow> session \<Rightarrow> bool" where
  "storable env s \<longleftrightarrow>
     exact_json (se_float_ok env) (JObject (ss_metadata s)) \<and> exact_all env (ss_messages s) \<and>
     (\<forall>m \<in> set (ss_messages s). \<not> is_metadata_line m) \<and> ss_last_consolidated s < 2 ^ 64"

lemma load_messages:
  "(\<forall>m \<in> set ms. \<not> is_metadata_line m) \<Longrightarrow>
   foldl (load_data env) s ms = s\<lparr>ss_messages := ss_messages s @ ms\<rparr>"
  by (induction ms arbitrary: s) (auto simp: load_data_def)

lemma insert_all: "distinct (map fst (al @ m)) \<Longrightarrow> foldl (\<lambda>md (k, v). AList.update k v md) al m = al @ m"
proof (induction m arbitrary: al)
  case (Cons kv m)
  obtain k v where kv: "kv = (k, v)" by fastforce
  have "AList.update k v al = al @ [(k, v)]"
    by (rule AList_update_fresh) (use Cons.prems kv in auto)
  then show ?case using Cons.IH [of "al @ [(k, v)]"] Cons.prems kv by simp
qed simp

lemma load_metadata_line:
  assumes "env_ok env" and "storable env s"
  shows "load_data env (session_new now (ss_key s)) (metadata_line env s) = s\<lparr>ss_messages := []\<rparr>"
proof -
  let ?l = "metadata_line env s"
  have f: "is_metadata_line ?l" "json_get ?l ''metadata'' = Some (JObject (ss_metadata s))"
    "get_str ?l ''created_at'' = Some (se_show_time env (ss_created_at s))"
    "get_str ?l ''updated_at'' = Some (se_show_time env (ss_updated_at s))"
    "json_get ?l ''last_consolidated'' = Some (JNumber (PosInt (of_nat (ss_last_consolidated s))))"
    by (simp_all add: metadata_line_def is_metadata_line_def get_str_def)
  have t: "parse_session_timestamp env (se_show_time env t) = Some t" for t
    using assms(1) by (simp add: parse_session_timestamp_def env_ok_def)
  have m: "foldl (\<lambda>md (k, v). AList.update k v md) [] (ss_metadata s) = ss_metadata s"
    using insert_all [of "[]" "ss_metadata s"] assms(2) by (simp add: storable_def)
  have n: "json_value_as_last_consolidated (JNumber (PosInt (of_nat (ss_last_consolidated s)))) = ss_last_consolidated s"
    using assms(2) by (simp add: json_value_as_last_consolidated_def storable_def unsigned_of_nat take_bit_nat_eq_self)
  show ?thesis
    by (simp add: load_data_def f t n session_new_def) (simp add: m)
qed

lemma exact_metadata_line: "storable env s \<Longrightarrow> exact_json (se_float_ok env) (metadata_line env s)"
  by (simp add: metadata_line_def storable_def)

lemma load_saved:
  assumes "env_ok env" and "storable env s" and "jsonl_save env st s = (Inr (), st')"
  shows "jsonl_load env now st' (ss_key s) = Some s"
proof -
  from assms(3) obtain contents where c: "show_lines env (metadata_line env s # ss_messages s) = Some contents"
      "map_of (fs_files st') (session_path (ss_key s)) = Some contents"
    by (auto simp: jsonl_save_def write_atomic_def put_file_def split: option.splits prod.splits if_splits)
  have d: "List.map_filter (line_data env) (str_lines contents) = metadata_line env s # ss_messages s"
    by (rule shown_data [OF assms(1) c(1)]) (use exact_metadata_line [OF assms(2)] assms(2) in \<open>simp add: storable_def\<close>)
  have "\<forall>m \<in> set (ss_messages s). \<not> is_metadata_line m" using assms(2) by (simp add: storable_def)
  from load_messages [OF this] show ?thesis
    by (simp add: jsonl_load_def c(2) d load_metadata_line [OF assms(1,2)])
qed

section \<open>The archive\<close>

definition archivable :: "session_env \<Rightarrow> json list \<Rightarrow> bool" where
  "archivable env ms \<longleftrightarrow> exact_all env ms \<and> (\<forall>m \<in> set ms. \<exists>obj. m = JObject obj)"

definition clean_archive :: "string \<Rightarrow> bool" where
  "clean_archive bytes \<longleftrightarrow> ends_cleanly bytes \<and> (\<forall>line \<in> set (str_lines bytes). valid_utf8 line)"

definition archives_ok :: "file_store \<Rightarrow> bool" where
  "archives_ok st \<longleftrightarrow> (\<forall>key. clean_archive (file_bytes st (archive_path key)))"

lemma jsonl_load_archive_bytes: "jsonl_load_archive env st key = archive_values env (file_bytes st (archive_path key))"
  by (simp add: jsonl_load_archive_def file_bytes_def archive_values_def split: option.splits)

lemma archive_values_append:
  assumes "clean_archive b"
  shows "archive_values env (b @ c) = archive_values env b @ archive_values env c"
proof -
  have "takeWhile valid_utf8 (str_lines b @ ls) = str_lines b @ takeWhile valid_utf8 ls" for ls
    using assms by (intro takeWhile_append2) (auto simp: clean_archive_def)
  from this this [of "[]"] show ?thesis
    using assms by (simp add: archive_values_def clean_archive_def str_lines_append del: takeWhile_eq_all_conv)
qed

lemma clean_append: "clean_archive b \<Longrightarrow> clean_archive c \<Longrightarrow> clean_archive (b @ c)"
  by (cases "c = []") (auto simp: clean_archive_def str_lines_append ends_cleanly_def)

lemma archive_line:
  assumes "env_ok env" "se_show env v = Some line" "exact_json (se_float_ok env) v"
  shows "archive_values env (line @ NL # rest) = v # archive_values env rest"
  using env_okD [OF assms(1,2)] assms(3) by (simp add: archive_values_def str_lines_line map_filter_Cons)

lemma archive_shown:
  assumes "env_ok env" "show_lines env vs = Some contents" "archivable env vs"
  shows "archive_values env contents = vs \<and> clean_archive contents"
  using assms(2,3)
proof (induction vs arbitrary: contents)
  case (Cons v vs)
  then obtain line rest where l: "se_show env v = Some line" "show_lines env vs = Some rest" "contents = line @ NL # rest"
    by (auto split: option.splits)
  note e = env_okD [OF assms(1) l(1)]
  have ih: "archive_values env rest = vs \<and> clean_archive rest"
    using Cons l(2) by (simp add: archivable_def)
  have "exact_json (se_float_ok env) v" using Cons.prems(2) by (simp add: archivable_def)
  then show ?case using ih archive_line [OF assms(1) l(1)] e
    by (auto simp: l(3) clean_archive_def str_lines_line ends_cleanly_def)
qed (simp add: archive_values_def clean_archive_def ends_cleanly_def)

text \<open>A torn write leaves complete lines and a piece that does not read as a message.\<close>

lemma archive_torn:
  assumes "env_ok env" "show_lines env vs = Some contents" "archivable env vs"
  shows "\<exists>n. archive_values env (take k contents) = take n vs"
  using assms(2,3)
proof (induction vs arbitrary: contents k)
  case (Cons v vs)
  then obtain line rest where l: "se_show env v = Some line" "show_lines env vs = Some rest" "contents = line @ NL # rest"
    by (auto split: option.splits)
  note e = env_okD [OF assms(1) l(1)]
  have v: "exact_json (se_float_ok env) v" "\<exists>m. v = JObject m" using Cons.prems(2) by (auto simp: archivable_def)
  consider "k < length line" | "k = length line" | j where "k = length line + Suc j"
    by (metis less_imp_Suc_add not_less_iff_gr_or_eq add_Suc_right)
  then show ?case
  proof cases
    case 1
    have "NL \<notin> set (take k line)" using e(2) by (auto dest: in_set_takeD)
    moreover have "se_parse env (take k line) = None" using v(2) e(7) 1 by blast
    ultimately have "archive_values env (take k contents) = take 0 (v # vs)"
      using 1 by (auto simp: l(3) archive_values_def str_lines_piece map_filter_Cons)
    then show ?thesis ..
  next
    case 2
    then have "archive_values env (take k contents) = take 1 (v # vs)"
      using e v(1) by (simp add: l(3) archive_values_def str_lines_piece map_filter_Cons)
    then show ?thesis ..
  next
    case 3
    have "archivable env vs" using Cons.prems(2) by (simp add: archivable_def)
    from Cons.IH [OF l(2) this, of j] obtain n where "archive_values env (take j rest) = take n vs" by blast
    then have "archive_values env (take k contents) = take (Suc n) (v # vs)"
      using archive_line [OF assms(1) l(1) v(1)] 3 by (simp add: l(3))
    then show ?thesis ..
  qed
qed (auto simp: archive_values_def)

section \<open>What each operation does to the files\<close>

abbreviation file_at :: "file_store \<Rightarrow> string \<Rightarrow> string option" where
  "file_at st name \<equiv> map_of (fs_files st) name"

lemma load_cong: "file_at st' (session_path k) = file_at st (session_path k) \<Longrightarrow>
  jsonl_load env now st' k = jsonl_load env now st k"
  by (simp add: jsonl_load_def)

lemma archive_cong: "file_at st' (archive_path k) = file_at st (archive_path k) \<Longrightarrow>
  jsonl_load_archive env st' k = jsonl_load_archive env st k"
  by (simp add: jsonl_load_archive_def)

lemma load_gone: "file_at st (session_path k) = None \<Longrightarrow> jsonl_load env now st k = None"
  by (simp add: jsonl_load_def)

lemma archive_gone: "file_at st (archive_path k) = None \<Longrightarrow> jsonl_load_archive env st k = []"
  by (simp add: jsonl_load_archive_def)

lemma archives_ok_cong:
  assumes "archives_ok st" and "\<And>k. file_at st' (archive_path k) \<in> {None, file_at st (archive_path k)}"
  shows "archives_ok st'"
  unfolding archives_ok_def
proof
  fix k
  have "file_bytes st' (archive_path k) \<in> {[], file_bytes st (archive_path k)}"
    using assms(2) [of k] by (auto simp: file_bytes_def)
  then show "clean_archive (file_bytes st' (archive_path k))"
    using assms(1) by (auto simp: archives_ok_def clean_archive_def ends_cleanly_def)
qed

lemma pop_io_files: "pop_io st = (io, st') \<Longrightarrow> fs_files st' = fs_files st"
  using pop_io_same by blast

lemma save_files:
  assumes "jsonl_save env st s = (r, st')"
  shows "n \<noteq> session_path (ss_key s) \<Longrightarrow> file_at st' n = file_at st n"
    and "r = Inl e \<Longrightarrow> fs_files st' = fs_files st"
  using assms by (auto simp: jsonl_save_def write_atomic_def dest: pop_io_files
      split: option.splits prod.splits if_splits)

lemma append_files:
  assumes "jsonl_append_archive env st key ms = (r, st')"
  shows "n \<noteq> archive_path key \<Longrightarrow> file_at st' n = file_at st n"
  using assms by (auto simp: jsonl_append_archive_def Let_def dest: pop_io_files
      split: option.splits prod.splits if_splits)

lemma append_bytes:
  assumes "jsonl_append_archive env st key ms = (r, st')" and "ms \<noteq> []"
  shows "r = Inr u \<Longrightarrow> \<exists>contents. show_lines env ms = Some contents \<and>
      file_bytes st' (archive_path key) = file_bytes st (archive_path key) @ contents"
    and "r = Inl e \<Longrightarrow> file_at st' (archive_path key) = file_at st (archive_path key) \<or>
      (\<exists>contents k. show_lines env ms = Some contents \<and>
        file_bytes st' (archive_path key) = file_bytes st (archive_path key) @ take k contents)"
proof -
  obtain io st1 where p: "pop_io st = (io, st1)" by fastforce
  from pop_io_files [OF p] have f: "fs_files st1 = fs_files st" .
  then have b: "file_bytes st1 = file_bytes st" by (rule file_bytes_cong)
  note d = jsonl_append_archive_def Let_def p
  show "r = Inr u \<Longrightarrow> \<exists>contents. show_lines env ms = Some contents \<and>
      file_bytes st' (archive_path key) = file_bytes st (archive_path key) @ contents"
    using assms f b by (auto simp: d split: option.splits if_splits)
  assume "r = Inl e"
  with assms f b show "file_at st' (archive_path key) = file_at st (archive_path key) \<or>
      (\<exists>contents k. show_lines env ms = Some contents \<and>
        file_bytes st' (archive_path key) = file_bytes st (archive_path key) @ take k contents)"
    by (auto simp: d split: option.splits if_splits)
qed

lemma remove_files:
  assumes "remove_file_if_present name st = (r, st')"
  shows "n \<noteq> name \<Longrightarrow> file_at st' n = file_at st n"
    and "file_at st' n \<in> {None, file_at st n}"
    and "r = Inr u \<Longrightarrow> file_at st' name = None"
  using assms by (auto simp: remove_file_if_present_def dest: pop_io_files split: prod.splits option.splits if_splits)

lemma journal_delete_files:
  assumes "file_delete st key = (r, st')"
  shows "n \<noteq> path_for key \<Longrightarrow> file_at st' n = file_at st n"
  using assms by (auto simp: file_delete_def dest: pop_io_files split: prod.splits option.splits if_splits)

lemma delete_files:
  assumes "jsonl_delete_session st key = (r, st')"
  shows "n \<notin> {session_path key, legacy_session_path key, archive_path key, path_for key} \<Longrightarrow> file_at st' n = file_at st n"
    and "n \<noteq> path_for key \<Longrightarrow> file_at st' n \<in> {None, file_at st n}"
    and "r = Inr u \<Longrightarrow> file_at st' (session_path key) = None \<and> file_at st' (archive_path key) = None"
proof -
  obtain r1 st1 where 1: "remove_file_if_present (session_path key) st = (r1, st1)" by fastforce
  obtain r2 st2 where 2: "remove_file_if_present (legacy_session_path key) st1 = (r2, st2)" by fastforce
  obtain r3 st3 where 3: "remove_file_if_present (archive_path key) st2 = (r3, st3)" by fastforce
  obtain r4 st4 where 4: "file_delete st3 key = (r4, st4)" by fastforce
  note f = remove_files [OF 1] remove_files [OF 2] remove_files [OF 3] journal_delete_files [OF 4]
  have st': "st' \<in> {st1, st2, st3, st4}"
    using assms 1 2 3 4 by (auto simp: jsonl_delete_session_def jsonl_delete_archive_def split: sum.splits)
  show "n \<notin> {session_path key, legacy_session_path key, archive_path key, path_for key} \<Longrightarrow> file_at st' n = file_at st n"
    using st' f(1,4,7,10) by auto
  show "n \<noteq> path_for key \<Longrightarrow> file_at st' n \<in> {None, file_at st n}"
    using st' f(2) [of n] f(5) [of n] f(8) [of n] f(10) [of n] by auto
  assume "r = Inr u"
  then have ok: "r1 = Inr ()" "r3 = Inr ()" "st' = st4"
    using assms 1 2 3 4 by (auto simp: jsonl_delete_session_def jsonl_delete_archive_def split: sum.splits)
  from f(3) [OF ok(1)] f(4) [of "session_path key"] f(7) [of "session_path key"] f(10) [of "session_path key"]
  have "file_at st4 (session_path key) = None" by simp
  moreover from f(9) [OF ok(2)] f(10) [of "archive_path key"] have "file_at st4 (archive_path key) = None" by simp
  ultimately show "file_at st' (session_path key) = None \<and> file_at st' (archive_path key) = None"
    by (simp add: ok(3))
qed

section \<open>The laws\<close>

lemma append_archive_ok:
  assumes "env_ok env" "archives_ok st" "archivable env ms" "jsonl_append_archive env st key ms = (Inr (), st')"
  shows "archives_ok st' \<and> jsonl_load_archive env st' key = jsonl_load_archive env st key @ ms"
proof (cases "ms = []")
  case True
  then show ?thesis using assms by (simp add: jsonl_append_archive_def)
next
  case False
  from append_bytes(1) [OF assms(4) False refl] obtain contents where c: "show_lines env ms = Some contents"
      "file_bytes st' (archive_path key) = file_bytes st (archive_path key) @ contents"
    by blast
  have clean: "clean_archive (file_bytes st (archive_path k))" for k using assms(2) by (simp add: archives_ok_def)
  note shown = archive_shown [OF assms(1) c(1) assms(3)]
  have "clean_archive (file_bytes st' (archive_path k))" for k
  proof (cases "archive_path k = archive_path key")
    case True
    then show ?thesis using c(2) clean_append [OF clean] shown by metis
  next
    case False
    then have "file_bytes st' (archive_path k) = file_bytes st (archive_path k)"
      using append_files [OF assms(4)] by (simp add: file_bytes_def)
    then show ?thesis using clean by metis
  qed
  then show ?thesis
    using shown by (simp add: archives_ok_def jsonl_load_archive_bytes c(2) archive_values_append [OF clean])
qed

lemma append_archive_err:
  assumes "env_ok env" "archives_ok st" "archivable env ms" "jsonl_append_archive env st key ms = (Inl e, st')"
  shows "\<exists>n. jsonl_load_archive env st' key = jsonl_load_archive env st key @ take n ms"
proof -
  have "ms \<noteq> []" using assms(4) by (auto simp: jsonl_append_archive_def)
  have clean: "clean_archive (file_bytes st (archive_path key))" using assms(2) by (simp add: archives_ok_def)
  from append_bytes(2) [OF assms(4) \<open>ms \<noteq> []\<close> refl] show ?thesis
  proof (elim disjE exE conjE)
    assume "file_at st' (archive_path key) = file_at st (archive_path key)"
    from archive_cong [OF this] have "jsonl_load_archive env st' key = jsonl_load_archive env st key @ take 0 ms" by simp
    then show ?thesis ..
  next
    fix contents k
    assume c: "show_lines env ms = Some contents"
      and b: "file_bytes st' (archive_path key) = file_bytes st (archive_path key) @ take k contents"
    from archive_torn [OF assms(1) c assms(3), of k] show ?thesis
      by (simp add: jsonl_load_archive_bytes b archive_values_append [OF clean])
  qed
qed

lemma loaded_key: "jsonl_load env now st k = Some s \<Longrightarrow> ss_key s = k"
proof -
  have "ss_key (foldl (load_data env) s0 ds) = ss_key s0" for s0 ds
    by (induction ds arbitrary: s0) (auto simp: load_data_def)
  then show "jsonl_load env now st k = Some s \<Longrightarrow> ss_key s = k"
    by (auto simp: jsonl_load_def session_new_def split: option.splits)
qed

lemma jsonl_laws:
  assumes "env_ok env"
  shows "session_store_laws (jsonl_ops env dir) archives_ok safe_filename (storable env) (archivable env)"
proof (unfold_locales, unfold jsonl_ops_simps, goal_cases)
  case (1 now st k)
  then show ?case by (auto simp: jsonl_load_def jsonl_exists_def)
next
  case (2 now st k s)
  then show ?case by (rule loaded_key)
next
  case (3 st s st' now)
  have "archives_ok st'" by (rule archives_ok_cong [OF 3(1)]) (use save_files(1) [OF 3(3)] in auto)
  then show ?case using load_saved [OF assms 3(2,3)] by blast
next
  case (4 st s e st' now k)
  from save_files(2) [OF 4(2) refl] have f: "file_at st' = file_at st" by simp
  have "archives_ok st'" by (rule archives_ok_cong [OF 4(1)]) (simp add: f)
  then show ?case using load_cong [of st' k st] by (simp add: f)
next
  case (5 st s r st' k now)
  from save_files(1) [OF 5] show ?case by (auto intro!: load_cong archive_cong)
next
  case (6 st ms key st')
  then show ?case using append_archive_ok [OF assms] by blast
next
  case (7 st ms key e st')
  then show ?case using append_archive_err [OF assms] by blast
next
  case (8 st key ms r st' now k)
  from append_files [OF 8] show ?case by (auto intro!: load_cong archive_cong)
next
  case (9 st key)
  then show ?case by (simp add: jsonl_append_archive_def)
next
  case (10 st key st' now)
  from delete_files(3) [OF 10 refl] show ?case by (simp add: load_gone archive_gone)
next
  case (11 st key r st' now k)
  note f = delete_files [OF 11]
  have "jsonl_load env now st' k \<in> {None, jsonl_load env now st k}"
    using f(2) [of "session_path k"] load_gone [of st' k] load_cong [of st' k st] by auto
  moreover have "jsonl_load_archive env st' k \<in> {[], jsonl_load_archive env st k}"
    using f(2) [of "archive_path k"] archive_gone [of st' k] archive_cong [of st' k st] by auto
  ultimately show ?case
    using f(1) [of "session_path k"] f(1) [of "archive_path k"] load_cong [of st' k st] archive_cong [of st' k st]
    by simp
next
  case (12 st key st')
  note f = remove_files [OF 12(2) [unfolded jsonl_delete_archive_def]]
  have "archives_ok st'" by (rule archives_ok_cong [OF 12(1)]) (rule f(2))
  then show ?case using f(3) [OF refl] by (simp add: archive_gone)
next
  case (13 st key r st' now k)
  note f = remove_files [OF 13 [unfolded jsonl_delete_archive_def]]
  show ?case using f(1) [of "session_path k"] f(1) [of "archive_path k"] f(2) [of "archive_path k"]
      load_cong [of st' k st] archive_cong [of st' k st] archive_gone [of st' k]
    by auto
next
  case (14 st key r st' now k)
  note f = journal_delete_files [OF 14]
  have "archives_ok st'" if "archives_ok st" by (rule archives_ok_cong [OF that]) (use f in simp)
  then show ?case using f by (auto intro!: load_cong archive_cong)
qed

section \<open>After a torn write\<close>

text \<open>
  \<open>append_archive\<close> does not end a torn tail with a newline, as the journal's append does: the
  next message is merged into the torn line, and is lost.  If the tail ends inside a character, the merged
  line is not UTF-8, and every message after it is out of reach, too.
\<close>

lemma torn_archive_append:
  assumes "env_ok env" and "archivable env (v # vs)"
    and "file_bytes st (archive_path key) = b @ piece" and "clean_archive b" and "NL \<notin> set piece"
    and "CR \<notin> set piece" and "jsonl_append_archive env st key (v # vs) = (Inr (), st')"
  shows "\<exists>line. se_show env v = Some line \<and>
    jsonl_load_archive env st' key = archive_values env b @
      (if valid_utf8 (piece @ line)
       then (if trim (piece @ line) = [] then [] else case se_parse env (piece @ line) of None \<Rightarrow> [] | Some x \<Rightarrow> [x]) @ vs
       else [])"
proof -
  from append_bytes(1) [OF assms(7) _ refl] obtain contents where c: "show_lines env (v # vs) = Some contents"
      "file_bytes st' (archive_path key) = (b @ piece) @ contents"
    unfolding assms(3) by blast
  then obtain line rest where l: "se_show env v = Some line" "show_lines env vs = Some rest" "contents = line @ NL # rest"
    by (auto split: option.splits)
  note e = env_okD [OF assms(1) l(1)]
  have "archivable env vs" using assms(2) by (simp add: archivable_def)
  from archive_shown [OF assms(1) l(2) this] have rest: "archive_values env rest = vs" by blast
  have nl: "NL \<notin> set (piece @ line)" "CR \<notin> set (piece @ line)" using assms(5,6) e(2,3) by auto
  have "archive_values env ((piece @ line) @ NL # rest) =
      (if valid_utf8 (piece @ line)
       then (if trim (piece @ line) = [] then [] else case se_parse env (piece @ line) of None \<Rightarrow> [] | Some x \<Rightarrow> [x]) @
         archive_values env rest
       else [])"
    unfolding archive_values_def str_lines_line [OF nl] by (simp add: map_filter_Cons split: option.splits)
  then show ?thesis
    using l(1) by (simp add: jsonl_load_archive_bytes c(2) l(3) archive_values_append [OF assms(4)] rest)
qed

end
