(* ===== verification/Session_Examples.thy ===== *)
theory Session_Examples
  imports Session_Manager_Laws Session_File_Laws
begin

text \<open>
  An environment that satisfies \<open>env_ok\<close> (a table of four values and their texts, times in decimal), with
  the sessions and files on which the results about sessions are instantiated.
\<close>

definition ex_show_time :: "int \<Rightarrow> string" where
  "ex_show_time t = (if t < 0 then CHR ''-'' else CHR ''+'') # show_nat (nat \<bar>t\<bar>)"

definition ex_read_time :: "string \<Rightarrow> int option" where
  "ex_read_time s =
     (case s of [] \<Rightarrow> None
      | c # ds \<Rightarrow> Some (if c = CHR ''-'' then - int (digits_value ds) else int (digits_value ds)))"

lemma ex_read_show: "ex_read_time (ex_show_time t) = Some t"
  by (auto simp: ex_read_time_def ex_show_time_def)

definition ex_hello :: json where
  "ex_hello = JObject [(''role'', JString ''user''), (''content'', JString ''hello'')]"

definition ex_reply :: json where
  "ex_reply = JObject [(''role'', JString ''assistant''), (''content'', JString [CHR 0xC3, CHR 0xA9])]"

definition ex_session :: session where
  "ex_session = \<lparr>ss_key = ''cli:x'', ss_messages = [ex_hello, ex_reply], ss_created_at = 1, ss_updated_at = 2,
     ss_metadata = [(''title'', JString ''t'')], ss_last_consolidated = 1\<rparr>"

definition ex_taken :: session where
  "ex_taken = ex_session\<lparr>ss_messages := [ex_reply], ss_last_consolidated := 0\<rparr>"

definition ex_head :: json where
  "ex_head = JObject [(''_type'', JString ''metadata''), (''key'', JString ''cli:x''),
     (''created_at'', JString ''+1''), (''updated_at'', JString ''+2''),
     (''metadata'', JObject [(''title'', JString ''t'')]), (''last_consolidated'', JNumber (PosInt 0))]"

definition ex_fork_head :: json where
  "ex_fork_head = JObject [(''_type'', JString ''metadata''), (''key'', JString ''cli:y''),
     (''created_at'', JString ''+2''), (''updated_at'', JString ''+2''),
     (''metadata'', JObject []), (''last_consolidated'', JNumber (PosInt 0))]"

definition ex_texts :: "(json \<times> string) list" where
  "ex_texts = [(ex_hello, ''{h}''), (ex_reply, ''{'' @ [CHR 0xC3, CHR 0xA9] @ ''}''),
     (ex_head, ''{m}''), (ex_fork_head, ''{f}'')]"

definition ex_parse_text :: "string \<Rightarrow> json option" where
  "ex_parse_text line = map_option fst (List.find (\<lambda>(v, t). t = line) ex_texts)"

definition ex_json_env :: session_env where
  "ex_json_env = \<lparr>se_show = map_of ex_texts, se_parse = ex_parse_text, se_float_ok = (\<lambda>b. False),
     se_show_time = ex_show_time, se_rfc3339 = ex_read_time, se_naive_frac = (\<lambda>s. None), se_naive = (\<lambda>s. None)\<rparr>"

lemma ex_values_differ: "ex_hello \<noteq> ex_reply" "ex_hello \<noteq> ex_head" "ex_reply \<noteq> ex_head"
  "ex_hello \<noteq> ex_fork_head" "ex_reply \<noteq> ex_fork_head" "ex_head \<noteq> ex_fork_head"
  by (simp_all add: ex_hello_def ex_reply_def ex_head_def ex_fork_head_def)

lemma ex_lines:
  "list_all (\<lambda>(v, line). valid_utf8 line \<and> NL \<notin> set line \<and> CR \<notin> set line \<and> line \<noteq> [] \<and>
     ex_parse_text line = Some v \<and> list_all (\<lambda>k. ex_parse_text (take k line) = None) [0..<length line]) ex_texts"
  by code_simp

lemma ex_line_fine:
  assumes "(v, line) \<in> set ex_texts"
  shows "valid_utf8 line \<and> NL \<notin> set line \<and> CR \<notin> set line \<and> trim line = line \<and> line \<noteq> [] \<and>
    ex_parse_text line = Some v \<and> (\<forall>k < length line. ex_parse_text (take k line) = None)"
proof -
  have "trim line = line"
    using assms trim_braces [of "''h''"] trim_braces [of "''m''"] trim_braces [of "''f''"] trim_braces [of "[CHR 0xC3, CHR 0xA9]"]
    by (auto simp: ex_texts_def)
  then show ?thesis using bspec [OF ex_lines [unfolded list_all_iff] assms] by (auto simp: list_all_iff)
qed

lemma ex_env_ok: "env_ok ex_json_env"
  using ex_line_fine [OF map_of_SomeD] ex_read_show
  unfolding env_ok_def ex_json_env_def session_env.simps by metis

abbreviation ex_ops :: "file_store session_store" where
  "ex_ops \<equiv> jsonl_ops ex_json_env ''sessions''"

definition ex_disk :: "io_script list \<Rightarrow> file_store" where
  "ex_disk io = \<lparr>fs_files = [], fs_counters = [], fs_io = io\<rparr>"

definition ex_manager :: "file_store session_manager" where
  "ex_manager = with_store (ex_disk []) 0"

lemma ex_disk_ok: "archives_ok (ex_disk io)"
  by (simp add: archives_ok_def ex_disk_def file_bytes_def clean_archive_def ends_cleanly_def)

lemma ex_show [simp]:
  "se_show ex_json_env ex_hello = Some ''{h}''"
  "se_show ex_json_env ex_reply = Some (''{'' @ [CHR 0xC3, CHR 0xA9] @ ''}'')"
  "se_show ex_json_env ex_head = Some ''{m}''" "se_show ex_json_env ex_fork_head = Some ''{f}''"
  using ex_values_differ by (simp_all add: ex_json_env_def ex_texts_def)

lemma ex_taken_parts:
  "take_consolidated_prefix ex_session = ([ex_hello], ex_taken)" "consolidated_len ex_session = 1"
  "ss_key ex_session = ''cli:x''" "ss_messages ex_session = [ex_hello, ex_reply]"
  "ss_key ex_taken = ''cli:x''" "ss_messages ex_taken = [ex_reply]"
  by (simp_all add: ex_session_def ex_taken_def take_consolidated_prefix_def consolidated_len_def)

lemma ex_digits: "ex_show_time 1 = ''+1''" "ex_show_time 2 = ''+2''"
  by code_simp+

lemma ex_metadata_line: "metadata_line ex_json_env ex_taken = ex_head"
  by (simp add: metadata_line_def ex_taken_def ex_session_def ex_head_def ex_json_env_def ex_digits)

lemma ex_storable: "storable ex_json_env ex_taken" "archivable ex_json_env [ex_hello]"
  by (simp_all add: storable_def archivable_def ex_taken_def ex_session_def exact_all_def ex_hello_def ex_reply_def
      is_metadata_line_def get_str_def)

lemma ex_saves: "fst (mgr_save ex_ops ex_session ex_manager) = Inr ()"
  by (simp add: mgr_save_def ex_manager_def with_store_def ex_taken_parts jsonl_append_archive_def ex_disk_def
      pop_io_def io_ok_def Let_def jsonl_save_def ex_metadata_line write_atomic_def put_file_def)

definition ex_saved :: "file_store session_manager" where
  "ex_saved = snd (mgr_save ex_ops ex_session ex_manager)"

lemma ex_save_eq: "mgr_save ex_ops ex_session ex_manager = (Inr (), ex_saved)"
  using ex_saves by (simp add: ex_saved_def prod_eq_iff)

lemma ex_saved_eq: "ex_saved = \<lparr>mg_store = \<lparr>fs_files = [(archive_path ''cli:x'', ''{h}\<newline>''),
     (session_path ''cli:x'', ''{m}\<newline>{'' @ [CHR 0xC3, CHR 0xA9] @ ''}\<newline>'')], fs_counters = [], fs_io = []\<rparr>,
   mg_cache = [(''cli:x'', ex_taken)], mg_deleted = {}, mg_eviction_hours = 0\<rparr>"
  by (simp add: ex_saved_def mgr_save_def ex_manager_def with_store_def ex_taken_parts jsonl_append_archive_def
      ex_disk_def pop_io_def io_ok_def Let_def jsonl_save_def ex_metadata_line write_atomic_def put_file_def
      file_bytes_def NL_def)

definition ex_gone :: "file_store session_manager" where
  "ex_gone = snd (mgr_delete_session ex_ops ''cli:x'' ex_saved)"

lemma ex_delete: "mgr_delete_session ex_ops ''cli:x'' ex_saved = (Inr (), ex_gone)"
proof -
  have "fst (mgr_delete_session ex_ops ''cli:x'' ex_saved) = Inr ()"
    by (simp add: mgr_delete_session_def ex_saved_eq invalidate_def jsonl_delete_session_def
        remove_file_if_present_def jsonl_delete_archive_def file_delete_def pop_io_def io_ok_def Let_def
        split: option.splits)
  then show ?thesis by (simp add: ex_gone_def prod_eq_iff)
qed

lemma ex_cache_ok: "cache_keys_ok ex_saved"
  by (simp add: cache_keys_ok_def ex_saved_eq ex_taken_parts)

section \<open>A fork\<close>

lemma ex_source: "get_session_internal ex_ops 2 ''cli:x'' ex_saved = Some ex_taken"
  by (simp add: get_session_internal_def ex_saved_eq)

lemma ex_archive: "jsonl_load_archive ex_json_env (mg_store ex_saved) ''cli:x'' = [ex_hello]"
proof -
  have "archive_values ex_json_env (''{h}'' @ NL # []) = [ex_hello]"
    using archive_line [OF ex_env_ok ex_show(1), of "[]"] by (simp add: archive_values_def ex_hello_def)
  then show ?thesis by (simp add: jsonl_load_archive_def ex_saved_eq NL_def)
qed

lemma ex_public: "public_history_message ex_hello = ex_hello" "public_history_message ex_reply = ex_reply"
  by (simp_all add: public_history_message_def ex_hello_def ex_reply_def obj_remove_def position_of_def
      RUNTIME_CONTEXT_HISTORY_META_def upt_rec)

lemma ex_visible: "is_visible_user_message ex_hello" "\<not> is_visible_user_message ex_reply"
  by (simp_all add: is_visible_user_message_def ex_hello_def ex_reply_def get_str_def is_hidden_history_message_def
      has_message_value_def HIDDEN_HISTORY_KEY_def AUTOMATION_HISTORY_KEY_def)

definition ex_forked :: session where
  "ex_forked = (session_new 2 ''cli:y'')\<lparr>ss_messages := [ex_hello, ex_reply], ss_last_consolidated := 1\<rparr>"

lemma ex_fork_metadata:
  "fold AList.delete FORK_VOLATILE_METADATA_KEYS [(''title'', JString ''t'')] = []"
  by (simp add: FORK_VOLATILE_METADATA_KEYS_def)

lemma ex_fork_saves:
  "fst (mgr_save ex_ops ex_forked (ex_saved\<lparr>mg_store := st\<rparr>)) = Inr ()" if "fs_io st = []"
proof -
  have p: "take_consolidated_prefix ex_forked = ([ex_hello], ex_forked\<lparr>ss_messages := [ex_reply], ss_last_consolidated := 0\<rparr>)"
    "consolidated_len ex_forked = 1" "ss_key ex_forked = ''cli:y''" "ss_messages ex_forked = [ex_hello, ex_reply]"
    by (simp_all add: ex_forked_def take_consolidated_prefix_def consolidated_len_def session_new_def)
  have h: "metadata_line ex_json_env (ex_forked\<lparr>ss_messages := [ex_reply], ss_last_consolidated := 0\<rparr>) = ex_fork_head"
    by (simp add: metadata_line_def ex_forked_def session_new_def ex_fork_head_def ex_json_env_def ex_digits)
  show ?thesis using that
    by (simp add: mgr_save_def p ex_saved_eq jsonl_append_archive_def pop_io_def io_ok_def Let_def
        jsonl_save_def h write_atomic_def put_file_def)
qed

lemma ex_fork: "fst (fork_session_before_user_index ex_ops 2 ''cli:x'' ''cli:y'' 1 ex_saved) = Inr ex_forked"
proof -
  obtain r st where d: "file_delete (mg_store ex_saved) ''cli:y'' = (r, st)" by fastforce
  then have r: "r = Inr ()" "fs_io st = []"
    by (auto simp: file_delete_def pop_io_def io_ok_def ex_saved_eq Let_def split: option.splits)
  have c: "fork_copy 1 0 [ex_hello, ex_reply] = ([ex_hello, ex_reply], 1, False)"
    using ex_visible ex_public by simp
  have s: "ss_messages ex_taken = [ex_reply]" "ss_last_consolidated ex_taken = 0" "ss_metadata ex_taken = [(''title'', JString ''t'')]"
    by (simp_all add: ex_taken_def ex_session_def)
  obtain m' where sv: "mgr_save ex_ops ex_forked (ex_saved\<lparr>mg_store := st\<rparr>) = (Inr (), m')"
    using ex_fork_saves [OF r(2)] by (cases "mgr_save ex_ops ex_forked (ex_saved\<lparr>mg_store := st\<rparr>)") auto
  have n: "session_new 2 ''cli:y''\<lparr>ss_messages := [ex_hello, ex_reply], ss_metadata := [], ss_last_consolidated := Suc 0\<rparr> = ex_forked"
    "session_new 2 ''cli:y''\<lparr>ss_messages := [ex_hello, ex_reply], ss_metadata := [],
       ss_last_consolidated := length [ex_hello]\<rparr> = ex_forked"
    by (simp_all add: ex_forked_def session_new_def)
  show ?thesis
    using d r(1) sv c s ex_archive
    by (simp add: fork_session_before_user_index_def ex_source Let_def ex_fork_metadata n)
qed

section \<open>A torn archive\<close>

definition ex_torn_disk :: file_store where
  "ex_torn_disk = snd (jsonl_append_archive ex_json_env (ex_disk [io_ok\<lparr>io_line := Some 2\<rparr>]) ''cli:x'' [ex_reply])"

definition ex_after_torn :: file_store where
  "ex_after_torn = snd (jsonl_append_archive ex_json_env ex_torn_disk ''cli:x'' [ex_hello])"

lemma ex_torn_eq: "ex_torn_disk = \<lparr>fs_files = [(archive_path ''cli:x'', ''{'' @ [CHR 0xC3])], fs_counters = [], fs_io = []\<rparr>"
  by (simp add: ex_torn_disk_def jsonl_append_archive_def ex_disk_def pop_io_def io_ok_def Let_def put_file_def
      file_bytes_def numeral_2_eq_2)

lemma ex_torn_append: "jsonl_append_archive ex_json_env ex_torn_disk ''cli:x'' [ex_hello] = (Inr (), ex_after_torn)"
proof -
  have "fst (jsonl_append_archive ex_json_env ex_torn_disk ''cli:x'' [ex_hello]) = Inr ()"
    by (simp add: jsonl_append_archive_def ex_torn_eq pop_io_def io_ok_def Let_def)
  then show ?thesis by (simp add: ex_after_torn_def prod_eq_iff)
qed

end
