(* ===== verification/Context_Governance.thy ===== *)
theory Context_Governance
  imports Tool_Pipeline Session Checkpoint_Payload "HOL-Library.Sublist"
begin

text \<open>
  What the runner sends to the model, \<open>src/agent/runner.rs\<close>: before every request the history is
  repaired (\<open>backfill_missing_tool_results\<close>), old tool results are collapsed (\<open>microcompact\<close>), tool
  results are cut to their limit (\<open>apply_tool_result_budget\<close>) and old turns are dropped until the
  prompt fits the context window (\<open>snip_history\<close>).  The history itself is never changed by this.

  The token estimators of \<open>src/utils/helpers.rs\<close> are modelled over \<open>token_env\<close>: the length of a
  byte-pair encoding (\<open>None\<close> when the encoder cannot be loaded) and serde's printer.  Counts of
  tokens and messages are natural numbers.
\<close>

section \<open>Configuration of a run\<close>

text \<open>\<open>AgentRunSpec\<close>: what the tool pipeline reads of it is \<open>as_pipe\<close>.\<close>

record ('w, 'h) agent_run_spec =
  as_pipe :: "('w, 'h) run_spec"
  as_initial_messages :: "json list"
  as_max_iterations :: nat
  as_max_tokens :: "nat option"
  as_error_message :: "string option"
  as_max_iterations_message :: "string option"
  as_concurrent_tools :: bool
  as_context_window_tokens :: "nat option"
  as_context_block_limit :: "nat option"
  as_checkpoint_callback :: bool

definition SNIP_SAFETY_BUFFER :: nat where "SNIP_SAFETY_BUFFER = 1024"
definition MICROCOMPACT_KEEP_RECENT :: nat where "MICROCOMPACT_KEEP_RECENT = 10"
definition MICROCOMPACT_MIN_CHARS :: nat where "MICROCOMPACT_MIN_CHARS = 500"

definition COMPACTABLE_TOOLS :: "string list" where
  "COMPACTABLE_TOOLS = [''read_file'', ''exec'', ''grep'', ''glob'', ''web_search'', ''web_fetch'', ''list_dir'']"

definition BACKFILL_CONTENT :: string where
  "BACKFILL_CONTENT = ''[Tool result unavailable '' @ [CHR 0xE2, CHR 0x80, CHR 0x94] @
     '' call was interrupted or lost]''"

text \<open>\<open>message["content"] = value\<close> on an object, as every message with a role is.\<close>

fun with_content :: "json \<Rightarrow> json \<Rightarrow> json" where
  "with_content value (JObject m) = JObject (obj_insert ''content'' value m)"
| "with_content value message = message"

abbreviation is_tool :: "json \<Rightarrow> bool" where
  "is_tool \<equiv> has_role ''tool''"

section \<open>Repairing the history\<close>

definition call_function_name :: "json \<Rightarrow> string" where
  "call_function_name call =
     (case Option.bind (json_get call ''function'') (\<lambda>f. get_str f ''name'') of
        Some name \<Rightarrow> name | None \<Rightarrow> [])"

text \<open>The calls of one assistant message, each with its id and the name of its function.\<close>

definition message_calls :: "json \<Rightarrow> (string \<times> string) list" where
  "message_calls msg =
     (if role_of msg = ''assistant''
      then (case get_array msg ''tool_calls'' of
              None \<Rightarrow> []
            | Some calls \<Rightarrow>
                List.map_filter (\<lambda>call. map_option (\<lambda>id. (id, call_function_name call)) (get_str call ''id''))
                  calls)
      else [])"

definition declared_calls :: "nat \<Rightarrow> json list \<Rightarrow> (nat \<times> string \<times> string) list" where
  "declared_calls base messages =
     concat (map (\<lambda>(idx, msg). map (Pair idx) (message_calls msg)) (List.enumerate base messages))"

definition fulfilled_ids :: "json list \<Rightarrow> string set" where
  "fulfilled_ids messages = set (List.map_filter answered_id messages)"

definition synthetic_result :: "string \<times> string \<Rightarrow> json" where
  "synthetic_result call =
     (case call of (call_id, name) \<Rightarrow>
        JObject [(''role'', JString ''tool''), (''tool_call_id'', JString call_id),
                 (''name'', JString name), (''content'', JString BACKFILL_CONTENT)])"

text \<open>The \<open>while\<close> loop that steps over the results already there, and \<open>Vec::insert\<close>.\<close>

function skip_tools :: "json list \<Rightarrow> nat \<Rightarrow> nat" where
  "skip_tools messages i =
     (if i < length messages \<and> is_tool (messages ! i) then skip_tools messages (Suc i) else i)"
  by pat_completeness auto
termination by (relation "measure (\<lambda>(messages, i). length messages - i)") auto

declare skip_tools.simps [simp del]

definition insert_at :: "nat \<Rightarrow> 'a \<Rightarrow> 'a list \<Rightarrow> 'a list" where
  "insert_at i x xs = take i xs @ x # drop i xs"

definition insert_missing :: "json list \<Rightarrow> nat \<times> nat \<times> string \<times> string \<Rightarrow> json list" where
  "insert_missing updated m =
     (case m of (offset, assistant_idx, call) \<Rightarrow>
        insert_at (skip_tools updated (assistant_idx + 1 + offset)) (synthetic_result call) updated)"

definition backfill_missing_tool_results :: "json list \<Rightarrow> json list" where
  "backfill_missing_tool_results messages =
     (let fulfilled = fulfilled_ids messages;
          missing = filter (\<lambda>(_, call_id, _). call_id \<notin> fulfilled) (declared_calls 0 messages)
      in if missing = [] then messages
         else foldl insert_missing messages (List.enumerate 0 missing))"

section \<open>Collapsing old tool results\<close>

definition is_compactable :: "json \<Rightarrow> bool" where
  "is_compactable msg \<longleftrightarrow>
     is_tool msg \<and> (case get_str msg ''name'' of Some name \<Rightarrow> name \<in> set COMPACTABLE_TOOLS | None \<Rightarrow> False)"

definition compactable_indices :: "json list \<Rightarrow> nat list" where
  "compactable_indices messages =
     filter (\<lambda>idx. \<not> (case rposition is_user messages of Some start \<Rightarrow> idx > start | None \<Rightarrow> False) \<and>
                    is_compactable (messages ! idx))
       [0..<length messages]"

definition omitted_summary :: "json \<Rightarrow> string" where
  "omitted_summary msg =
     ''['' @ (case get_str msg ''name'' of Some name \<Rightarrow> name | None \<Rightarrow> ''tool'') @
     '' result omitted from context]''"

definition compact_result :: "json \<Rightarrow> json" where
  "compact_result msg =
     (if length (str_or_empty msg ''content'') < MICROCOMPACT_MIN_CHARS then msg
      else with_content (JString (omitted_summary msg)) msg)"

definition microcompact :: "json list \<Rightarrow> json list" where
  "microcompact messages =
     (let indices = compactable_indices messages
      in if length indices \<le> MICROCOMPACT_KEEP_RECENT then messages
         else foldl (\<lambda>updated idx. updated[idx := compact_result (messages ! idx)]) messages
                (take (length indices - MICROCOMPACT_KEEP_RECENT) indices))"

section \<open>The budget of a tool result\<close>

text \<open>One step of the loop over the messages; the files of persisted results are threaded through.\<close>

definition budget_message ::
    "pipe_env \<Rightarrow> ('w, 'h) run_spec \<Rightarrow> nat \<Rightarrow> json \<Rightarrow> (string \<times> string) list \<Rightarrow> json \<times> (string \<times> string) list" where
  "budget_message env spec idx message files =
     (if \<not> is_tool message then (message, files)
      else
        (let tool_call_id = (case get_str message ''tool_call_id'' of
                               Some s \<Rightarrow> s | None \<Rightarrow> ''tool_'' @ show_nat idx);
             tool_name = (case get_str message ''name'' of Some s \<Rightarrow> s | None \<Rightarrow> ''tool'');
             content = (case json_get message ''content'' of Some c \<Rightarrow> c | None \<Rightarrow> JNull)
         in case normalize_tool_result env spec tool_call_id tool_name content files of
              (normalized, files) \<Rightarrow>
                (if \<not> json_eq normalized content then with_content normalized message else message,
                 files)))"

fun budget_messages ::
    "pipe_env \<Rightarrow> ('w, 'h) run_spec \<Rightarrow> nat \<Rightarrow> json list \<Rightarrow> (string \<times> string) list \<Rightarrow>
     json list \<times> (string \<times> string) list" where
  "budget_messages env spec idx [] files = ([], files)"
| "budget_messages env spec idx (m # ms) files =
     (case budget_message env spec idx m files of (m, files) \<Rightarrow>
        (case budget_messages env spec (Suc idx) ms files of (ms, files) \<Rightarrow> (m # ms, files)))"

definition apply_tool_result_budget ::
    "pipe_env \<Rightarrow> ('w, 'h) run_spec \<Rightarrow> json list \<Rightarrow> (string \<times> string) list \<Rightarrow>
     json list \<times> (string \<times> string) list" where
  "apply_tool_result_budget env spec messages files = budget_messages env spec 0 messages files"

section \<open>Estimating tokens\<close>

record token_env =
  tk_encode :: "(string \<Rightarrow> nat) option"
  tk_show :: "json \<Rightarrow> string"

definition nonempty_field :: "json \<Rightarrow> string \<Rightarrow> string list" where
  "nonempty_field message k = (case get_str message k of Some v \<Rightarrow> if v \<noteq> [] then [v] else [] | None \<Rightarrow> [])"

definition block_text :: "json \<Rightarrow> string list" where
  "block_text block = nonempty_field block ''text''"

definition FRAMING :: nat where "FRAMING = 4"

definition message_payload :: "token_env \<Rightarrow> json \<Rightarrow> string" where
  "message_payload tk message =
     (let content =
            (case json_get message ''content'' of
               Some (JString s) \<Rightarrow> [s]
             | Some (JArray blocks) \<Rightarrow>
                 concat (map (\<lambda>block. if get_str block ''type'' = Some ''text'' then block_text block
                                      else [tk_show tk block]) blocks)
             | Some other \<Rightarrow> [tk_show tk other]
             | None \<Rightarrow> [])
      in join ''\<newline>''
           (content @ nonempty_field message ''name'' @ nonempty_field message ''tool_call_id'' @
            (case json_get message ''tool_calls'' of Some tc \<Rightarrow> [tk_show tk tc] | None \<Rightarrow> []) @
            nonempty_field message ''reasoning_content''))"

definition estimate_message_tokens :: "token_env \<Rightarrow> json \<Rightarrow> nat" where
  "estimate_message_tokens tk message =
     (let payload = message_payload tk message
      in if payload = [] then 4
         else (case tk_encode tk of
                 Some encode \<Rightarrow> encode payload + FRAMING
               | None \<Rightarrow> max (length payload div 4 + FRAMING) FRAMING))"

definition prompt_parts :: "token_env \<Rightarrow> json \<Rightarrow> string list" where
  "prompt_parts tk msg =
     (case json_get msg ''content'' of
        Some (JString s) \<Rightarrow> [s]
      | Some (JArray blocks) \<Rightarrow>
          concat (map (\<lambda>block. if get_str block ''type'' = Some ''text'' then block_text block else [])
            blocks)
      | _ \<Rightarrow> []) @
     (case json_get msg ''tool_calls'' of Some tc \<Rightarrow> [tk_show tk tc] | None \<Rightarrow> []) @
     nonempty_field msg ''reasoning_content'' @ nonempty_field msg ''name'' @
     nonempty_field msg ''tool_call_id''"

definition estimate_prompt_tokens :: "token_env \<Rightarrow> json list \<Rightarrow> json list option \<Rightarrow> nat" where
  "estimate_prompt_tokens tk messages tools =
     (let parts = concat (map (prompt_parts tk) messages) @
            (case tools of Some tools \<Rightarrow> [tk_show tk (JArray tools)] | None \<Rightarrow> []);
          joined = join ''\<newline>'' parts;
          overhead = length messages * 4
      in case tk_encode tk of
           Some encode \<Rightarrow> encode joined + overhead
         | None \<Rightarrow> length joined div 4 + overhead)"

definition total_tokens :: "token_env \<Rightarrow> json list \<Rightarrow> nat" where
  "total_tokens tk messages = sum_list (map (estimate_message_tokens tk) messages)"

section \<open>Fitting the context window\<close>

definition assistant_has_tool_calls :: "json \<Rightarrow> bool" where
  "assistant_has_tool_calls message \<longleftrightarrow>
     (case get_array message ''tool_calls'' of Some calls \<Rightarrow> calls \<noteq> [] | None \<Rightarrow> False)"

definition assistant_has_text :: "json \<Rightarrow> bool" where
  "assistant_has_text message \<longleftrightarrow>
     (case json_get message ''content'' of
        Some (JString s) \<Rightarrow> s \<noteq> []
      | Some (JArray blocks) \<Rightarrow> blocks \<noteq> []
      | _ \<Rightarrow> False)"

definition is_text_reply :: "json \<Rightarrow> bool" where
  "is_text_reply m \<longleftrightarrow> has_role ''assistant'' m \<and> assistant_has_text m \<and> \<not> assistant_has_tool_calls m"

definition compact_prior_turn :: "json list \<Rightarrow> json list" where
  "compact_prior_turn turn =
     (case turn of [] \<Rightarrow> [] | first # _ \<Rightarrow> if is_user first then [first] else []) @
     (case List.find is_text_reply (rev turn) of Some reply \<Rightarrow> [reply] | None \<Rightarrow> [])"

text \<open>
  The starts of the turns in the messages before the current one; leading messages before the first
  user message are a turn of their own.
\<close>

definition turn_starts :: "json list \<Rightarrow> nat list" where
  "turn_starts messages =
     (let user_starts = filter (\<lambda>i. is_user (messages ! i)) [0..<length messages]
      in if (case user_starts of [] \<Rightarrow> None | i # _ \<Rightarrow> Some i) \<noteq> Some 0 then 0 # user_starts
         else user_starts)"

text \<open>One round of the loop over the turns, newest first: the state is what is selected and its tokens.\<close>

definition select_turn ::
    "token_env \<Rightarrow> nat \<Rightarrow> json list \<Rightarrow> json list \<times> nat \<Rightarrow> json list \<times> nat" where
  "select_turn tk remaining_budget turn s =
     (case s of (selected, kept_tokens) \<Rightarrow>
        if turn = [] then s
        else if kept_tokens + total_tokens tk turn \<le> remaining_budget
        then (turn @ selected, kept_tokens + total_tokens tk turn)
        else
          (let compact = compact_prior_turn turn
           in if compact = [] then s
              else if kept_tokens + total_tokens tk compact \<le> remaining_budget
              then (compact @ selected, kept_tokens + total_tokens tk compact)
              else s))"

definition select_prior_turns_for_budget ::
    "token_env \<Rightarrow> json list \<Rightarrow> nat \<Rightarrow> nat \<Rightarrow> json list \<times> nat" where
  "select_prior_turns_for_budget tk messages remaining_budget kept_tokens =
     (if messages = [] then ([], kept_tokens)
      else
        (let starts = turn_starts messages;
             turn = (\<lambda>k. slice (starts ! k)
                       (if k + 1 < length starts then starts ! (k + 1) else length messages) messages)
         in foldl (\<lambda>s k. select_turn tk remaining_budget (turn k) s) ([], kept_tokens)
              (rev [0..<length starts])))"

text \<open>Without a user message: newest first, skipping what does not fit.\<close>

definition keep_greedily :: "token_env \<Rightarrow> nat \<Rightarrow> json list \<Rightarrow> json list" where
  "keep_greedily tk remaining_budget messages =
     rev (fst (foldl
       (\<lambda>(kept, kept_tokens) message.
          let msg_tokens = estimate_message_tokens tk message
          in if kept \<noteq> [] \<and> kept_tokens + msg_tokens > remaining_budget then (kept, kept_tokens)
             else (kept @ [message], kept_tokens + msg_tokens))
       ([], 0) (rev messages)))"

definition trim_to_legal :: "json list \<Rightarrow> json list" where
  "trim_to_legal kept = drop (find_legal_message_start kept) kept"

definition snip_budget :: "('w, 'h) agent_run_spec \<Rightarrow> nat \<Rightarrow> nat" where
  "snip_budget spec context_window_tokens =
     (case as_context_block_limit spec of
        Some n \<Rightarrow> n
      | None \<Rightarrow>
          context_window_tokens - (case as_max_tokens spec of Some n \<Rightarrow> n | None \<Rightarrow> 4096 * 2) -
          SNIP_SAFETY_BUFFER)"

definition offered_tools :: "('w, 'h) agent_run_spec \<Rightarrow> json list option" where
  "offered_tools spec =
     (let tool_defs = get_definitions (sp_tools (as_pipe spec))
      in if tool_defs = [] then None else Some tool_defs)"

definition tool_defs_tokens :: "token_env \<Rightarrow> json list option \<Rightarrow> nat" where
  "tool_defs_tokens tk tools =
     (case tools of Some _ \<Rightarrow> estimate_prompt_tokens tk [] tools | None \<Rightarrow> 0)"

definition snip_remaining :: "token_env \<Rightarrow> json list option \<Rightarrow> nat \<Rightarrow> json list \<Rightarrow> nat" where
  "snip_remaining tk tools budget messages =
     max (budget - total_tokens tk (filter (has_role ''system'') messages) - tool_defs_tokens tk tools) 128"

text \<open>The messages kept besides the system messages, before and after the checks of legality.\<close>

definition snip_select :: "token_env \<Rightarrow> nat \<Rightarrow> json list \<Rightarrow> json list" where
  "snip_select tk remaining_budget non_system =
     (case rposition is_user non_system of
        Some idx \<Rightarrow>
          (let mandatory = drop idx non_system
           in fst (select_prior_turns_for_budget tk (take idx non_system) remaining_budget
                     (total_tokens tk mandatory)) @ mandatory)
      | None \<Rightarrow> keep_greedily tk remaining_budget non_system)"

definition snip_kept :: "token_env \<Rightarrow> nat \<Rightarrow> json list \<Rightarrow> json list" where
  "snip_kept tk remaining_budget non_system =
     (let kept = trim_to_legal (snip_select tk remaining_budget non_system)
      in if kept = []
         then trim_to_legal (drop (length non_system - min (length non_system) 4) non_system)
         else kept)"

definition snip_history ::
    "token_env \<Rightarrow> ('w, 'h) agent_run_spec \<Rightarrow> json list \<Rightarrow> json list" where
  "snip_history tk spec messages =
     (case as_context_window_tokens spec of
        None \<Rightarrow> messages
      | Some context_window_tokens \<Rightarrow>
          (let budget = snip_budget spec context_window_tokens;
               tools = offered_tools spec;
               system_messages = filter (has_role ''system'') messages;
               non_system = filter (\<lambda>m. \<not> has_role ''system'' m) messages
           in if messages = [] \<or> budget = 0 \<or> estimate_prompt_tokens tk messages tools \<le> budget \<or>
                 non_system = []
              then messages
              else system_messages @ snip_kept tk (snip_remaining tk tools budget messages) non_system))"

section \<open>The prompt of one iteration\<close>

definition messages_for_model ::
    "pipe_env \<Rightarrow> token_env \<Rightarrow> ('w, 'h) agent_run_spec \<Rightarrow> json list \<Rightarrow> (string \<times> string) list \<Rightarrow>
     json list \<times> (string \<times> string) list" where
  "messages_for_model env tk spec messages files =
     (case apply_tool_result_budget env (as_pipe spec)
             (microcompact (backfill_missing_tool_results messages)) files of
        (budgeted, files) \<Rightarrow> (snip_history tk spec budgeted, files))"

end
