(* ===== verification/Llm_Types.thy ===== *)
theory Llm_Types
  imports Tool_Pipeline
begin

text \<open>
  What a model provider returns, \<open>src/providers/base.rs\<close> (\<open>ToolCallRequest\<close>, \<open>LLMUsage\<close>,
  \<open>LLMResponse\<close>), and the messages built from it (\<open>build_assistant_message\<close> of
  \<open>src/utils/helpers.rs\<close>, the recovery prompts of \<open>src/utils/runtime.rs\<close>).

  A tool call carries, besides what the tool pipeline reads (\<open>tool_call_request\<close>), fields that only
  travel back to the provider.  Token counts are 32-bit and saturate; costs are the bits of an
  \<open>f64\<close>, whose addition is the argument \<open>fadd\<close>.
\<close>

section \<open>Tool calls\<close>

record llm_tool_call = tool_call_request +
  lc_extra_content :: "json_object option"
  lc_provider_fields :: "json_object option"
  lc_function_fields :: "json_object option"

definition optional_field :: "string \<Rightarrow> json_object option \<Rightarrow> json_object" where
  "optional_field k entries = (case entries of Some m \<Rightarrow> [(k, JObject m)] | None \<Rightarrow> [])"

text \<open>\<open>pretty\<close> is \<open>serde_json::to_string_pretty\<close>, which does not fail on a map of values.\<close>

definition to_openai_tool_call :: "(json \<Rightarrow> string) \<Rightarrow> llm_tool_call \<Rightarrow> json" where
  "to_openai_tool_call pretty call =
     JObject
       ([(''id'', JString (tc_id call)), (''type'', JString ''function''),
         (''function'', JObject
            ([(''name'', JString (tc_name call)),
              (''arguments'', JString (pretty (JObject (tc_arguments call))))] @
             optional_field ''provider_specific_fields'' (lc_function_fields call)))] @
        optional_field ''extra_content'' (lc_extra_content call) @
        optional_field ''provider_specific_fields'' (lc_provider_fields call))"

section \<open>Usage\<close>

record llm_usage =
  us_input_tokens :: "u32 option"
  us_output_tokens :: "u32 option"
  us_cache_creation :: "u32 option"
  us_cache_read :: "u32 option"
  us_reasoning :: "u32 option"
  us_input_cost :: "u64 option"
  us_output_cost :: "u64 option"

definition usage_new :: llm_usage where
  "usage_new = \<lparr>us_input_tokens = None, us_output_tokens = None, us_cache_creation = None,
     us_cache_read = None, us_reasoning = None, us_input_cost = None, us_output_cost = None\<rparr>"

text \<open>\<open>u32::saturating_add\<close>.\<close>

definition saturating_add :: "u32 \<Rightarrow> u32 \<Rightarrow> u32" where
  "saturating_add a b = (if a + b < a then - 1 else a + b)"

fun or_zero :: "('a :: zero) option \<Rightarrow> 'a" where
  "or_zero None = 0"
| "or_zero (Some x) = x"

definition prompt_tokens :: "llm_usage \<Rightarrow> u32 option" where
  "prompt_tokens u =
     map_option (\<lambda>input. saturating_add (saturating_add input (or_zero (us_cache_creation u)))
       (or_zero (us_cache_read u))) (us_input_tokens u)"

definition usage_total_tokens :: "llm_usage \<Rightarrow> u32 option" where
  "usage_total_tokens u =
     Option.bind (prompt_tokens u) (\<lambda>prompt.
       map_option (\<lambda>output. saturating_add prompt output) (us_output_tokens u))"

fun combine_reported :: "('a :: zero \<Rightarrow> 'a \<Rightarrow> 'a) \<Rightarrow> 'a option \<Rightarrow> 'a option \<Rightarrow> 'a option" where
  "combine_reported f None None = None"
| "combine_reported f a b = Some (f (or_zero a) (or_zero b))"

definition total_cost :: "(u64 \<Rightarrow> u64 \<Rightarrow> u64) \<Rightarrow> llm_usage \<Rightarrow> u64 option" where
  "total_cost fadd u = combine_reported fadd (us_input_cost u) (us_output_cost u)"

definition add_usage :: "u32 option \<Rightarrow> u32 option \<Rightarrow> u32 option" where
  "add_usage a b = combine_reported saturating_add a b"

definition add_cost :: "(u64 \<Rightarrow> u64 \<Rightarrow> u64) \<Rightarrow> u64 option \<Rightarrow> u64 option \<Rightarrow> u64 option" where
  "add_cost fadd a b = combine_reported fadd a b"

definition usage_add :: "(u64 \<Rightarrow> u64 \<Rightarrow> u64) \<Rightarrow> llm_usage \<Rightarrow> llm_usage \<Rightarrow> llm_usage" where
  "usage_add fadd u other =
     \<lparr>us_input_tokens = add_usage (us_input_tokens u) (us_input_tokens other),
      us_output_tokens = add_usage (us_output_tokens u) (us_output_tokens other),
      us_cache_creation = add_usage (us_cache_creation u) (us_cache_creation other),
      us_cache_read = add_usage (us_cache_read u) (us_cache_read other),
      us_reasoning = add_usage (us_reasoning u) (us_reasoning other),
      us_input_cost = add_cost fadd (us_input_cost u) (us_input_cost other),
      us_output_cost = add_cost fadd (us_output_cost u) (us_output_cost other)\<rparr>"

section \<open>Responses\<close>

record llm_response =
  lr_content :: "string option"
  lr_tool_calls :: "llm_tool_call list"
  lr_finish_reason :: string
  lr_usage :: llm_usage
  lr_reasoning_content :: "string option"
  lr_thinking_blocks :: "json_object list option"

definition response_new :: llm_response where
  "response_new = \<lparr>lr_content = None, lr_tool_calls = [], lr_finish_reason = ''stop'',
     lr_usage = usage_new, lr_reasoning_content = None, lr_thinking_blocks = None\<rparr>"

definition UNSUPPORTED_IMAGE_INPUT_MARKERS :: "string list" where
  "UNSUPPORTED_IMAGE_INPUT_MARKERS =
     [''no endpoints found that support image'',
      ''does not support image'',
      ''doesn'' @ [CHR 0x27] @ ''t support image'',
      ''image input is not supported'',
      ''images are not supported'',
      ''does not support vision'',
      ''doesn'' @ [CHR 0x27] @ ''t support vision'',
      ''vision is not supported'',
      ''support image input'']"

definition is_unsupported_image_input_error :: "(string \<Rightarrow> string) \<Rightarrow> string option \<Rightarrow> bool" where
  "is_unsupported_image_input_error lower content \<longleftrightarrow>
     (let err = lower (case content of Some s \<Rightarrow> s | None \<Rightarrow> [])
      in \<exists>marker \<in> set UNSUPPORTED_IMAGE_INPUT_MARKERS. sublist marker err)"

section \<open>Messages\<close>

definition json_opt_str :: "string option \<Rightarrow> json" where
  "json_opt_str s = (case s of Some s \<Rightarrow> JString s | None \<Rightarrow> JNull)"

definition build_assistant_message ::
    "string option \<Rightarrow> json list option \<Rightarrow> string option \<Rightarrow> json list option \<Rightarrow> json" where
  "build_assistant_message content tool_calls reasoning_content thinking_blocks =
     (let msg = [(''role'', JString ''assistant''), (''content'', json_opt_str content)];
          msg = (case tool_calls of Some tc \<Rightarrow> obj_insert ''tool_calls'' (JArray tc) msg | None \<Rightarrow> msg);
          msg = (if reasoning_content \<noteq> None \<or> thinking_blocks \<noteq> None
                 then obj_insert ''reasoning_content''
                        (JString (case reasoning_content of Some s \<Rightarrow> s | None \<Rightarrow> [])) msg
                 else msg);
          msg = (case thinking_blocks of Some tb \<Rightarrow> obj_insert ''thinking_blocks'' (JArray tb) msg | None \<Rightarrow> msg)
      in JObject msg)"

definition thinking_blocks_as_values :: "json_object list option \<Rightarrow> json list option" where
  "thinking_blocks_as_values blocks = map_option (map JObject) blocks"

definition EMPTY_FINAL_RESPONSE_MESSAGE :: string where
  "EMPTY_FINAL_RESPONSE_MESSAGE =
     ''I completed the tool steps but couldn'' @ [CHR 0x27] @ ''t produce a final answer. '' @
     ''Please try again or narrow the task.''"

definition FINALIZATION_RETRY_PROMPT :: string where
  "FINALIZATION_RETRY_PROMPT =
     ''Please provide your response to the user based on the conversation above.''"

definition LENGTH_RECOVERY_PROMPT :: string where
  "LENGTH_RECOVERY_PROMPT = ''Output limit reached. Continue exactly where you left off '' @
     [CHR 0xE2, CHR 0x80, CHR 0x94] @
     '' no recap, no apology. Break remaining work into smaller steps if needed.''"

definition TRUNCATED_TOOL_CALL_RECOVERY_PROMPT :: string where
  "TRUNCATED_TOOL_CALL_RECOVERY_PROMPT =
     ''Your previous tool call was cut off because the output token limit was reached. '' @
     ''The tool was NOT executed '' @ [CHR 0xE2, CHR 0x80, CHR 0x94] @ '' its arguments were incomplete. '' @
     ''Do not repeat the same large tool call. '' @
     ''For write_file: write a smaller initial section first, then use edit_file to append '' @
     ''remaining content in additional chunks.''"

definition user_prompt :: "string \<Rightarrow> json" where
  "user_prompt content = JObject [(''role'', JString ''user''), (''content'', JString content)]"

definition build_finalization_retry_message :: json where
  "build_finalization_retry_message = user_prompt FINALIZATION_RETRY_PROMPT"

definition build_length_recovery_message :: json where
  "build_length_recovery_message = user_prompt LENGTH_RECOVERY_PROMPT"

definition build_truncated_tool_call_recovery_message :: json where
  "build_truncated_tool_call_recovery_message = user_prompt TRUNCATED_TOOL_CALL_RECOVERY_PROMPT"

end
