(* ===== verification/Agent_Runner.thy ===== *)
theory Agent_Runner
  imports Context_Governance Llm_Types
begin

text \<open>
  \<open>AgentRunner::run\<close> of \<open>src/agent/runner.rs\<close>: the loop that asks the model, runs the tool calls
  it requests, appends the results and asks again until the model answers, an error ends the run
  or the iterations are used up.

  The provider and the hook of the run are the operations of their traits on a state of their own:
  a streamed request returns the response with the callbacks it made, in order.  The state of the
  tool pipeline (world, hook, journal, guards, result files) is threaded through; the requests made
  and the checkpoints handed to the metadata callback are recorded in order.  A concurrent batch
  completes its calls one after another in the order \<open>re_schedule\<close> picks (positions of the batch);
  interleavings inside two calls are not modelled.  A panic unwinds the run.

  The environment of an iteration (clock, durations) is \<open>re_pipe iteration\<close>.  Temperature and
  reasoning effort, which are only passed on, and logging are left out; the registry of a run is
  fixed (a tool that loads deferred tools while the run goes on is not modelled).
\<close>

section \<open>What a run works with\<close>

definition DEFAULT_ERROR_MESSAGE :: string where
  "DEFAULT_ERROR_MESSAGE = ''Sorry, I encountered an error calling the AI model.''"

definition UNSUPPORTED_IMAGE_INPUT_MESSAGE :: string where
  "UNSUPPORTED_IMAGE_INPUT_MESSAGE = ''The selected model does not support image input. Switch to a vision-capable model, or send the message without an image.''"

definition MAX_EMPTY_RETRIES :: nat where "MAX_EMPTY_RETRIES = 2"
definition MAX_LENGTH_RECOVERIES :: nat where "MAX_LENGTH_RECOVERIES = 3"

record run_env =
  re_pipe :: "nat \<Rightarrow> pipe_env"
  re_tokens :: token_env
  re_schedule :: "nat \<Rightarrow> tool_call_request list \<Rightarrow> nat list"
  re_fadd :: "u64 \<Rightarrow> u64 \<Rightarrow> u64"

record provider_request =
  pr_messages :: "json list"
  pr_tools :: "json list option"
  pr_max_tokens :: "nat option"

datatype stream_event = ContentDelta string | ReasoningDelta string | ReasoningEnd | OtherProgress string

record 'p llm_provider =
  pv_chat :: "provider_request \<Rightarrow> 'p \<Rightarrow> llm_response \<times> 'p"
  pv_chat_stream :: "provider_request \<Rightarrow> 'p \<Rightarrow> (llm_response \<times> stream_event list) \<times> 'p"

record hook_context =
  hc_iteration :: nat
  hc_messages :: "json list"
  hc_response :: "llm_response option"
  hc_usage :: llm_usage
  hc_tool_calls :: "llm_tool_call list"
  hc_tool_results :: "json list"
  hc_tool_events :: "(string \<times> string) list list"
  hc_final_content :: "string option"
  hc_stop_reason :: "string option"
  hc_error :: "string option"
  hc_channel :: "string option"
  hc_chat_id :: "string option"

definition hook_context_new :: "nat \<Rightarrow> json list \<Rightarrow> hook_context" where
  "hook_context_new iteration messages =
     \<lparr>hc_iteration = iteration, hc_messages = messages, hc_response = None, hc_usage = usage_new,
      hc_tool_calls = [], hc_tool_results = [], hc_tool_events = [], hc_final_content = None,
      hc_stop_reason = None, hc_error = None, hc_channel = None, hc_chat_id = None\<rparr>"

datatype hook_event =
  BeforeIteration | OnStream string | OnStreamEnd bool | OnReasoningDelta string | OnReasoningEnd
  | OnToolCalls | AfterIteration

text \<open>The methods of \<open>AgentHook\<close> the loop calls itself; \<open>NoopHook\<close> is their defaults.\<close>

record 'h run_hook =
  rh_wants_streaming :: "'h \<Rightarrow> bool"
  rh_event :: "hook_event \<Rightarrow> hook_context \<Rightarrow> 'h \<Rightarrow> hook_context \<times> 'h"
  rh_finalize_content :: "hook_context \<Rightarrow> string option \<Rightarrow> 'h \<Rightarrow> string option \<times> 'h"

definition noop_hook :: "'h run_hook" where
  "noop_hook = \<lparr>rh_wants_streaming = (\<lambda>_. False), rh_event = (\<lambda>_ ctx h. (ctx, h)),
     rh_finalize_content = (\<lambda>_ content h. (content, h))\<rparr>"

text \<open>The local variables of \<open>run\<close> with the state of what it calls.\<close>

record ('w, 'h, 'st, 'p) run_state =
  rn_pipe :: "('w, 'h, 'st) pipe_state"
  rn_provider :: 'p
  rn_messages :: "json list"
  rn_usage :: llm_usage
  rn_tool_events :: "(string \<times> string) list list"
  rn_tools_used :: "string list"
  rn_empty_retries :: nat
  rn_length_recoveries :: nat
  rn_requests :: "provider_request list"
  rn_checkpoints :: "json list"

record agent_run_result =
  rr_final_content :: "string option"
  rr_messages :: "json list"
  rr_tools_used :: "string list"
  rr_usage :: llm_usage
  rr_stop_reason :: string
  rr_error :: "string option"
  rr_tool_events :: "(string \<times> string) list list"

text \<open>How an iteration ends: \<open>continue\<close>, \<open>break 'outer\<close> with what was set, or a panic.\<close>

record run_finish =
  rf_stop_reason :: string
  rf_final_content :: "string option"
  rf_error :: "string option"

datatype ('w, 'h, 'st, 'p) iteration_end =
  ContinueLoop "('w, 'h, 'st, 'p) run_state"
  | BreakLoop run_finish "('w, 'h, 'st, 'p) run_state"
  | Unwinds "('w, 'h, 'st, 'p) run_state"

definition fire ::
    "'h run_hook \<Rightarrow> hook_event \<Rightarrow> hook_context \<times> ('w, 'h, 'st, 'p) run_state \<Rightarrow>
     hook_context \<times> ('w, 'h, 'st, 'p) run_state" where
  "fire hook event s =
     (case s of (ctx, st) \<Rightarrow>
        (case rh_event hook event ctx (ps_hook (rn_pipe st)) of
           (ctx, h) \<Rightarrow> (ctx, st\<lparr>rn_pipe := (rn_pipe st)\<lparr>ps_hook := h\<rparr>\<rparr>)))"

definition finalize ::
    "'h run_hook \<Rightarrow> hook_context \<Rightarrow> string option \<Rightarrow> ('w, 'h, 'st, 'p) run_state \<Rightarrow>
     string option \<times> ('w, 'h, 'st, 'p) run_state" where
  "finalize hook ctx content st =
     (case rh_finalize_content hook ctx content (ps_hook (rn_pipe st)) of
        (content, h) \<Rightarrow> (content, st\<lparr>rn_pipe := (rn_pipe st)\<lparr>ps_hook := h\<rparr>\<rparr>))"

definition push_message :: "json \<Rightarrow> ('w, 'h, 'st, 'p) run_state \<Rightarrow> ('w, 'h, 'st, 'p) run_state" where
  "push_message m st = st\<lparr>rn_messages := rn_messages st @ [m]\<rparr>"

section \<open>Asking the model\<close>

text \<open>Every callback of a streamed request gets a copy of the context.\<close>

fun stream_callback :: "stream_event \<Rightarrow> hook_event option" where
  "stream_callback (ContentDelta delta) = Some (OnStream delta)"
| "stream_callback (ReasoningDelta content) = Some (OnReasoningDelta content)"
| "stream_callback ReasoningEnd = Some OnReasoningEnd"
| "stream_callback (OtherProgress content) = None"

definition request_model ::
    "'p llm_provider \<Rightarrow> 'h run_hook \<Rightarrow> ('w, 'h) agent_run_spec \<Rightarrow> json list \<Rightarrow> hook_context \<Rightarrow>
     ('w, 'h, 'st, 'p) run_state \<Rightarrow> llm_response \<times> ('w, 'h, 'st, 'p) run_state" where
  "request_model provider hook spec messages ctx st =
     (let request = \<lparr>pr_messages = messages, pr_tools = offered_tools spec, pr_max_tokens = as_max_tokens spec\<rparr>;
          st = st\<lparr>rn_requests := rn_requests st @ [request]\<rparr>
      in if rh_wants_streaming hook (ps_hook (rn_pipe st))
         then (case pv_chat_stream provider request (rn_provider st) of
                 ((response, callbacks), p) \<Rightarrow>
                   (response,
                    foldl (\<lambda>st event. snd (fire hook event (ctx, st))) (st\<lparr>rn_provider := p\<rparr>)
                      (List.map_filter stream_callback callbacks)))
         else (case pv_chat provider request (rn_provider st) of
                 (response, p) \<Rightarrow> (response, st\<lparr>rn_provider := p\<rparr>)))"

definition request_finalization_retry ::
    "'p llm_provider \<Rightarrow> ('w, 'h) agent_run_spec \<Rightarrow> json list \<Rightarrow> ('w, 'h, 'st, 'p) run_state \<Rightarrow>
     llm_response \<times> ('w, 'h, 'st, 'p) run_state" where
  "request_finalization_retry provider spec messages st =
     (let request = \<lparr>pr_messages = messages @ [build_finalization_retry_message], pr_tools = None,
                     pr_max_tokens = as_max_tokens spec\<rparr>
      in case pv_chat provider request (rn_provider st) of
           (response, p) \<Rightarrow>
             (response, st\<lparr>rn_provider := p, rn_requests := rn_requests st @ [request]\<rparr>))"

definition accumulate_usage ::
    "run_env \<Rightarrow> llm_usage \<Rightarrow> ('w, 'h, 'st, 'p) run_state \<Rightarrow> ('w, 'h, 'st, 'p) run_state" where
  "accumulate_usage renv addition st = st\<lparr>rn_usage := usage_add (re_fadd renv) (rn_usage st) addition\<rparr>"

section \<open>Checkpoints\<close>

definition turn_start_index :: "json list \<Rightarrow> nat" where
  "turn_start_index messages = (case rposition is_user messages of Some i \<Rightarrow> i | None \<Rightarrow> 0)"

definition emit_checkpoint ::
    "('w, 'h) agent_run_spec \<Rightarrow> json \<Rightarrow> ('w, 'h, 'st, 'p) run_state \<Rightarrow> ('w, 'h, 'st, 'p) run_state" where
  "emit_checkpoint spec payload st =
     (if as_checkpoint_callback spec then st\<lparr>rn_checkpoints := rn_checkpoints st @ [payload]\<rparr> else st)"

definition emit_step_checkpoint ::
    "'st journal_store \<Rightarrow> pipe_env \<Rightarrow> ('w, 'h) agent_run_spec \<Rightarrow> step_kind \<Rightarrow> string \<Rightarrow> nat \<Rightarrow>
     ('w, 'h, 'st, 'p) run_state \<Rightarrow> ('w, 'h, 'st, 'p) run_state" where
  "emit_step_checkpoint ops env spec step kind turn_start st =
     (let messages = rn_messages st;
          payload = build_payload kind (drop (min turn_start (length messages)) messages)
      in case sp_journal (as_pipe spec) of
           None \<Rightarrow> emit_checkpoint spec payload st
         | Some journal \<Rightarrow>
             (case turn_append ops (pe_now env) journal
                     (StepCheckpoint (tj_turn_id journal) step payload) False (ps_journal (rn_pipe st)) of
                (written, w) \<Rightarrow>
                  (let st = st\<lparr>rn_pipe := (rn_pipe st)\<lparr>ps_journal := w\<rparr>\<rparr>
                   in if written then st else emit_checkpoint spec payload st)))"

section \<open>Running the tool calls\<close>

definition can_batch :: "('w, 'h) run_spec \<Rightarrow> tool_call_request \<Rightarrow> bool" where
  "can_batch spec call =
     (case registry_get (sp_tools spec) (tc_name call) of Some t \<Rightarrow> concurrency_safe t | None \<Rightarrow> False)"

text \<open>The loop state: the batches so far and the batch being collected.\<close>

definition partition_step ::
    "('w, 'h) run_spec \<Rightarrow> tool_call_request list list \<times> tool_call_request list \<Rightarrow> tool_call_request \<Rightarrow>
     tool_call_request list list \<times> tool_call_request list" where
  "partition_step spec s call =
     (case s of (batches, current) \<Rightarrow>
        if can_batch spec call then (batches, current @ [call])
        else ((if current \<noteq> [] then batches @ [current] else batches) @ [[call]], []))"

definition partition_tool_batches ::
    "('w, 'h) agent_run_spec \<Rightarrow> tool_call_request list \<Rightarrow> tool_call_request list list" where
  "partition_tool_batches spec calls =
     (if \<not> as_concurrent_tools spec then map (\<lambda>call. [call]) calls
      else (case foldl (partition_step (as_pipe spec)) ([], []) calls of
              (batches, current) \<Rightarrow> if current \<noteq> [] then batches @ [current] else batches))"

text \<open>The calls of a batch are prepared one after another, in order.\<close>

fun prepare_batch ::
    "'st journal_store \<Rightarrow> pipe_env \<Rightarrow> ('w, 'h) run_spec \<Rightarrow> tool_call_request list \<Rightarrow>
     ('w, 'h, 'st) pipe_state \<Rightarrow>
     (tool_outcome + 'w prepared_call) list returns \<times> ('w, 'h, 'st) pipe_state" where
  "prepare_batch ops env spec [] ps = (Returns [], ps)"
| "prepare_batch ops env spec (call # calls) ps =
     (case prepare_tool_call ops env spec call ps of
        (Panics, ps) \<Rightarrow> (Panics, ps)
      | (Returns prepared, ps) \<Rightarrow>
          (case prepare_batch ops env spec calls ps of
             (Panics, ps) \<Rightarrow> (Panics, ps)
           | (Returns rest, ps) \<Rightarrow> (Returns (prepared # rest), ps)))"

text \<open>
  The outcomes stand at the positions of their calls, whatever order they are completed in.  A
  schedule that does not name every position once is taken as the order of the calls.
\<close>

definition completion_order :: "nat list \<Rightarrow> nat \<Rightarrow> nat list" where
  "completion_order schedule n = (if sort schedule = [0..<n] then schedule else [0..<n])"

definition complete_at ::
    "'st journal_store \<Rightarrow> pipe_env \<Rightarrow> ('w, 'h) run_spec \<Rightarrow>
     (tool_call_request \<times> (tool_outcome + 'w prepared_call)) list \<Rightarrow>
     tool_outcome option list \<times> ('w, 'h, 'st) pipe_state \<Rightarrow> nat \<Rightarrow>
     tool_outcome option list \<times> ('w, 'h, 'st) pipe_state" where
  "complete_at ops env spec jobs s i =
     (case s of (outcomes, ps) \<Rightarrow>
        (case complete_tool_call ops env spec (fst (jobs ! i)) (snd (jobs ! i)) ps of
           (outcome, ps) \<Rightarrow> (outcomes[i := Some outcome], ps)))"

definition complete_batch ::
    "'st journal_store \<Rightarrow> pipe_env \<Rightarrow> ('w, 'h) agent_run_spec \<Rightarrow> nat list \<Rightarrow> tool_call_request list \<Rightarrow>
     (tool_outcome + 'w prepared_call) list \<Rightarrow> ('w, 'h, 'st) pipe_state \<Rightarrow>
     tool_outcome list \<times> ('w, 'h, 'st) pipe_state" where
  "complete_batch ops env spec schedule batch prepared ps =
     (let n = length batch;
          order = (if as_concurrent_tools spec \<and> n > 1 then completion_order schedule n else [0..<n])
      in case foldl (complete_at ops env (as_pipe spec) (zip batch prepared)) (replicate n None, ps) order of
           (outcomes, ps) \<Rightarrow> (map the outcomes, ps))"

record batch_results =
  br_results :: "string list"
  br_events :: "(string \<times> string) list list"
  br_fatal :: "string option"
  br_added_context :: "string list"

definition no_results :: batch_results where
  "no_results = \<lparr>br_results = [], br_events = [], br_fatal = None, br_added_context = []\<rparr>"

definition collect_outcome :: "batch_results \<Rightarrow> tool_call_request \<times> tool_outcome \<Rightarrow> batch_results" where
  "collect_outcome r c =
     (case c of (call, outcome) \<Rightarrow>
     (case take_added_context outcome of (added, outcome) \<Rightarrow>
     (case into_triple (tc_name call) outcome of (result, event, fatal) \<Rightarrow>
        \<lparr>br_results = br_results r @ [result], br_events = br_events r @ [event],
         br_fatal = (if br_fatal r = None then fatal else br_fatal r),
         br_added_context = br_added_context r @ added\<rparr>)))"

fun execute_batches ::
    "'st journal_store \<Rightarrow> pipe_env \<Rightarrow> (tool_call_request list \<Rightarrow> nat list) \<Rightarrow> ('w, 'h) agent_run_spec \<Rightarrow>
     tool_call_request list list \<Rightarrow> batch_results \<Rightarrow> ('w, 'h, 'st) pipe_state \<Rightarrow>
     batch_results returns \<times> ('w, 'h, 'st) pipe_state" where
  "execute_batches ops env schedule spec [] r ps = (Returns r, ps)"
| "execute_batches ops env schedule spec (batch # batches) r ps =
     (case prepare_batch ops env (as_pipe spec) batch ps of
        (Panics, ps) \<Rightarrow> (Panics, ps)
      | (Returns prepared, ps) \<Rightarrow>
          (case complete_batch ops env spec (schedule batch) batch prepared ps of
             (outcomes, ps) \<Rightarrow>
               execute_batches ops env schedule spec batches
                 (foldl collect_outcome r (zip batch outcomes)) ps))"

definition execute_tools ::
    "'st journal_store \<Rightarrow> pipe_env \<Rightarrow> (tool_call_request list \<Rightarrow> nat list) \<Rightarrow> ('w, 'h) agent_run_spec \<Rightarrow>
     tool_call_request list \<Rightarrow> ('w, 'h, 'st) pipe_state \<Rightarrow>
     batch_results returns \<times> ('w, 'h, 'st) pipe_state" where
  "execute_tools ops env schedule spec calls ps =
     execute_batches ops env schedule spec (partition_tool_batches spec calls) no_results ps"

section \<open>Ending a run\<close>

definition append_final_message :: "string option \<Rightarrow> json list \<Rightarrow> json list" where
  "append_final_message content messages =
     (if content = None then messages
      else if messages \<noteq> [] \<and> has_role ''assistant'' (last messages) \<and>
              get_array (last messages) ''tool_calls'' = None
      then (if get_str (last messages) ''content'' = content then messages
            else messages[length messages - 1 := build_assistant_message content None None None])
      else messages @ [build_assistant_message content None None None])"

definition final_message ::
    "string option \<Rightarrow> ('w, 'h, 'st, 'p) run_state \<Rightarrow> ('w, 'h, 'st, 'p) run_state" where
  "final_message content st = st\<lparr>rn_messages := append_final_message content (rn_messages st)\<rparr>"

definition error_fallback :: "('w, 'h) agent_run_spec \<Rightarrow> string" where
  "error_fallback spec = (case as_error_message spec of Some m \<Rightarrow> m | None \<Rightarrow> DEFAULT_ERROR_MESSAGE)"

definition format_provider_error_for_user :: "(string \<Rightarrow> string) \<Rightarrow> string option \<Rightarrow> string \<Rightarrow> string" where
  "format_provider_error_for_user lower detail fallback =
     (let detail = trim (case detail of Some s \<Rightarrow> s | None \<Rightarrow> [])
      in if is_unsupported_image_input_error lower (Some detail) then UNSUPPORTED_IMAGE_INPUT_MESSAGE
         else if detail = [] then fallback
         else ''Error: '' @ detail @ ''\<newline>'' @ fallback)"

text \<open>Telling the hook how the run ended is the last thing an iteration does.\<close>

definition abort_with_provider_error ::
    "pipe_env \<Rightarrow> 'h run_hook \<Rightarrow> ('w, 'h) agent_run_spec \<Rightarrow> string option \<Rightarrow> hook_context \<Rightarrow>
     ('w, 'h, 'st, 'p) run_state \<Rightarrow> ('w, 'h, 'st, 'p) iteration_end" where
  "abort_with_provider_error env hook spec detail ctx st =
     (let error_msg = format_provider_error_for_user (pe_lower env) detail (error_fallback spec);
          (ctx, st) = (if rh_wants_streaming hook (ps_hook (rn_pipe st))
                       then fire hook (OnStream error_msg) (ctx, st) else (ctx, st));
          (ctx, st) = fire hook (OnStreamEnd False) (ctx, st);
          st = final_message (Some error_msg) st;
          (ctx, st) = fire hook AfterIteration
            (ctx\<lparr>hc_stop_reason := Some ''error'', hc_error := Some error_msg,
                 hc_final_content := Some error_msg\<rparr>, st)
      in BreakLoop \<lparr>rf_stop_reason = ''error'', rf_final_content = Some error_msg,
                    rf_error = Some error_msg\<rparr> st)"

section \<open>One iteration\<close>

definition event_blocked :: "(string \<times> string) list \<Rightarrow> bool" where
  "event_blocked event \<longleftrightarrow> map_of event ''status'' = Some (status_str StatusBlocked)"

fun use_tools :: "(llm_tool_call \<times> (string \<times> string) list) list \<Rightarrow> string list \<Rightarrow> string list" where
  "use_tools [] used = used"
| "use_tools ((tc, event) # rest) used =
     use_tools rest
       (if \<not> event_blocked event \<and> tc_name tc \<notin> set used then used @ [tc_name tc] else used)"

definition tool_message :: "(string \<Rightarrow> json option) \<Rightarrow> llm_tool_call \<times> string \<Rightarrow> json" where
  "tool_message parse c =
     (case c of (tc, result) \<Rightarrow>
        JObject [(''role'', JString ''tool''), (''tool_call_id'', JString (tc_id tc)),
                 (''name'', JString (tc_name tc)), (''content'', coerce_tool_execute_result parse result)])"

definition context_message :: "string list \<Rightarrow> json" where
  "context_message added =
     JObject [(''role'', JString ''user''), (''content'', JString (join ''\<newline>\<newline>'' added)),
              (HIDDEN_HISTORY_KEY, JBool True)]"

definition requesting_message :: "pipe_env \<Rightarrow> llm_response \<Rightarrow> json" where
  "requesting_message env response =
     build_assistant_message (lr_content response)
       (Some (map (to_openai_tool_call (pe_pretty env)) (lr_tool_calls response)))
       (lr_reasoning_content response) (thinking_blocks_as_values (lr_thinking_blocks response))"

definition text_message :: "string option \<Rightarrow> llm_response \<Rightarrow> json" where
  "text_message content response =
     build_assistant_message content None (lr_reasoning_content response)
       (thinking_blocks_as_values (lr_thinking_blocks response))"

definition is_fatal_error :: "string option \<Rightarrow> bool" where
  "is_fatal_error fatal \<longleftrightarrow> (case fatal of Some e \<Rightarrow> \<not> is_tripped_error e | None \<Rightarrow> False)"

definition is_tripped :: "string option \<Rightarrow> bool" where
  "is_tripped fatal \<longleftrightarrow> (case fatal of Some e \<Rightarrow> is_tripped_error e | None \<Rightarrow> False)"

text \<open>After the tools ran: what they returned becomes part of the conversation, or ends the run.\<close>

definition finish_tools ::
    "'st journal_store \<Rightarrow> pipe_env \<Rightarrow> 'h run_hook \<Rightarrow> ('w, 'h) agent_run_spec \<Rightarrow> nat \<Rightarrow> llm_response \<Rightarrow>
     batch_results \<Rightarrow> hook_context \<Rightarrow> ('w, 'h, 'st, 'p) run_state \<Rightarrow> ('w, 'h, 'st, 'p) iteration_end" where
  "finish_tools ops env hook spec turn_start response r ctx st =
     (let calls = lr_tool_calls response;
          fatal = br_fatal r;
          st = st\<lparr>rn_tools_used := use_tools (zip calls (br_events r)) (rn_tools_used st),
                  rn_tool_events := rn_tool_events st @ br_events r\<rparr>;
          ctx = ctx\<lparr>hc_tool_events := br_events r\<rparr>
      in if is_fatal_error fatal
         then
           (let error_msg = ''Error: '' @ the fatal @ ''\<newline>'' @ error_fallback spec;
                st = final_message (Some error_msg) st;
                (ctx, st) = fire hook AfterIteration
                  (ctx\<lparr>hc_stop_reason := Some ''tool_error'', hc_error := fatal\<rparr>, st)
            in BreakLoop \<lparr>rf_stop_reason = ''tool_error'', rf_final_content = Some error_msg,
                          rf_error = fatal\<rparr> st)
         else
           (let tool_msgs = map (tool_message (pe_parse env)) (zip calls (br_results r));
                ctx = ctx\<lparr>hc_tool_results := hc_tool_results ctx @ tool_msgs\<rparr>;
                st = st\<lparr>rn_messages := rn_messages st @ tool_msgs @
                          (if br_added_context r \<noteq> [] then [context_message (br_added_context r)] else [])\<rparr>
            in if is_tripped fatal
               then
                 (let st = final_message (Some CIRCUIT_BREAKER_USER_MESSAGE) st;
                      (ctx, st) = fire hook AfterIteration
                        (ctx\<lparr>hc_stop_reason := Some CIRCUIT_BREAKER_STOP_REASON, hc_error := fatal\<rparr>, st)
                  in BreakLoop \<lparr>rf_stop_reason = CIRCUIT_BREAKER_STOP_REASON,
                                rf_final_content = Some CIRCUIT_BREAKER_USER_MESSAGE, rf_error = fatal\<rparr> st)
               else
                 (let st = emit_step_checkpoint ops env spec PreModel TYPE_TOOLS_COMPLETED turn_start st;
                      (ctx, st) = fire hook AfterIteration
                        (ctx, st\<lparr>rn_empty_retries := 0, rn_length_recoveries := 0\<rparr>)
                  in ContinueLoop st)))"

definition tool_branch ::
    "'st journal_store \<Rightarrow> pipe_env \<Rightarrow> (tool_call_request list \<Rightarrow> nat list) \<Rightarrow> 'h run_hook \<Rightarrow>
     ('w, 'h) agent_run_spec \<Rightarrow> nat \<Rightarrow> llm_response \<Rightarrow> hook_context \<Rightarrow> ('w, 'h, 'st, 'p) run_state \<Rightarrow>
     ('w, 'h, 'st, 'p) iteration_end" where
  "tool_branch ops env schedule hook spec turn_start response ctx st =
     (if lr_finish_reason response = ''length'' \<and> rn_length_recoveries st < MAX_LENGTH_RECOVERIES
      then
        (let (ctx, st) = fire hook (OnStreamEnd True) (ctx, st);
             st = push_message build_truncated_tool_call_recovery_message st;
             st = st\<lparr>rn_length_recoveries := rn_length_recoveries st + 1\<rparr>;
             (ctx, st) = fire hook AfterIteration (ctx, st)
         in ContinueLoop st)
      else
        (let (ctx, st) = fire hook (OnStreamEnd True) (ctx, st);
             st = push_message (requesting_message env response) st;
             st = emit_step_checkpoint ops env spec PreTool TYPE_AWAITING_TOOLS turn_start st;
             (ctx, st) = fire hook OnToolCalls (ctx\<lparr>hc_tool_calls := lr_tool_calls response\<rparr>, st)
         in case execute_tools ops env schedule spec
                   (map tool_call_request.truncate (lr_tool_calls response)) (rn_pipe st) of
              (Panics, ps) \<Rightarrow> Unwinds (st\<lparr>rn_pipe := ps\<rparr>)
            | (Returns r, ps) \<Rightarrow>
                finish_tools ops env hook spec turn_start response r ctx (st\<lparr>rn_pipe := ps\<rparr>)))"

text \<open>A text response, once it is not a reason to ask again.\<close>

definition finish_text ::
    "'st journal_store \<Rightarrow> pipe_env \<Rightarrow> 'h run_hook \<Rightarrow> ('w, 'h) agent_run_spec \<Rightarrow> nat \<Rightarrow> llm_response \<Rightarrow>
     string option \<Rightarrow> string \<Rightarrow> hook_context \<Rightarrow> ('w, 'h, 'st, 'p) run_state \<Rightarrow>
     ('w, 'h, 'st, 'p) iteration_end" where
  "finish_text ops env hook spec turn_start response final_content finish_reason ctx st =
     (if finish_reason = ''length'' \<and> rn_length_recoveries st < MAX_LENGTH_RECOVERIES
      then
        (let (ctx, st) = fire hook (OnStreamEnd True) (ctx, st);
             st = push_message build_length_recovery_message
                    (push_message (text_message final_content response) st);
             (ctx, st) = fire hook AfterIteration (ctx\<lparr>hc_final_content := final_content\<rparr>, st)
         in ContinueLoop (st\<lparr>rn_length_recoveries := rn_length_recoveries st + 1\<rparr>))
      else if finish_reason = ''error''
      then abort_with_provider_error env hook spec final_content ctx st
      else
        (let (ctx, st) = fire hook (OnStreamEnd False) (ctx, st)
         in if is_blank_text final_content
            then
              (let st = final_message (Some EMPTY_FINAL_RESPONSE_MESSAGE) st;
                   (ctx, st) = fire hook AfterIteration
                     (ctx\<lparr>hc_stop_reason := Some ''empty_final_response''\<rparr>, st)
               in BreakLoop \<lparr>rf_stop_reason = ''empty_final_response'',
                             rf_final_content = Some EMPTY_FINAL_RESPONSE_MESSAGE, rf_error = None\<rparr> st)
            else
              (let st = push_message (text_message final_content response) st;
                   st = emit_step_checkpoint ops env spec FinalStep TYPE_FINAL turn_start st;
                   (ctx, st) = fire hook AfterIteration (ctx\<lparr>hc_final_content := final_content\<rparr>, st)
               in BreakLoop \<lparr>rf_stop_reason = ''completed'', rf_final_content = final_content,
                             rf_error = None\<rparr> st)))"

definition text_branch ::
    "'st journal_store \<Rightarrow> run_env \<Rightarrow> pipe_env \<Rightarrow> 'p llm_provider \<Rightarrow> 'h run_hook \<Rightarrow>
     ('w, 'h) agent_run_spec \<Rightarrow> nat \<Rightarrow> json list \<Rightarrow> llm_response \<Rightarrow> hook_context \<Rightarrow>
     ('w, 'h, 'st, 'p) run_state \<Rightarrow> ('w, 'h, 'st, 'p) iteration_end" where
  "text_branch ops renv env provider hook spec turn_start prompt response ctx st =
     (let (content, st) = finalize hook ctx (lr_content response) st
      in if lr_finish_reason response = ''error''
         then abort_with_provider_error env hook spec
                (if content \<noteq> None then content else lr_content response) ctx st
         else if is_blank_text content \<and> rn_empty_retries st < MAX_EMPTY_RETRIES
         then
           (let (ctx, st) = fire hook (OnStreamEnd False) (ctx, st);
                (ctx, st) = fire hook AfterIteration (ctx\<lparr>hc_final_content := content\<rparr>, st)
            in ContinueLoop (st\<lparr>rn_empty_retries := rn_empty_retries st + 1\<rparr>))
         else if is_blank_text content
         then
           (let (retry, st) = request_finalization_retry provider spec prompt st;
                st = accumulate_usage renv (lr_usage retry) st;
                (final_content, st) = finalize hook ctx (lr_content retry) st
            in finish_text ops env hook spec turn_start response final_content (lr_finish_reason retry)
                 ctx st)
         else finish_text ops env hook spec turn_start response content (lr_finish_reason response) ctx st)"

definition run_iteration ::
    "'st journal_store \<Rightarrow> run_env \<Rightarrow> 'p llm_provider \<Rightarrow> 'h run_hook \<Rightarrow> ('w, 'h) agent_run_spec \<Rightarrow> nat \<Rightarrow>
     nat \<Rightarrow> ('w, 'h, 'st, 'p) run_state \<Rightarrow> ('w, 'h, 'st, 'p) iteration_end" where
  "run_iteration ops renv provider hook spec turn_start iteration st =
     (let env = re_pipe renv iteration;
          (prompt, files) = messages_for_model env (re_tokens renv) spec (rn_messages st)
                              (ps_result_files (rn_pipe st));
          st = st\<lparr>rn_pipe := (rn_pipe st)\<lparr>ps_result_files := files\<rparr>\<rparr>;
          st = (if iteration = 0
                then emit_step_checkpoint ops env spec PreModel TYPE_PRE_MODEL turn_start st else st);
          ctx = (hook_context_new iteration (rn_messages st))
            \<lparr>hc_channel := sp_channel (as_pipe spec), hc_chat_id := sp_chat_id (as_pipe spec)\<rparr>;
          (ctx, st) = fire hook BeforeIteration (ctx, st);
          (response, st) = request_model provider hook spec prompt ctx st;
          st = accumulate_usage renv (lr_usage response) st;
          ctx = ctx\<lparr>hc_usage := lr_usage response, hc_response := Some response\<rparr>
      in if lr_tool_calls response \<noteq> []
         then tool_branch ops env (re_schedule renv iteration) hook spec turn_start response ctx st
         else text_branch ops renv env provider hook spec turn_start prompt response ctx st)"

section \<open>The loop\<close>

text \<open>\<open>for iteration in 0..max_iterations\<close>: \<open>remaining\<close> iterations are left.\<close>

fun run_loop ::
    "'st journal_store \<Rightarrow> run_env \<Rightarrow> 'p llm_provider \<Rightarrow> 'h run_hook \<Rightarrow> ('w, 'h) agent_run_spec \<Rightarrow> nat \<Rightarrow>
     nat \<Rightarrow> nat \<Rightarrow> ('w, 'h, 'st, 'p) run_state \<Rightarrow>
     run_finish returns \<times> ('w, 'h, 'st, 'p) run_state" where
  "run_loop ops renv provider hook spec turn_start iteration 0 st =
     (Returns \<lparr>rf_stop_reason = ''max_iterations'', rf_final_content = as_max_iterations_message spec,
               rf_error = None\<rparr>,
      final_message (as_max_iterations_message spec) st)"
| "run_loop ops renv provider hook spec turn_start iteration (Suc remaining) st =
     (case run_iteration ops renv provider hook spec turn_start iteration st of
        ContinueLoop st \<Rightarrow> run_loop ops renv provider hook spec turn_start (Suc iteration) remaining st
      | BreakLoop finish st \<Rightarrow> (Returns finish, st)
      | Unwinds st \<Rightarrow> (Panics, st))"

definition run_state_new ::
    "('w, 'h) agent_run_spec \<Rightarrow> 'w \<Rightarrow> 'h \<Rightarrow> 'st journal_world \<Rightarrow> (string \<times> string) list \<Rightarrow> 'p \<Rightarrow>
     ('w, 'h, 'st, 'p) run_state" where
  "run_state_new spec w h journal files p =
     \<lparr>rn_pipe = \<lparr>ps_world = w, ps_hook = h, ps_journal = journal,
        ps_breaker = breaker_new DEFAULT_N_IDENTICAL_MESSAGES, ps_counts = [],
        ps_counts_poisoned = False, ps_result_files = files\<rparr>,
      rn_provider = p, rn_messages = as_initial_messages spec, rn_usage = usage_new,
      rn_tool_events = [], rn_tools_used = [], rn_empty_retries = 0, rn_length_recoveries = 0,
      rn_requests = [], rn_checkpoints = []\<rparr>"

definition run_result :: "run_finish \<Rightarrow> ('w, 'h, 'st, 'p) run_state \<Rightarrow> agent_run_result" where
  "run_result finish st =
     \<lparr>rr_final_content = rf_final_content finish, rr_messages = rn_messages st,
      rr_tools_used = rn_tools_used st, rr_usage = rn_usage st,
      rr_stop_reason = rf_stop_reason finish, rr_error = rf_error finish,
      rr_tool_events = rn_tool_events st\<rparr>"

definition run_agent ::
    "'st journal_store \<Rightarrow> run_env \<Rightarrow> 'p llm_provider \<Rightarrow> 'h run_hook \<Rightarrow> ('w, 'h) agent_run_spec \<Rightarrow>
     'w \<Rightarrow> 'h \<Rightarrow> 'st journal_world \<Rightarrow> (string \<times> string) list \<Rightarrow> 'p \<Rightarrow>
     agent_run_result returns \<times> ('w, 'h, 'st, 'p) run_state" where
  "run_agent ops renv provider hook spec w h journal files p =
     (case run_loop ops renv provider hook spec (turn_start_index (as_initial_messages spec)) 0
             (as_max_iterations spec) (run_state_new spec w h journal files p) of
        (Returns finish, st) \<Rightarrow> (Returns (run_result finish st), st)
      | (Panics, st) \<Rightarrow> (Panics, st))"

end
