(* ===== verification/Provider_Retry.thy ===== *)
theory Provider_Retry
  imports Agent_Runner
begin

text \<open>
  The provided methods of \<open>trait LLMProvider\<close> in \<open>src/providers/base.rs\<close>: what every provider
  wraps around its own \<open>chat\<close> and \<open>chat_stream\<close> (here the operations of a \<open>backend\<close> on a state of
  its own, which may panic): panics become error responses, transient errors are retried after a
  growing delay, and a permanent error of a prompt with images is retried once without them.

  The record \<open>wire\<close> is the backend with what reached it, in order: the requests, the seconds slept
  between them and the callbacks streamed to the caller.  \<open>lower\<close> is \<open>str::to_lowercase\<close>.
  Log lines are left out.
\<close>

section \<open>Requests and backends\<close>

record chat_request =
  cr_messages :: "json list"
  cr_tools :: "json list option"
  cr_model :: "string option"
  cr_max_tokens :: nat
  cr_temperature :: "u32 option"
  cr_reasoning_effort :: "string option"
  cr_tool_choice :: "json option"

datatype panic_payload = StrPanic string | StringPanic string | OtherPanic

record 'b backend =
  be_chat :: "chat_request \<Rightarrow> 'b \<Rightarrow> (panic_payload + llm_response) \<times> 'b"
  be_chat_stream :: "chat_request \<Rightarrow> 'b \<Rightarrow> ((panic_payload + llm_response) \<times> stream_event list) \<times> 'b"

text \<open>A provider without streaming of its own: \<open>chat\<close>, and its content as a single delta.\<close>

definition default_chat_stream ::
    "(chat_request \<Rightarrow> 'b \<Rightarrow> (panic_payload + llm_response) \<times> 'b) \<Rightarrow> chat_request \<Rightarrow> 'b \<Rightarrow>
     ((panic_payload + llm_response) \<times> stream_event list) \<times> 'b" where
  "default_chat_stream chat rq b =
     (case chat rq b of
        (Inr response, b) \<Rightarrow>
          ((Inr response, case lr_content response of Some content \<Rightarrow> [ContentDelta content] | None \<Rightarrow> []), b)
      | (Inl payload, b) \<Rightarrow> ((Inl payload, []), b))"

record 'b wire =
  wi_backend :: 'b
  wi_sent :: "chat_request list"
  wi_slept :: "nat list"
  wi_events :: "stream_event list"

definition wire_new :: "'b \<Rightarrow> 'b wire" where
  "wire_new b = \<lparr>wi_backend = b, wi_sent = [], wi_slept = [], wi_events = []\<rparr>"

section \<open>Panics\<close>

definition error_response :: "string \<Rightarrow> llm_response" where
  "error_response message = response_new\<lparr>lr_content := Some message, lr_finish_reason := ''error''\<rparr>"

text \<open>\<open>handle_error\<close>: the error is its text.\<close>

definition handle_error :: "string \<Rightarrow> llm_response" where
  "handle_error e = error_response e"

fun panic_text :: "panic_payload \<Rightarrow> string" where
  "panic_text (StrPanic s) = s"
| "panic_text (StringPanic s) = s"
| "panic_text OtherPanic = ''unknown panic''"

definition caught :: "panic_payload + llm_response \<Rightarrow> llm_response" where
  "caught outcome =
     (case outcome of
        Inr response \<Rightarrow> response
      | Inl payload \<Rightarrow> error_response (''Error calling LLM: '' @ panic_text payload))"

definition safe_chat :: "'b backend \<Rightarrow> chat_request \<Rightarrow> 'b wire \<Rightarrow> llm_response \<times> 'b wire" where
  "safe_chat backend rq w =
     (case be_chat backend rq (wi_backend w) of
        (outcome, b) \<Rightarrow> (caught outcome, w\<lparr>wi_backend := b, wi_sent := wi_sent w @ [rq]\<rparr>))"

definition safe_chat_stream :: "'b backend \<Rightarrow> chat_request \<Rightarrow> 'b wire \<Rightarrow> llm_response \<times> 'b wire" where
  "safe_chat_stream backend rq w =
     (case be_chat_stream backend rq (wi_backend w) of
        ((outcome, events), b) \<Rightarrow>
          (caught outcome,
           w\<lparr>wi_backend := b, wi_sent := wi_sent w @ [rq], wi_events := wi_events w @ events\<rparr>))"

section \<open>Which errors are worth another attempt\<close>

definition CHAT_RETRY_DELAYS :: "nat list" where "CHAT_RETRY_DELAYS = [1, 2, 4]"

definition TRANSIENT_ERROR_MARKERS :: "string list" where
  "TRANSIENT_ERROR_MARKERS =
     [''429'', ''rate limit'', ''500'', ''502'', ''503'', ''504'', ''overloaded'', ''timeout'', ''timed out'',
      ''connection'', ''server error'', ''temporarily unavailable'',
      ''failed to read the response body'', ''invalid json response'']"

definition is_transient_error :: "(string \<Rightarrow> string) \<Rightarrow> string option \<Rightarrow> bool" where
  "is_transient_error lower content \<longleftrightarrow>
     (let err = lower (case content of Some s \<Rightarrow> s | None \<Rightarrow> [])
      in \<exists>marker \<in> set TRANSIENT_ERROR_MARKERS. sublist marker err)"

definition is_image_block :: "json \<Rightarrow> bool" where
  "is_image_block block \<longleftrightarrow> get_str block ''type'' = Some ''image_url''"

definition image_path :: "json \<Rightarrow> string" where
  "image_path block =
     (case Option.bind (json_get block ''_meta'') (\<lambda>meta. get_str meta ''path'') of
        Some path \<Rightarrow> path | None \<Rightarrow> [])"

definition image_placeholder :: "json \<Rightarrow> string" where
  "image_placeholder block =
     (if image_path block = [] then ''[image omitted]'' else ''[image: '' @ image_path block @ '']'')"

definition strip_block :: "json \<Rightarrow> json" where
  "strip_block block =
     (if is_image_block block
      then JObject [(''type'', JString ''text''), (''text'', JString (image_placeholder block))] else block)"

definition strip_message :: "json \<Rightarrow> json" where
  "strip_message msg =
     (case get_array msg ''content'' of
        Some blocks \<Rightarrow> with_content (JArray (map strip_block blocks)) msg
      | None \<Rightarrow> msg)"

definition has_image :: "json \<Rightarrow> bool" where
  "has_image msg \<longleftrightarrow>
     (case get_array msg ''content'' of Some blocks \<Rightarrow> list_ex is_image_block blocks | None \<Rightarrow> False)"

definition strip_image_content :: "json list \<Rightarrow> json list option" where
  "strip_image_content messages =
     (if list_ex has_image messages then Some (map strip_message messages) else None)"

definition retry_messages_without_images ::
    "(string \<Rightarrow> string) \<Rightarrow> string option \<Rightarrow> json list \<Rightarrow> json list option" where
  "retry_messages_without_images lower content messages =
     (if is_unsupported_image_input_error lower content then None else strip_image_content messages)"

section \<open>The retry loop\<close>

definition sleep_for :: "nat \<Rightarrow> 'b wire \<Rightarrow> 'b wire" where
  "sleep_for seconds w = w\<lparr>wi_slept := wi_slept w @ [seconds]\<rparr>"

text \<open>One attempt per delay, and a last one whose response is returned whatever it is.\<close>

fun with_retry ::
    "(string \<Rightarrow> string) \<Rightarrow> (chat_request \<Rightarrow> 'b wire \<Rightarrow> llm_response \<times> 'b wire) \<Rightarrow> nat list \<Rightarrow>
     chat_request \<Rightarrow> 'b wire \<Rightarrow> llm_response \<times> 'b wire" where
  "with_retry lower call [] rq w = call rq w"
| "with_retry lower call (delay # delays) rq w =
     (let (response, w) = call rq w
      in if lr_finish_reason response \<noteq> ''error'' then (response, w)
         else if \<not> is_transient_error lower (lr_content response)
         then (case retry_messages_without_images lower (lr_content response) (cr_messages rq) of
                 Some stripped \<Rightarrow> call (rq\<lparr>cr_messages := stripped\<rparr>) w
               | None \<Rightarrow> (response, w))
         else with_retry lower call delays rq (sleep_for delay w))"

record generation_settings =
  gs_temperature :: u32
  gs_max_tokens :: nat
  gs_reasoning_effort :: "string option"

text \<open>\<open>0.7\<close> as the bits of an \<open>f32\<close>.\<close>

definition generation_new :: generation_settings where
  "generation_new = \<lparr>gs_temperature = 0x3F333333, gs_max_tokens = 4096, gs_reasoning_effort = None\<rparr>"

text \<open>The arguments of a call that the model loop only passes on.\<close>

record chat_options =
  co_model :: "string option"
  co_temperature :: "u32 option"
  co_reasoning_effort :: "string option"
  co_tool_choice :: "json option"

definition resolve_request ::
    "generation_settings \<Rightarrow> chat_options \<Rightarrow> provider_request \<Rightarrow> chat_request" where
  "resolve_request gs opts rq =
     \<lparr>cr_messages = pr_messages rq, cr_tools = pr_tools rq, cr_model = co_model opts,
      cr_max_tokens = (case pr_max_tokens rq of Some n \<Rightarrow> n | None \<Rightarrow> gs_max_tokens gs),
      cr_temperature = co_temperature opts,
      cr_reasoning_effort = (case co_reasoning_effort opts of
                               Some effort \<Rightarrow> Some effort | None \<Rightarrow> gs_reasoning_effort gs),
      cr_tool_choice = co_tool_choice opts\<rparr>"

definition chat_with_retry ::
    "(string \<Rightarrow> string) \<Rightarrow> generation_settings \<Rightarrow> chat_options \<Rightarrow> 'b backend \<Rightarrow> provider_request \<Rightarrow>
     'b wire \<Rightarrow> llm_response \<times> 'b wire" where
  "chat_with_retry lower gs opts backend rq w =
     with_retry lower (safe_chat backend) CHAT_RETRY_DELAYS (resolve_request gs opts rq) w"

definition safe_chat_stream_with_retry ::
    "(string \<Rightarrow> string) \<Rightarrow> generation_settings \<Rightarrow> chat_options \<Rightarrow> 'b backend \<Rightarrow> provider_request \<Rightarrow>
     'b wire \<Rightarrow> llm_response \<times> 'b wire" where
  "safe_chat_stream_with_retry lower gs opts backend rq w =
     with_retry lower (safe_chat_stream backend) CHAT_RETRY_DELAYS (resolve_request gs opts rq) w"

text \<open>
  \<open>LLMProviderDyn\<close> for a provider: the two methods the model loop calls.  The callbacks of a
  streamed request are those made since it began.
\<close>

definition retrying_provider ::
    "(string \<Rightarrow> string) \<Rightarrow> generation_settings \<Rightarrow> chat_options \<Rightarrow> 'b backend \<Rightarrow> 'b wire llm_provider" where
  "retrying_provider lower gs opts backend =
     \<lparr>pv_chat = chat_with_retry lower gs opts backend,
      pv_chat_stream = (\<lambda>rq w.
        case safe_chat_stream_with_retry lower gs opts backend rq (w\<lparr>wi_events := []\<rparr>) of
          (response, w) \<Rightarrow> ((response, wi_events w), w))\<rparr>"

end
