(* ===== verification/Openai_Stream.thy ===== *)
theory Openai_Stream
  imports Provider_Retry Journal_File
begin

text \<open>
  How an answer of an OpenAI-compatible gateway is read: \<open>src/providers/openai_compat_stream.rs\<close>
  and the parsing half of \<open>src/providers/openai_compat_provider.rs\<close>.

  A byte stream is the list of what \<open>next()\<close> yields before it ends: bytes, an error, or nothing
  for longer than the idle timeout.  A reader is its state, the buffer and the callbacks made so
  far; both callbacks are given, as the model loop gives them.

  Parameters (\<open>openai_env\<close>): serde's parsers with the text of their errors, \<open>from_utf8_lossy\<close>, the
  random tool-call ids in the order they are drawn, float conversions and SHA-1.
\<close>

record openai_env =
  oe_ops :: value_ops
  oe_f64_to_u32 :: "u64 \<Rightarrow> u32"
  oe_parse :: "string \<Rightarrow> string + json"
  oe_parse_args :: "string \<Rightarrow> string + json_object"
  oe_lossy :: "string \<Rightarrow> string"
  oe_ids :: "nat \<Rightarrow> string"
  oe_sha1_hex :: "string \<Rightarrow> string"

section \<open>Values\<close>

definition error_message_from_value :: "json \<Rightarrow> string option" where
  "error_message_from_value value =
     (case json_get value ''error'' of
        None \<Rightarrow> None
      | Some error \<Rightarrow>
          (case (case get_str error ''message'' of Some m \<Rightarrow> Some m | None \<Rightarrow> as_str error) of
             Some s \<Rightarrow> if s = [] then None else Some s
           | None \<Rightarrow> None))"

fun text_part :: "json \<Rightarrow> string option" where
  "text_part (JString s) = Some s"
| "text_part item = get_str item ''text''"

definition extract_text_content :: "json \<Rightarrow> string option" where
  "extract_text_content value =
     (case value of
        JString s \<Rightarrow> Some s
      | JArray arr \<Rightarrow> Some (concat (List.map_filter text_part arr))
      | _ \<Rightarrow> None)"

definition json_u32 :: "openai_env \<Rightarrow> json \<Rightarrow> string \<Rightarrow> u32 option" where
  "json_u32 env value key =
     (case json_get value key of
        None \<Rightarrow> None
      | Some n \<Rightarrow>
          (case as_u64 n of
             Some n \<Rightarrow> Some (ucast n)
           | None \<Rightarrow> map_option (oe_f64_to_u32 env) (as_f64 (oe_ops env) n)))"

definition json_f64 :: "openai_env \<Rightarrow> json \<Rightarrow> string \<Rightarrow> u64 option" where
  "json_f64 env value key = Option.bind (json_get value key) (as_f64 (oe_ops env))"

definition saturating_sub :: "u32 \<Rightarrow> u32 \<Rightarrow> u32" where
  "saturating_sub a b = (if b \<le> a then a - b else 0)"

fun or_else :: "'a option \<Rightarrow> 'a option \<Rightarrow> 'a option" where
  "or_else (Some a) b = Some a"
| "or_else None b = b"

definition positive :: "u32 \<Rightarrow> u32 option" where
  "positive n = (if n > 0 then Some n else None)"

definition reported_costs :: "u64 option \<Rightarrow> u64 option \<Rightarrow> u64 option \<Rightarrow> u64 option \<times> u64 option" where
  "reported_costs input_part output_part whole =
     (if input_part = None \<and> output_part = None then (whole, None) else (input_part, output_part))"

definition parse_usage :: "openai_env \<Rightarrow> json \<Rightarrow> llm_usage" where
  "parse_usage env usage =
     (let prompt = or_else (json_u32 env usage ''prompt_tokens'') (json_u32 env usage ''input_tokens'');
          output = or_else (json_u32 env usage ''completion_tokens'') (json_u32 env usage ''output_tokens'');
          details = json_get usage ''prompt_tokens_details'';
          cached = or_zero (or_else (Option.bind details (\<lambda>d. json_u32 env d ''cached_tokens''))
                                    (json_u32 env usage ''cache_read_input_tokens''));
          cache_write = or_zero (or_else (Option.bind details (\<lambda>d. json_u32 env d ''cache_write_tokens''))
                                    (json_u32 env usage ''cache_creation_input_tokens''));
          reasoning = Option.bind (Option.bind (json_get usage ''completion_tokens_details'')
                        (\<lambda>d. json_u32 env d ''reasoning_tokens'')) positive;
          cost_details = json_get usage ''cost_details'';
          (input_cost, output_cost) =
            reported_costs (Option.bind cost_details (\<lambda>d. json_f64 env d ''upstream_inference_prompt_cost''))
              (Option.bind cost_details (\<lambda>d. json_f64 env d ''upstream_inference_completions_cost''))
              (json_f64 env usage ''cost'')
      in \<lparr>us_input_tokens = map_option (\<lambda>p. saturating_sub (saturating_sub p cached) cache_write) prompt,
          us_output_tokens = output, us_cache_creation = positive cache_write,
          us_cache_read = positive cached, us_reasoning = reasoning,
          us_input_cost = input_cost, us_output_cost = output_cost\<rparr>)"

definition non_empty :: "string \<Rightarrow> string option" where
  "non_empty s = (if s = [] then None else Some s)"

definition json_finish_reason :: "json \<Rightarrow> string option" where
  "json_finish_reason choice = Option.bind (get_str choice ''finish_reason'') non_empty"

section \<open>Tool calls\<close>

definition ARG_PARSE_RAW_LIMIT :: nat where "ARG_PARSE_RAW_LIMIT = 400"

definition parse_tool_arguments :: "openai_env \<Rightarrow> string \<Rightarrow> json_object" where
  "parse_tool_arguments env arguments_json =
     (case oe_parse_args env arguments_json of
        Inr args \<Rightarrow> args
      | Inl err \<Rightarrow>
          [(ARG_PARSE_ERROR_KEY, JString err),
           (ARG_PARSE_RAW_KEY, JString (take_chars ARG_PARSE_RAW_LIMIT arguments_json))])"

definition openai_tool_call :: "openai_env \<Rightarrow> nat \<Rightarrow> string \<Rightarrow> string \<Rightarrow> llm_tool_call" where
  "openai_tool_call env drawn name arguments =
     \<lparr>tc_id = oe_ids env drawn, tc_name = name, tc_arguments = parse_tool_arguments env arguments,
      lc_extra_content = None, lc_provider_fields = None, lc_function_fields = None\<rparr>"

text \<open>A call of a whole response; \<open>drawn\<close> ids have been used before it.\<close>

definition parse_json_tool_call :: "openai_env \<Rightarrow> nat \<Rightarrow> json \<Rightarrow> llm_tool_call option" where
  "parse_json_tool_call env drawn tc =
     (if (case get_str tc ''type'' of Some kind \<Rightarrow> kind \<noteq> ''function'' | None \<Rightarrow> False) then None
      else case json_get tc ''function'' of
        None \<Rightarrow> None
      | Some func \<Rightarrow>
          map_option
            (\<lambda>name. openai_tool_call env drawn name
              (case json_get func ''arguments'' of
                 Some (JString s) \<Rightarrow> s
               | Some value \<Rightarrow> vo_show_json (oe_ops env) value
               | None \<Rightarrow> []))
            (get_str func ''name''))"

fun parse_tool_calls :: "openai_env \<Rightarrow> llm_tool_call list \<Rightarrow> json list \<Rightarrow> llm_tool_call list" where
  "parse_tool_calls env parsed [] = parsed"
| "parse_tool_calls env parsed (tc # tcs) =
     parse_tool_calls env
       (case parse_json_tool_call env (length parsed) tc of Some call \<Rightarrow> parsed @ [call] | None \<Rightarrow> parsed) tcs"

section \<open>Whole responses\<close>

definition extract_message_content :: "json \<Rightarrow> string option" where
  "extract_message_content message =
     Option.bind (Option.bind (json_get message ''content'') extract_text_content) non_empty"

definition message_of :: "json \<Rightarrow> json" where
  "message_of choice = (case json_get choice ''message'' of Some m \<Rightarrow> m | None \<Rightarrow> JNull)"

definition reasoning_field :: "json \<Rightarrow> string option" where
  "reasoning_field choice = Option.bind (get_str (message_of choice) ''reasoning_content'') non_empty"

definition extract_reasoning_content :: "json list \<Rightarrow> string option" where
  "extract_reasoning_content choices =
     or_else (reasoning_field (hd choices))
       (or_else
          (Option.bind (Option.bind (json_get (message_of (hd choices)) ''reasoning'') extract_text_content) non_empty)
          (find_map reasoning_field choices))"

fun parse_choices ::
    "openai_env \<Rightarrow> json list \<Rightarrow> string option \<times> string \<times> llm_tool_call list \<Rightarrow>
     string option \<times> string \<times> llm_tool_call list" where
  "parse_choices env [] r = r"
| "parse_choices env (ch # choices) (content, finish_reason, calls) =
     (let tcs = (case get_array (message_of ch) ''tool_calls'' of Some tcs \<Rightarrow> tcs | None \<Rightarrow> [])
      in parse_choices env choices
           (or_else content (extract_message_content (message_of ch)),
            (if tcs \<noteq> [] \<and> json_finish_reason ch \<in> {Some ''tool_calls'', Some ''stop''}
             then the (json_finish_reason ch) else finish_reason),
            parse_tool_calls env calls tcs))"

definition parse_response :: "openai_env \<Rightarrow> json \<Rightarrow> llm_response" where
  "parse_response env raw =
     (case get_array raw ''choices'' of
        Some (choice0 # rest) \<Rightarrow>
          (case parse_choices env (choice0 # rest)
                  (extract_message_content (message_of choice0),
                   (case json_finish_reason choice0 of Some reason \<Rightarrow> reason | None \<Rightarrow> ''stop''), []) of
             (content, finish_reason, calls) \<Rightarrow>
               \<lparr>lr_content = content, lr_tool_calls = calls, lr_finish_reason = finish_reason,
                lr_usage = (case json_get raw ''usage'' of Some usage \<Rightarrow> parse_usage env usage | None \<Rightarrow> usage_new),
                lr_reasoning_content = extract_reasoning_content (choice0 # rest),
                lr_thinking_blocks = None\<rparr>)
      | _ \<Rightarrow> error_response ''Error: API returned empty choices.'')"

section \<open>The state of a streamed answer\<close>

record call_fragments =
  cf_id :: "string option"
  cf_name :: string
  cf_arguments :: string

definition no_fragments :: call_fragments where
  "no_fragments = \<lparr>cf_id = None, cf_name = [], cf_arguments = []\<rparr>"

record stream_accumulator =
  ac_content :: string
  ac_reasoning :: string
  ac_finish_reason :: string
  ac_usage :: llm_usage
  ac_calls :: "(u32 \<times> call_fragments) list"

definition accumulator_new :: stream_accumulator where
  "accumulator_new = \<lparr>ac_content = [], ac_reasoning = [], ac_finish_reason = ''stop'',
     ac_usage = usage_new, ac_calls = []\<rparr>"

text \<open>\<open>BTreeMap::entry(k).or_insert_with(d)\<close> followed by a change of the entry: keys stay ascending.\<close>

fun entry_update :: "'k::linorder \<Rightarrow> 'v \<Rightarrow> ('v \<Rightarrow> 'v) \<Rightarrow> ('k \<times> 'v) list \<Rightarrow> ('k \<times> 'v) list" where
  "entry_update k d f [] = [(k, f d)]"
| "entry_update k d f ((k', v) # m) =
     (if k = k' then (k', f v) # m
      else if k < k' then (k, f d) # (k', v) # m
      else (k', v) # entry_update k d f m)"

definition non_overlapping_suffix :: "string \<Rightarrow> string \<Rightarrow> string" where
  "non_overlapping_suffix existing incoming =
     (if existing = [] \<or> incoming = [] then incoming
      else if prefix existing incoming then drop (length existing) incoming
      else if suffix incoming existing then []
      else incoming)"

text \<open>One element of \<open>delta.tool_calls\<close>: which call it belongs to, and what it adds.\<close>

definition fragment_index :: "json \<Rightarrow> u32" where
  "fragment_index tc =
     (case Option.bind (json_get tc ''index'') as_u64 of Some i \<Rightarrow> ucast i | None \<Rightarrow> 0)"

definition fragment_name :: "json \<Rightarrow> string option" where
  "fragment_name tc = Option.bind (Option.bind (json_get tc ''function'') (\<lambda>func. get_str func ''name'')) non_empty"

definition fragment_arguments :: "openai_env \<Rightarrow> json \<Rightarrow> string" where
  "fragment_arguments env tc =
     (case Option.bind (json_get tc ''function'') (\<lambda>func. json_get func ''arguments'') of
        Some (JString s) \<Rightarrow> s
      | Some other \<Rightarrow> vo_show_json (oe_ops env) other
      | None \<Rightarrow> [])"

definition add_fragment :: "openai_env \<Rightarrow> json \<Rightarrow> call_fragments \<Rightarrow> call_fragments" where
  "add_fragment env tc entry =
     \<lparr>cf_id = (case Option.bind (get_str tc ''id'') non_empty of Some i \<Rightarrow> Some i | None \<Rightarrow> cf_id entry),
      cf_name = (case fragment_name tc of Some name \<Rightarrow> name | None \<Rightarrow> cf_name entry),
      cf_arguments = cf_arguments entry @ fragment_arguments env tc\<rparr>"

definition apply_fragment ::
    "openai_env \<Rightarrow> (u32 \<times> call_fragments) list \<Rightarrow> json \<Rightarrow> (u32 \<times> call_fragments) list" where
  "apply_fragment env calls tc = entry_update (fragment_index tc) no_fragments (add_fragment env tc) calls"

text \<open>The text of a chunk that is new, and what its callbacks are told.\<close>

record chunk_deltas =
  cd_content :: "string option"
  cd_reasoning :: "string option"

definition no_deltas :: chunk_deltas where
  "no_deltas = \<lparr>cd_content = None, cd_reasoning = None\<rparr>"

definition push_text :: "string \<Rightarrow> string option \<Rightarrow> string option" where
  "push_text s told = (if s = [] then told else Some ((case told of Some t \<Rightarrow> t | None \<Rightarrow> []) @ s))"

definition new_content :: "json \<Rightarrow> stream_accumulator \<Rightarrow> string" where
  "new_content delta acc =
     (case Option.bind (json_get delta ''content'') extract_text_content of
        Some t \<Rightarrow> non_overlapping_suffix (ac_content acc) t
      | None \<Rightarrow> [])"

definition new_reasoning :: "json \<Rightarrow> string" where
  "new_reasoning delta =
     (case Option.bind (or_else (json_get delta ''reasoning_content'') (json_get delta ''reasoning''))
             extract_text_content of
        Some t \<Rightarrow> t | None \<Rightarrow> [])"

definition apply_stream_choice ::
    "openai_env \<Rightarrow> json \<Rightarrow> stream_accumulator \<times> chunk_deltas \<Rightarrow> stream_accumulator \<times> chunk_deltas" where
  "apply_stream_choice env choice s =
     (case s of (acc, deltas) \<Rightarrow>
        let delta = (case json_get choice ''delta'' of Some d \<Rightarrow> d | None \<Rightarrow> JNull);
            content = new_content delta acc;
            reasoning = new_reasoning delta
        in (\<lparr>ac_content = ac_content acc @ content, ac_reasoning = ac_reasoning acc @ reasoning,
             ac_finish_reason = (case json_finish_reason choice of
                                   Some reason \<Rightarrow> reason | None \<Rightarrow> ac_finish_reason acc),
             ac_usage = ac_usage acc,
             ac_calls = foldl (apply_fragment env) (ac_calls acc)
                          (case get_array delta ''tool_calls'' of Some tcs \<Rightarrow> tcs | None \<Rightarrow> [])\<rparr>,
            \<lparr>cd_content = push_text content (cd_content deltas),
             cd_reasoning = push_text reasoning (cd_reasoning deltas)\<rparr>))"

definition apply_chunk ::
    "openai_env \<Rightarrow> json \<Rightarrow> stream_accumulator \<Rightarrow> string + stream_accumulator \<times> chunk_deltas" where
  "apply_chunk env chunk acc =
     (case error_message_from_value chunk of
        Some message \<Rightarrow> Inl message
      | None \<Rightarrow>
          (let acc = (case json_get chunk ''usage'' of
                        Some usage \<Rightarrow> acc\<lparr>ac_usage := parse_usage env usage\<rparr> | None \<Rightarrow> acc)
           in Inr (case get_array chunk ''choices'' of
                     Some choices \<Rightarrow> foldl (\<lambda>s choice. apply_stream_choice env choice s) (acc, no_deltas) choices
                   | None \<Rightarrow> (acc, no_deltas))))"

fun stream_calls :: "openai_env \<Rightarrow> llm_tool_call list \<Rightarrow> call_fragments list \<Rightarrow> llm_tool_call list" where
  "stream_calls env parsed [] = parsed"
| "stream_calls env parsed (entry # entries) =
     stream_calls env
       (if cf_name entry = [] then parsed
        else parsed @ [openai_tool_call env (length parsed) (cf_name entry) (cf_arguments entry)]) entries"

definition into_response :: "openai_env \<Rightarrow> stream_accumulator \<Rightarrow> llm_response" where
  "into_response env acc =
     \<lparr>lr_content = non_empty (ac_content acc), lr_tool_calls = stream_calls env [] (map snd (ac_calls acc)),
      lr_finish_reason = ac_finish_reason acc, lr_usage = ac_usage acc,
      lr_reasoning_content = non_empty (ac_reasoning acc), lr_thinking_blocks = None\<rparr>"

section \<open>Server-sent events\<close>

definition position :: "string \<Rightarrow> string \<Rightarrow> nat option" where
  "position needle buffer =
     find_map (\<lambda>i. if prefix needle (drop i buffer) then Some i else None) [0..<length buffer]"

definition CRLFCRLF :: string where "CRLFCRLF = [CR, NL, CR, NL]"
definition LFLF :: string where "LFLF = [NL, NL]"

definition find_event_boundary :: "string \<Rightarrow> (nat \<times> nat) option" where
  "find_event_boundary buffer =
     (case position CRLFCRLF buffer of
        Some pos \<Rightarrow> Some (pos, 4)
      | None \<Rightarrow> map_option (\<lambda>pos. (pos, 2)) (position LFLF buffer))"

datatype sse_data = SseDone | SseJson json

definition strip_crs :: "string \<Rightarrow> string" where
  "strip_crs line = rev (dropWhile (\<lambda>c. c = CR) (rev line))"

definition data_part :: "string \<Rightarrow> string option" where
  "data_part line =
     (if prefix ''data:'' (strip_crs line)
      then (let rest = drop 5 (strip_crs line) in Some (if prefix '' '' rest then drop 1 rest else rest))
      else None)"

definition parse_sse_data :: "openai_env \<Rightarrow> string \<Rightarrow> (string + sse_data) option" where
  "parse_sse_data env raw =
     (let parts = List.map_filter data_part (str_lines raw)
      in if parts = [] then None
         else if trim (join [NL] parts) = ''[DONE]'' then Some (Inr SseDone)
         else Some (case oe_parse env (join [NL] parts) of
                      Inl e \<Rightarrow> Inl (''failed to parse SSE chunk: '' @ e)
                    | Inr value \<Rightarrow> (case error_message_from_value value of
                                     Some message \<Rightarrow> Inl message | None \<Rightarrow> Inr (SseJson value))))"

text \<open>The event, if there is one to return, and the rest of the buffer.\<close>

definition take_sse_event :: "openai_env \<Rightarrow> string \<Rightarrow> (string + sse_data) option \<times> string" where
  "take_sse_event env buffer =
     (case find_event_boundary buffer of
        None \<Rightarrow> (None, buffer)
      | Some (split_pos, delim_len) \<Rightarrow>
          (parse_sse_data env (oe_lossy env (take split_pos buffer)), drop (split_pos + delim_len) buffer))"

section \<open>Reading a byte stream\<close>

definition MAX_SSE_BUFFER_BYTES :: nat where "MAX_SSE_BUFFER_BYTES = 1024 * 1024"

datatype net_item = Bytes string | NetError string | Stalls

definition option_list :: "('a \<Rightarrow> 'b) \<Rightarrow> 'a option \<Rightarrow> 'b list" where
  "option_list f o' = (case o' of Some x \<Rightarrow> [f x] | None \<Rightarrow> [])"

definition delta_callbacks :: "chunk_deltas \<Rightarrow> stream_event list" where
  "delta_callbacks deltas =
     option_list ContentDelta (cd_content deltas) @ option_list ReasoningDelta (cd_reasoning deltas)"

definition end_callbacks :: "stream_accumulator \<Rightarrow> stream_event list" where
  "end_callbacks acc = (if ac_reasoning acc \<noteq> [] then [ReasoningEnd] else [])"

datatype reading =
  Reads stream_accumulator string "stream_event list"
  | Responds "llm_response \<times> stream_event list"

definition finish_stream :: "openai_env \<Rightarrow> stream_accumulator \<Rightarrow> stream_event list \<Rightarrow>
     llm_response \<times> stream_event list" where
  "finish_stream env acc told = (into_response env acc, told @ end_callbacks acc)"

definition stream_error :: "string \<Rightarrow> stream_event list \<Rightarrow> llm_response \<times> stream_event list" where
  "stream_error message told = (error_response message, told)"

text \<open>\<open>while let Some(event) = take_sse_event(&mut buffer)\<close>.\<close>

lemma boundary_positive: "find_event_boundary buffer = Some (pos, len) \<Longrightarrow> 0 < len \<and> pos < length buffer"
  by (auto simp: find_event_boundary_def position_def split: option.splits if_splits dest!: find_map_SomeD)

function (sequential) drain_events ::
    "openai_env \<Rightarrow> stream_accumulator \<Rightarrow> string \<Rightarrow> stream_event list \<Rightarrow> reading" where
  "drain_events env acc buffer told =
     (case take_sse_event env buffer of
        (None, buffer') \<Rightarrow> Reads acc buffer' told
      | (Some (Inl message), buffer') \<Rightarrow> Responds (stream_error message told)
      | (Some (Inr SseDone), buffer') \<Rightarrow> Responds (finish_stream env acc told)
      | (Some (Inr (SseJson chunk)), buffer') \<Rightarrow>
          (case apply_chunk env chunk acc of
             Inl message \<Rightarrow> Responds (stream_error message told)
           | Inr (acc, deltas) \<Rightarrow> drain_events env acc buffer' (told @ delta_callbacks deltas)))"
  by pat_completeness auto
termination
  by (relation "measure (\<lambda>(env, acc, buffer, told). length buffer)")
    (auto simp: take_sse_event_def split: option.splits dest!: boundary_positive)

declare drain_events.simps [simp del]

text \<open>The end of the bytes: what is left may be one more event without its blank line.\<close>

definition ascii_white :: "char \<Rightarrow> bool" where
  "ascii_white c \<longleftrightarrow> (of_char c :: nat) \<in> {9, 10, 12, 13, 32}"

definition end_of_bytes ::
    "openai_env \<Rightarrow> stream_accumulator \<Rightarrow> string \<Rightarrow> stream_event list \<Rightarrow>
     llm_response \<times> stream_event list" where
  "end_of_bytes env acc buffer told =
     (if list_all ascii_white buffer then finish_stream env acc told
      else case fst (take_sse_event env (buffer @ LFLF)) of
        None \<Rightarrow> finish_stream env acc told
      | Some (Inl message) \<Rightarrow> stream_error message told
      | Some (Inr SseDone) \<Rightarrow> finish_stream env acc told
      | Some (Inr (SseJson chunk)) \<Rightarrow>
          (case apply_chunk env chunk acc of
             Inl message \<Rightarrow> stream_error message told
           | Inr (acc, deltas) \<Rightarrow> finish_stream env acc (told @ delta_callbacks deltas)))"

text \<open>One round of the loop, and the loop over what the stream yields; \<open>idle_s\<close> is the timeout.\<close>

definition read_round ::
    "openai_env \<Rightarrow> stream_accumulator \<Rightarrow> string \<Rightarrow> stream_event list \<Rightarrow> reading" where
  "read_round env acc buffer told =
     (case drain_events env acc buffer told of
        Reads acc buffer told \<Rightarrow>
          (if length buffer > MAX_SSE_BUFFER_BYTES
           then Responds (stream_error (''SSE buffer exceeded '' @ show_nat MAX_SSE_BUFFER_BYTES @
                  '' bytes without a complete event'') told)
           else Reads acc buffer told)
      | Responds answer \<Rightarrow> Responds answer)"

fun read_stream ::
    "openai_env \<Rightarrow> nat \<Rightarrow> stream_accumulator \<Rightarrow> string \<Rightarrow> stream_event list \<Rightarrow> net_item list \<Rightarrow>
     llm_response \<times> stream_event list" where
  "read_stream env idle_s acc buffer told [] =
     (case read_round env acc buffer told of
        Reads acc buffer told \<Rightarrow> end_of_bytes env acc buffer told
      | Responds answer \<Rightarrow> answer)"
| "read_stream env idle_s acc buffer told (item # items) =
     (case read_round env acc buffer told of
        Reads acc buffer told \<Rightarrow>
          (case item of
             Bytes chunk \<Rightarrow> read_stream env idle_s acc (buffer @ chunk) told items
           | NetError e \<Rightarrow> stream_error (''Error in HTTP stream: '' @ e) told
           | Stalls \<Rightarrow> stream_error (''Error calling LLM: stream stalled for more than '' @
                          show_nat idle_s @ '' seconds'') told)
      | Responds answer \<Rightarrow> answer)"

definition consume_sse_byte_stream ::
    "openai_env \<Rightarrow> nat \<Rightarrow> net_item list \<Rightarrow> llm_response \<times> stream_event list" where
  "consume_sse_byte_stream env idle_s items =
     read_stream env idle_s accumulator_new [] [] items"

end
