(* ===== verification/Openai_Request.thy ===== *)
theory Openai_Request
  imports Openai_Stream
begin

text \<open>
  What is sent to an OpenAI-compatible gateway: the clean-up of a prompt every provider shares
  (\<open>sanitize_empty_content\<close>, \<open>sanitize_request_messages\<close>, the tool cache markers of
  \<open>src/providers/base.rs\<close>), \<open>src/providers/cache_control.rs\<close>, \<open>src/providers/sanitizer.rs\<close> and the
  request half of \<open>src/providers/openai_compat_provider.rs\<close>, up to the two requests of the HTTP
  client, which are the operations of a \<open>network\<close>.

  The environment variables the constructor sets, headers and log lines are left out.
\<close>

section \<open>Cleaning a prompt\<close>

text \<open>\<open>Map::remove\<close> with \<open>preserve_order\<close>: the last entry takes the place of the removed one.\<close>

fun obj_swap_remove :: "string \<Rightarrow> json_object \<Rightarrow> json_object" where
  "obj_swap_remove k [] = []"
| "obj_swap_remove k ((k', v) # m) =
     (if k = k' then (if m = [] then [] else last m # butlast m) else (k', v) # obj_swap_remove k m)"

definition requests_calls :: "json \<Rightarrow> bool" where
  "requests_calls msg \<longleftrightarrow>
     get_str msg ''role'' = Some ''assistant'' \<and>
     (case json_get msg ''tool_calls'' of Some tc \<Rightarrow> tc \<noteq> JNull | None \<Rightarrow> False)"

definition empty_content :: "json \<Rightarrow> json" where
  "empty_content msg = (if requests_calls msg then JNull else JString ''(empty)'')"

definition TEXT_TYPES :: "string list" where "TEXT_TYPES = [''text'', ''input_text'', ''output_text'']"

definition is_empty_text_item :: "json_object \<Rightarrow> bool" where
  "is_empty_text_item item \<longleftrightarrow>
     (case Option.bind (obj_get item ''type'') as_str of Some t \<Rightarrow> t \<in> set TEXT_TYPES | None \<Rightarrow> False) \<and>
     Option.bind (obj_get item ''text'') as_str \<in> {None, Some []}"

definition clean_item :: "json \<Rightarrow> json list" where
  "clean_item item =
     (case item of
        JObject m \<Rightarrow>
          (if is_empty_text_item m then []
           else if obj_get m ''_meta'' \<noteq> None then [JObject (filter (\<lambda>(k, _). k \<noteq> ''_meta'') m)]
           else [item])
      | _ \<Rightarrow> [item])"

definition is_clean_item :: "json \<Rightarrow> bool" where
  "is_clean_item item \<longleftrightarrow>
     (case item of JObject m \<Rightarrow> \<not> is_empty_text_item m \<and> obj_get m ''_meta'' = None | _ \<Rightarrow> True)"

definition sanitize_message :: "json \<Rightarrow> json" where
  "sanitize_message msg =
     (case json_get msg ''content'' of
        Some (JString s) \<Rightarrow> (if s = [] then with_content (empty_content msg) msg else msg)
      | Some (JArray items) \<Rightarrow>
          (if list_all is_clean_item items then msg
           else with_content
             (if concat (map clean_item items) = [] then empty_content msg
              else JArray (concat (map clean_item items))) msg)
      | Some (JObject m) \<Rightarrow> with_content (JArray [JObject m]) msg
      | _ \<Rightarrow> msg)"

definition sanitize_empty_content :: "json list \<Rightarrow> json list" where
  "sanitize_empty_content messages = map sanitize_message messages"

definition keep_allowed :: "string list \<Rightarrow> json \<Rightarrow> json" where
  "keep_allowed allowed_keys msg =
     (case msg of
        JObject obj \<Rightarrow>
          (let clean = filter (\<lambda>(k, _). k \<in> set allowed_keys) obj
           in JObject
                (if get_str (JObject clean) ''role'' = Some ''assistant'' \<and> obj_get clean ''content'' = None
                 then obj_insert ''content'' JNull clean else clean))
      | _ \<Rightarrow> msg)"

definition sanitize_request_messages :: "json list \<Rightarrow> string list \<Rightarrow> json list" where
  "sanitize_request_messages messages allowed_keys = map (keep_allowed allowed_keys) messages"

section \<open>Cache markers\<close>

definition strip_internal_tool_fields :: "json list \<Rightarrow> json list" where
  "strip_internal_tool_fields tools =
     map (\<lambda>tool. case tool of JObject m \<Rightarrow> JObject (obj_swap_remove CACHE_BOUNDARY_KEY m) | _ \<Rightarrow> tool) tools"

definition cache_marker :: json where
  "cache_marker = JObject [(''type'', JString ''ephemeral'')]"

definition mark_message :: "json \<Rightarrow> json" where
  "mark_message msg =
     (case json_get msg ''content'' of
        Some (JString content) \<Rightarrow>
          with_content (JArray [JObject [(''type'', JString ''text''), (''text'', JString content),
                                         (''cache_control'', cache_marker)]]) msg
      | Some (JArray arr) \<Rightarrow>
          (if arr = [] then msg
           else case last arr of
             JObject m \<Rightarrow> with_content (JArray (butlast arr @ [JObject (obj_insert ''cache_control'' cache_marker m)])) msg
           | _ \<Rightarrow> msg)
      | _ \<Rightarrow> msg)"

definition mark_first :: "json list \<Rightarrow> json list" where
  "mark_first messages =
     (case messages of
        [] \<Rightarrow> []
      | m # ms \<Rightarrow> (if get_str m ''role'' = Some ''system'' then mark_message m else m) # ms)"

definition mark_before_last :: "json list \<Rightarrow> json list" where
  "mark_before_last messages =
     (if 3 \<le> length messages
      then messages[length messages - 2 := mark_message (messages ! (length messages - 2))] else messages)"

definition mark_tools :: "json list \<Rightarrow> json list" where
  "mark_tools tools =
     (if tools = [] then []
      else case last tools of
        JObject m \<Rightarrow> butlast tools @ [JObject (obj_insert ''cache_control'' cache_marker m)]
      | _ \<Rightarrow> tools)"

definition apply_cache_control :: "json list \<Rightarrow> json list option \<Rightarrow> json list \<times> json list option" where
  "apply_cache_control messages tools = (mark_before_last (mark_first messages), map_option mark_tools tools)"

text \<open>The markers of the Anthropic provider: the end of the built-in tools, and the last tool.\<close>

definition tool_name_of :: "json \<Rightarrow> string" where
  "tool_name_of tool =
     (case get_str tool ''name'' of
        Some name \<Rightarrow> name
      | None \<Rightarrow> call_function_name tool)"

definition is_flagged :: "json \<Rightarrow> bool" where
  "is_flagged tool \<longleftrightarrow> Option.bind (json_get tool CACHE_BOUNDARY_KEY) as_bool = Some True"

definition last_builtin :: "json list \<Rightarrow> nat option" where
  "last_builtin tools =
     or_else (find_map (\<lambda>i. if is_flagged (tools ! i) then Some i else None) [0..<length tools])
       (find_map (\<lambda>i. if prefix ''mcp_'' (tool_name_of (tools ! i)) then None else Some i) (rev [0..<length tools]))"

definition tool_cache_marker_indices :: "json list option \<Rightarrow> nat list option" where
  "tool_cache_marker_indices tools =
     map_option
       (\<lambda>tools. if tools = [] then []
                else (case last_builtin tools of
                        Some i \<Rightarrow> if i = length tools - 1 then [i] else [i, length tools - 1]
                      | None \<Rightarrow> [length tools - 1])) tools"

section \<open>Message ids\<close>

definition is_ascii_alnum :: "char \<Rightarrow> bool" where
  "is_ascii_alnum c \<longleftrightarrow>
     (let n = (of_char c :: nat) in (48 \<le> n \<and> n \<le> 57) \<or> (65 \<le> n \<and> n \<le> 90) \<or> (97 \<le> n \<and> n \<le> 122))"

definition normalize_id :: "openai_env \<Rightarrow> string \<Rightarrow> string" where
  "normalize_id env s =
     (if length s = 9 \<and> list_all is_ascii_alnum s then s else take 9 (oe_sha1_hex env s))"

fun normalize_tool_call_id :: "openai_env \<Rightarrow> json \<Rightarrow> json" where
  "normalize_tool_call_id env (JString s) = JString (normalize_id env s)"
| "normalize_tool_call_id env v = v"

definition ALLOWED_MSG_KEYS :: "string list" where
  "ALLOWED_MSG_KEYS = [''role'', ''content'', ''tool_calls'', ''tool_call_id'', ''name'',
     ''reasoning_content'', ''extra_content'']"

type_synonym id_map = "(string \<times> string) list"

text \<open>An id is normalized once; the map remembers it.\<close>

definition map_id :: "openai_env \<Rightarrow> id_map \<Rightarrow> json \<Rightarrow> id_map \<times> json" where
  "map_id env ids value =
     (case value of
        JString s \<Rightarrow>
          (case map_of ids s of
             Some v \<Rightarrow> (ids, JString v)
           | None \<Rightarrow> (AList.update s (normalize_id env s) ids, JString (normalize_id env s)))
      | _ \<Rightarrow> (ids, value))"

fun map_call_ids :: "openai_env \<Rightarrow> id_map \<Rightarrow> json list \<Rightarrow> id_map \<times> json list" where
  "map_call_ids env ids [] = (ids, [])"
| "map_call_ids env ids (tc # tcs) =
     (case tc of
        JObject m \<Rightarrow>
          (let (ids, v) = map_id env ids (case obj_get m ''id'' of Some v \<Rightarrow> v | None \<Rightarrow> JNull);
               (ids, rest) = map_call_ids env ids tcs
           in (ids, JObject (obj_insert ''id'' v m) # rest))
      | _ \<Rightarrow> (let (ids, rest) = map_call_ids env ids tcs in (ids, tc # rest)))"

fun with_field :: "string \<Rightarrow> json \<Rightarrow> json \<Rightarrow> json" where
  "with_field k value (JObject m) = JObject (obj_insert k value m)"
| "with_field k value message = message"

definition map_declared :: "openai_env \<Rightarrow> id_map \<Rightarrow> json \<Rightarrow> id_map \<times> json" where
  "map_declared env ids msg =
     (case get_array msg ''tool_calls'' of
        Some tcs \<Rightarrow> (let (ids, tcs) = map_call_ids env ids tcs in (ids, with_field ''tool_calls'' (JArray tcs) msg))
      | None \<Rightarrow> (ids, msg))"

definition map_answered :: "openai_env \<Rightarrow> id_map \<Rightarrow> json \<Rightarrow> id_map \<times> json" where
  "map_answered env ids msg =
     (case json_get msg ''tool_call_id'' of
        Some v \<Rightarrow> (if v = JNull then (ids, msg)
                   else let (ids, v) = map_id env ids v in (ids, with_field ''tool_call_id'' v msg))
      | None \<Rightarrow> (ids, msg))"

fun map_message_ids :: "openai_env \<Rightarrow> id_map \<Rightarrow> json list \<Rightarrow> json list" where
  "map_message_ids env ids [] = []"
| "map_message_ids env ids (msg # msgs) =
     (let (ids, msg) = map_declared env ids msg;
          (ids, msg) = map_answered env ids msg
      in msg # map_message_ids env ids msgs)"

definition sanitize_messages :: "openai_env \<Rightarrow> json list \<Rightarrow> json list" where
  "sanitize_messages env messages =
     map_message_ids env [] (sanitize_request_messages messages ALLOWED_MSG_KEYS)"

section \<open>The messages of a request\<close>

definition is_text_part :: "json \<Rightarrow> bool" where
  "is_text_part block \<longleftrightarrow>
     get_str block ''type'' \<in> {None, Some ''text''} \<and> get_str block ''text'' \<notin> {None, Some []}"

definition text_content_parts :: "json list \<Rightarrow> json list" where
  "text_content_parts blocks = filter is_text_part blocks"

definition system_message_content :: "json option \<Rightarrow> json" where
  "system_message_content content =
     (case content of
        Some (JString t) \<Rightarrow> JString t
      | Some (JArray blocks) \<Rightarrow>
          (if text_content_parts blocks = [] then JString [] else JArray (text_content_parts blocks))
      | _ \<Rightarrow> JString [])"

definition assistant_message_content :: "json option \<Rightarrow> json option" where
  "assistant_message_content content =
     (case content of
        Some (JString t) \<Rightarrow> (if t = [] then None else Some (JString t))
      | Some (JArray blocks) \<Rightarrow>
          (if text_content_parts blocks = [] then None else Some (JArray (text_content_parts blocks)))
      | _ \<Rightarrow> None)"

definition is_user_part :: "json \<Rightarrow> bool" where
  "is_user_part block \<longleftrightarrow>
     get_str block ''type'' = Some ''text'' \<or>
     get_str block ''type'' = Some ''image_url'' \<and>
     Option.bind (json_get block ''image_url'') (\<lambda>u. get_str u ''url'') \<notin> {None, Some []}"

definition user_message_content :: "json option \<Rightarrow> json" where
  "user_message_content content =
     (case content of
        Some (JArray blocks) \<Rightarrow>
          (if filter is_user_part blocks = [] then JString [] else JArray (filter is_user_part blocks))
      | Some (JString t) \<Rightarrow> JString t
      | _ \<Rightarrow> JString [])"

definition request_call :: "openai_env \<Rightarrow> json \<Rightarrow> json option" where
  "request_call env tc =
     Option.bind (get_str tc ''id'') (\<lambda>id.
     Option.bind (json_get tc ''function'') (\<lambda>func.
     map_option (\<lambda>name.
       JObject
         ([(''id'', JString id), (''type'', JString ''function''),
           (''function'', JObject
              [(''name'', JString name),
               (''arguments'', JString (case json_get func ''arguments'' of
                                          Some (JString s) \<Rightarrow> s
                                        | Some a \<Rightarrow> vo_show_json (oe_ops env) a
                                        | None \<Rightarrow> []))])] @
          (case json_get tc ''extra_content'' of Some extra \<Rightarrow> [(''extra_content'', extra)] | None \<Rightarrow> [])))
       (get_str func ''name'')))"

definition assistant_tool_calls :: "openai_env \<Rightarrow> json option \<Rightarrow> json option" where
  "assistant_tool_calls env tool_calls =
     (case Option.bind tool_calls as_array of
        None \<Rightarrow> None
      | Some arr \<Rightarrow>
          (let tcs = List.map_filter (request_call env) arr in if tcs = [] then None else Some (JArray tcs)))"

definition optional_entry :: "string \<Rightarrow> json option \<Rightarrow> json_object" where
  "optional_entry k v = (case v of Some v \<Rightarrow> [(k, v)] | None \<Rightarrow> [])"

definition passed_on :: "json \<Rightarrow> string \<Rightarrow> json_object" where
  "passed_on msg key = optional_entry key (case json_get msg key of Some JNull \<Rightarrow> None | v \<Rightarrow> v)"

definition tool_content_text :: "openai_env \<Rightarrow> json option \<Rightarrow> string" where
  "tool_content_text env content =
     (case content of Some (JString s) \<Rightarrow> s | Some c \<Rightarrow> vo_show_json (oe_ops env) c | None \<Rightarrow> [])"

definition map_request_message :: "openai_env \<Rightarrow> json \<Rightarrow> json" where
  "map_request_message env msg =
     (let role = (case get_str msg ''role'' of Some r \<Rightarrow> r | None \<Rightarrow> ''user'');
          content = json_get msg ''content'';
          body =
            (if role = ''system'' then [(''content'', system_message_content content)]
             else if role = ''assistant''
             then optional_entry ''content'' (assistant_message_content content) @
                  optional_entry ''tool_calls'' (assistant_tool_calls env (json_get msg ''tool_calls''))
             else if role = ''tool''
             then [(''content'', JString (tool_content_text env content)),
                   (''tool_call_id'', JString (str_or_empty msg ''tool_call_id''))]
             else [(''content'', user_message_content content)])
      in JObject ((''role'', JString role) # passed_on msg ''name'' @ passed_on msg ''reasoning_content'' @
                  passed_on msg ''extra_content'' @ body))"

section \<open>The request\<close>

record provider_spec =
  ps_strip_model_prefix :: bool
  ps_supports_prompt_caching :: bool
  ps_default_api_base :: "string option"

record openai_provider =
  op_spec :: "provider_spec option"
  op_default_model :: "string option"
  op_url :: string

definition DEFAULT_API_BASE :: string where "DEFAULT_API_BASE = ''https://api.openai.com/v1''"
definition DEFAULT_MODEL :: string where "DEFAULT_MODEL = ''gpt-6-luna''"

definition strip_slashes :: "string \<Rightarrow> string" where
  "strip_slashes s = rev (dropWhile (\<lambda>c. c = CHR ''/'') (rev s))"

definition openai_provider_new ::
    "string option \<Rightarrow> string option \<Rightarrow> provider_spec option \<Rightarrow> openai_provider" where
  "openai_provider_new api_base default_model spec =
     (let base = or_else api_base (Option.bind spec ps_default_api_base)
      in \<lparr>op_spec = spec,
          op_default_model = Some (case default_model of Some m \<Rightarrow> m | None \<Rightarrow> DEFAULT_MODEL),
          op_url = strip_slashes (case base of Some b \<Rightarrow> b | None \<Rightarrow> DEFAULT_API_BASE) @ ''/chat/completions''\<rparr>)"

definition get_default_model :: "openai_provider \<Rightarrow> string" where
  "get_default_model p = (case op_default_model p of Some m \<Rightarrow> m | None \<Rightarrow> DEFAULT_MODEL)"

definition is_direct_openai_api :: "openai_provider \<Rightarrow> bool" where
  "is_direct_openai_api p \<longleftrightarrow> op_url p = DEFAULT_API_BASE @ ''/chat/completions''"

definition max_tokens_key :: "bool \<Rightarrow> string" where
  "max_tokens_key direct = (if direct then ''max_completion_tokens'' else ''max_tokens'')"

text \<open>\<open>rsplit('/').next()\<close>.\<close>

definition last_segment :: "string \<Rightarrow> string" where
  "last_segment s = rev (takeWhile (\<lambda>c. c \<noteq> CHR ''/'') (rev s))"

definition request_model_name :: "openai_provider \<Rightarrow> string option \<Rightarrow> string" where
  "request_model_name p model =
     (let name = (case model of Some m \<Rightarrow> m | None \<Rightarrow> get_default_model p)
      in case op_spec p of
           Some spec \<Rightarrow> (if ps_strip_model_prefix spec then last_segment name else name)
         | None \<Rightarrow> name)"

definition cached_prompt ::
    "openai_provider \<Rightarrow> json list \<Rightarrow> json list option \<Rightarrow> json list \<times> json list option" where
  "cached_prompt p messages tools =
     (case op_spec p of
        Some spec \<Rightarrow>
          (if ps_supports_prompt_caching spec
           then (case apply_cache_control messages tools of
                   (messages, cached_tools) \<Rightarrow> (messages, or_else cached_tools tools))
           else (messages, tools))
      | None \<Rightarrow> (messages, tools))"

definition wire_messages :: "openai_env \<Rightarrow> json list \<Rightarrow> json list" where
  "wire_messages env messages =
     map (map_request_message env) (sanitize_messages env (sanitize_empty_content messages))"

definition json_usize :: "nat \<Rightarrow> json" where
  "json_usize n = JNumber (PosInt (ucast (of_nat n :: u32)))"

text \<open>\<open>of_f32\<close> is the JSON value of an \<open>f32\<close>.\<close>

definition build_request :: "openai_env \<Rightarrow> (u32 \<Rightarrow> json) \<Rightarrow> openai_provider \<Rightarrow> chat_request \<Rightarrow> json_object" where
  "build_request env of_f32 p rq =
     (let (messages, tools) = cached_prompt p (cr_messages rq) (cr_tools rq);
          direct = is_direct_openai_api p;
          request = [(''model'', JString (request_model_name p (cr_model rq))),
                     (''messages'', JArray (wire_messages env messages)),
                     (max_tokens_key direct, json_usize (cr_max_tokens rq))];
          request = (case cr_temperature rq of
                       Some t \<Rightarrow> obj_insert ''temperature'' (of_f32 t) request | None \<Rightarrow> request);
          request = (case tools of
                       Some (t # ts) \<Rightarrow>
                         obj_insert ''tools'' (JArray (strip_internal_tool_fields (t # ts))) request
                     | _ \<Rightarrow> request);
          request = (if direct then obj_insert ''reasoning_effort'' (JString ''none'') request
                     else case Option.bind (cr_reasoning_effort rq) non_empty of
                       Some effort \<Rightarrow> obj_insert ''reasoning_effort'' (JString effort) request
                     | None \<Rightarrow> request)
      in case cr_tool_choice rq of
           Some tc \<Rightarrow> obj_insert ''tool_choice'' tc request | None \<Rightarrow> request)"

definition apply_stream_flags :: "json_object \<Rightarrow> json_object" where
  "apply_stream_flags body =
     obj_insert ''stream_options'' (JObject [(''include_usage'', JBool True)])
       (obj_insert ''stream'' (JBool True) body)"

section \<open>Errors of the transport\<close>

definition describe_error_chain :: "string \<Rightarrow> string list \<Rightarrow> string" where
  "describe_error_chain error sources =
     foldl (\<lambda>description cause. if sublist cause description then description
                                else description @ '': '' @ cause) error sources"

text \<open>\<open>split_whitespace\<close>; the fuel is the length, one step per byte.\<close>

fun split_white :: "nat \<Rightarrow> string \<Rightarrow> string \<Rightarrow> string list" where
  "split_white (Suc n) word (c # cs) =
     (case List.find (\<lambda>w. prefix w (c # cs)) white_chars of
        Some w \<Rightarrow> (if word = [] then [] else [word]) @ split_white n [] (drop (length w) (c # cs))
      | None \<Rightarrow> split_white n (word @ [c]) cs)"
| "split_white n word s = (if word = [] then [] else [word])"

definition BODY_PREVIEW_MAX_CHARS :: nat where "BODY_PREVIEW_MAX_CHARS = 300"

definition body_preview :: "string \<Rightarrow> string" where
  "body_preview body =
     (let one_line = join '' '' (split_white (length body) [] body)
      in if one_line = [] then ''(empty)''
         else take_chars BODY_PREVIEW_MAX_CHARS one_line @
              (if count_chars one_line > BODY_PREVIEW_MAX_CHARS then [CHR 0xE2, CHR 0x80, CHR 0xA6] else []))"

definition api_error_message_from_json :: "openai_env \<Rightarrow> string \<Rightarrow> string option" where
  "api_error_message_from_json env raw =
     (case oe_parse env raw of Inr v \<Rightarrow> error_message_from_value v | Inl _ \<Rightarrow> None)"

definition extract_api_error_message :: "openai_env \<Rightarrow> string \<Rightarrow> string" where
  "extract_api_error_message env raw =
     (case or_else (api_error_message_from_json env raw)
             (if CHR ''{'' \<in> set raw
              then api_error_message_from_json env (dropWhile (\<lambda>c. c \<noteq> CHR ''{'') raw) else None) of
        Some message \<Rightarrow> message | None \<Rightarrow> raw)"

text \<open>
  A finished HTTP exchange: the client failed to send (the error and its sources), or there is a
  status (its \<open>Display\<close>, whether it is a success) and a body, or an error reading it.
\<close>

datatype http_result =
  SendFailed string "string list"
  | BodyFailed string string "string list"
  | Answered string bool string

definition parse_chat_response_body ::
    "openai_env \<Rightarrow> string \<Rightarrow> bool \<Rightarrow> string \<Rightarrow> string \<Rightarrow> string + json" where
  "parse_chat_response_body env status success body url =
     (if \<not> success
      then Inl (''HTTP '' @ status @ '': '' @ body_preview (extract_api_error_message env body))
      else case oe_parse env body of
        Inr v \<Rightarrow> Inr v
      | Inl e \<Rightarrow> Inl (''invalid JSON response (HTTP '' @ status @ '') from '' @ url @ '': '' @ e @
                     ''; body starts: '' @ body_preview body))"

definition chat_raw :: "openai_env \<Rightarrow> string \<Rightarrow> http_result \<Rightarrow> string + json" where
  "chat_raw env url result =
     (case result of
        SendFailed e sources \<Rightarrow> Inl (''request to '' @ url @ '' failed: '' @ describe_error_chain e sources)
      | BodyFailed status e sources \<Rightarrow>
          Inl (''failed to read the response body (HTTP '' @ status @ '') from '' @ url @ '': '' @
               describe_error_chain e sources)
      | Answered status success body \<Rightarrow> parse_chat_response_body env status success body url)"

datatype stream_result =
  StreamSendFailed string "string list"
  | StreamRefused string string
  | Streams "net_item list"

section \<open>The provider\<close>

record 'n network =
  nw_post :: "json \<Rightarrow> 'n \<Rightarrow> http_result \<times> 'n"
  nw_stream :: "json \<Rightarrow> 'n \<Rightarrow> stream_result \<times> 'n"
  nw_idle_timeout_s :: nat

definition openai_chat ::
    "openai_env \<Rightarrow> (u32 \<Rightarrow> json) \<Rightarrow> openai_provider \<Rightarrow> 'n network \<Rightarrow> chat_request \<Rightarrow> 'n \<Rightarrow>
     llm_response \<times> 'n" where
  "openai_chat env of_f32 p network rq n =
     (case nw_post network (JObject (build_request env of_f32 p rq)) n of
        (result, n) \<Rightarrow>
          ((case chat_raw env (op_url p) result of
              Inr response \<Rightarrow> parse_response env response
            | Inl e \<Rightarrow> error_response e), n))"

definition openai_chat_stream ::
    "openai_env \<Rightarrow> (u32 \<Rightarrow> json) \<Rightarrow> openai_provider \<Rightarrow> 'n network \<Rightarrow> chat_request \<Rightarrow> 'n \<Rightarrow>
     (llm_response \<times> stream_event list) \<times> 'n" where
  "openai_chat_stream env of_f32 p network rq n =
     (case nw_stream network (JObject (apply_stream_flags (build_request env of_f32 p rq))) n of
        (result, n) \<Rightarrow>
          ((case result of
              StreamSendFailed e sources \<Rightarrow>
                (error_response (''request to '' @ op_url p @ '' failed: '' @ describe_error_chain e sources), [])
            | StreamRefused status body \<Rightarrow>
                (let message = extract_api_error_message env body
                 in (error_response (if message = [] then ''HTTP '' @ status @ '': '' @ body else message), []))
            | Streams items \<Rightarrow> consume_sse_byte_stream env (nw_idle_timeout_s network) items), n))"

definition openai_backend ::
    "openai_env \<Rightarrow> (u32 \<Rightarrow> json) \<Rightarrow> openai_provider \<Rightarrow> 'n network \<Rightarrow> 'n backend" where
  "openai_backend env of_f32 p network =
     \<lparr>be_chat = (\<lambda>rq n. case openai_chat env of_f32 p network rq n of (response, n) \<Rightarrow> (Inr response, n)),
      be_chat_stream = (\<lambda>rq n.
        case openai_chat_stream env of_f32 p network rq n of
          ((response, events), n) \<Rightarrow> ((Inr response, events), n))\<rparr>"

end
