(* ===== verification/Context_Laws.thy ===== *)
theory Context_Laws
  imports Context_Governance
begin

text \<open>
  What holds of the prompt the runner builds: the repair of the history is the recursive reference
  \<open>fill_calls\<close> (every assistant message, the results behind it, then one synthetic result per
  unanswered call), collapsing and cutting change nothing but the content of tool messages, and
  \<open>snip_history\<close> keeps the system messages and the current turn, drops or thins older turns, never
  leaves a result without its call and stays within the remaining budget.
\<close>

section \<open>Repairing the history\<close>

lemma is_tool_role [simp]: "is_tool m \<Longrightarrow> role_of m = ''tool''"
  by (simp add: has_role_def str_or_empty_def)

lemma message_calls_tool [simp]: "is_tool m \<Longrightarrow> message_calls m = []"
  by (simp add: message_calls_def)

lemma map_fst_message_calls: "map fst (message_calls m) = declared_ids m"
proof -
  have "map fst (List.map_filter (\<lambda>call. map_option (\<lambda>id. (id, call_function_name call)) (get_str call ''id'')) cs) =
        List.map_filter (\<lambda>call. get_str call ''id'') cs" for cs
    by (induction cs) (auto simp: List.map_filter_simps split: option.splits)
  then show ?thesis
    by (simp add: message_calls_def declared_ids_def tool_call_ids_def split: option.splits)
qed

lemma declared_calls_Nil [simp]: "declared_calls b [] = []"
  by (simp add: declared_calls_def)

lemma declared_calls_Cons [simp]:
  "declared_calls b (m # ms) = map (Pair b) (message_calls m) @ declared_calls (Suc b) ms"
  by (simp add: declared_calls_def)

lemma declared_calls_tools [simp]:
  "\<forall>m \<in> set ts. is_tool m \<Longrightarrow> declared_calls b (ts @ ms) = declared_calls (b + length ts) ms"
  by (induction ts arbitrary: b) auto

text \<open>The reference: the synthetic results come behind the results that are there.\<close>

definition missing_calls :: "string set \<Rightarrow> json \<Rightarrow> (string \<times> string) list" where
  "missing_calls fulfilled m = filter (\<lambda>(call_id, _). call_id \<notin> fulfilled) (message_calls m)"

function fill_calls :: "string set \<Rightarrow> json list \<Rightarrow> json list" where
  "fill_calls fulfilled [] = []"
| "fill_calls fulfilled (m # ms) =
     m # takeWhile is_tool ms @ map synthetic_result (missing_calls fulfilled m) @
     fill_calls fulfilled (dropWhile is_tool ms)"
  by pat_completeness auto
termination by (relation "measure (\<lambda>(_, ms). length ms)") (auto simp: less_Suc_eq_le length_dropWhile_le)

lemma is_tool_synthetic [simp]: "is_tool (synthetic_result c)"
  by (cases c) (simp add: synthetic_result_def has_role_def get_str_def)

lemma answered_synthetic [simp]: "answered_id (synthetic_result c) = Some (fst c)"
  by (cases c) (simp add: synthetic_result_def answered_id_def get_str_def str_or_empty_def)

lemma skip_tools_run:
  "\<forall>m \<in> set ts. is_tool m \<Longrightarrow> k \<le> length ts \<Longrightarrow>
   (case rest of [] \<Rightarrow> True | m # _ \<Rightarrow> \<not> is_tool m) \<Longrightarrow>
   skip_tools (pre @ ts @ rest) (length pre + k) = length pre + length ts"
proof (induction "length ts - k" arbitrary: k)
  case 0
  then show ?case by (subst skip_tools.simps) (auto simp: nth_append split: list.splits)
next
  case (Suc n)
  then have "k < length ts" by simp
  then have "skip_tools (pre @ ts @ rest) (length pre + k) = skip_tools (pre @ ts @ rest) (length pre + Suc k)"
    using Suc.prems(1) by (subst skip_tools.simps) (simp add: nth_append)
  moreover have "skip_tools (pre @ ts @ rest) (length pre + Suc k) = length pre + length ts"
    using Suc by (intro Suc.hyps) auto
  ultimately show ?case by simp
qed

lemma insert_at_length: "insert_at (length pre) x (pre @ ys) = pre @ x # ys"
  by (simp add: insert_at_def)

text \<open>Inserting the calls of one assistant message, whose run of results \<open>ts\<close> grows.\<close>

lemma insert_calls_of_one:
  assumes "\<forall>m \<in> set ts. is_tool m" "b \<le> length ts"
    "case rest of [] \<Rightarrow> True | m # _ \<Rightarrow> \<not> is_tool m"
    "length pre = base + offset"
  shows "foldl insert_missing (pre @ m # ts @ rest) (List.enumerate (offset + b) (map (Pair base) cs)) =
         pre @ m # ts @ map synthetic_result cs @ rest"
  using assms(1,2)
proof (induction cs arbitrary: ts b)
  case (Cons c cs)
  have "skip_tools (pre @ m # ts @ rest) (base + 1 + (offset + b)) = length (pre @ m # ts)"
    using skip_tools_run [of ts b rest "pre @ [m]"] Cons.prems assms(3,4) by (simp add: ac_simps)
  then have "insert_missing (pre @ m # ts @ rest) (offset + b, base, c) =
             pre @ m # (ts @ [synthetic_result c]) @ rest"
    using insert_at_length [of "pre @ m # ts" "synthetic_result c" rest] by (simp add: insert_missing_def)
  then show ?case using Cons.IH [of "ts @ [synthetic_result c]" "Suc b"] Cons.prems by simp
qed simp

lemma dropWhile_head: "case dropWhile p xs of [] \<Rightarrow> True | x # _ \<Rightarrow> \<not> p x"
  by (induction xs) auto

lemma filter_Pair: "filter (\<lambda>(_, call_id, _). P call_id) (map (Pair b) cs) = map (Pair b) (filter (\<lambda>(call_id, _). P call_id) cs)"
  by (induction cs) auto

lemma insert_all_missing:
  "length pre = base + offset \<Longrightarrow>
   foldl insert_missing (pre @ ms)
     (List.enumerate offset (filter (\<lambda>(_, call_id, _). call_id \<notin> F) (declared_calls base ms))) =
   pre @ fill_calls F ms"
proof (induction F ms arbitrary: pre base offset rule: fill_calls.induct)
  case (2 F m ms)
  let ?ts = "takeWhile is_tool ms" and ?rest = "dropWhile is_tool ms" and ?cs = "missing_calls F m"
  let ?missing = "\<lambda>xs. filter (\<lambda>(_, call_id, _). call_id \<notin> F) xs"
  let ?pre = "pre @ m # ?ts @ map synthetic_result ?cs"
  have "declared_calls (Suc base) ms = declared_calls (Suc base + length ?ts) ?rest"
    using declared_calls_tools [of ?ts "Suc base" ?rest] by (auto dest: set_takeWhileD)
  then have calls: "?missing (declared_calls base (m # ms)) =
      map (Pair base) ?cs @ ?missing (declared_calls (Suc base + length ?ts) ?rest)"
    by (simp add: missing_calls_def filter_Pair)
  have "foldl insert_missing (pre @ m # ?ts @ ?rest) (List.enumerate (offset + 0) (map (Pair base) ?cs)) =
      pre @ m # ?ts @ map synthetic_result ?cs @ ?rest"
    by (rule insert_calls_of_one) (use 2 dropWhile_head in \<open>auto dest: set_takeWhileD\<close>)
  moreover have "foldl insert_missing (?pre @ ?rest)
      (List.enumerate (offset + length ?cs) (?missing (declared_calls (Suc base + length ?ts) ?rest))) =
      ?pre @ fill_calls F ?rest"
    by (rule 2) (use 2 in simp)
  ultimately show ?case
    unfolding calls by (simp add: enumerate_append_eq)
qed simp

lemma fill_nothing: "filter (\<lambda>(_, call_id, _). call_id \<notin> F) (declared_calls base ms) = [] \<Longrightarrow> fill_calls F ms = ms"
  using insert_all_missing [of "replicate base JNull" base 0 ms F] by simp

lemma backfill_is_fill: "backfill_missing_tool_results ms = fill_calls (fulfilled_ids ms) ms"
  using insert_all_missing [of "[]" 0 0 ms "fulfilled_ids ms"] fill_nothing [of "fulfilled_ids ms" 0 ms]
  by (simp add: backfill_missing_tool_results_def Let_def)

lemma take_drop_tools: "takeWhile is_tool ms @ dropWhile is_tool ms = ms"
  by (rule takeWhile_dropWhile_id)

lemma fill_keeps_messages: "subseq ms (fill_calls F ms)"
proof (induction F ms rule: fill_calls.induct)
  case (2 F m ms)
  have "subseq (takeWhile is_tool ms @ [] @ dropWhile is_tool ms)
     (takeWhile is_tool ms @ map synthetic_result (missing_calls F m) @ fill_calls F (dropWhile is_tool ms))"
    using 2 by (intro list_emb_append_mono) auto
  then show ?case by simp
qed simp

lemma declared_ids_tool [simp]: "is_tool m \<Longrightarrow> declared_ids m = []"
  by (simp add: declared_ids_def)

lemma declared_tools [simp]: "\<forall>m \<in> set ts. is_tool m \<Longrightarrow> concat (map declared_ids ts) = []"
  by (induction ts) auto

lemma declared_takeWhile [simp]: "concat (map declared_ids (takeWhile is_tool ms)) = []"
  by (rule declared_tools) (auto dest: set_takeWhileD)

lemma declared_synthetic [simp]: "concat (map declared_ids (map synthetic_result cs)) = []"
  by (rule declared_tools) auto

lemma declared_dropWhile: "concat (map declared_ids (dropWhile is_tool ms)) = concat (map declared_ids ms)"
  by (induction ms) auto

lemma fill_keeps_declared: "concat (map declared_ids (fill_calls F ms)) = concat (map declared_ids ms)"
  by (induction F ms rule: fill_calls.induct) (simp_all add: declared_dropWhile del: map_map)

lemma fulfilled_Nil [simp]: "fulfilled_ids [] = {}"
  by (simp add: fulfilled_ids_def List.map_filter_simps)

lemma fulfilled_Cons [simp]: "fulfilled_ids (m # ms) = set_option (answered_id m) \<union> fulfilled_ids ms"
  by (simp add: fulfilled_ids_def List.map_filter_simps split: option.splits)

lemma fulfilled_append [simp]: "fulfilled_ids (xs @ ys) = fulfilled_ids xs \<union> fulfilled_ids ys"
  by (induction xs) auto

lemma fulfilled_synthetic [simp]: "fulfilled_ids (map synthetic_result cs) = fst ` set cs"
  by (induction cs) auto

lemma ids_of_missing_calls: "fst ` set (missing_calls F m) = set (declared_ids m) - F"
proof -
  have "fst ` set (missing_calls F m) = fst ` set (message_calls m) - F"
    by (force simp: missing_calls_def)
  then show ?thesis by (simp flip: map_fst_message_calls)
qed

lemma fill_fulfils: "fulfilled_ids (fill_calls F ms) = fulfilled_ids ms \<union> (declared_in ms - F)"
proof (induction F ms rule: fill_calls.induct)
  case (2 F m ms)
  have "fulfilled_ids ms = fulfilled_ids (takeWhile is_tool ms) \<union> fulfilled_ids (dropWhile is_tool ms)"
    by (simp flip: fulfilled_append)
  moreover have "declared_in (dropWhile is_tool ms) = declared_in ms"
    by (simp only: declared_dropWhile)
  ultimately show ?case using 2 by (auto simp: ids_of_missing_calls simp del: set_concat)
qed simp

lemma legal_after_synthetic:
  "legal_after d (map synthetic_result cs @ ms) \<longleftrightarrow> fst ` set cs \<subseteq> d \<and> legal_after d ms"
  by (induction cs) auto

lemma legal_after_tools:
  "\<forall>m \<in> set ts. is_tool m \<Longrightarrow> legal_after d (ts @ ms) \<longleftrightarrow> legal_after d ts \<and> legal_after d ms"
  by (simp add: legal_after_append del: set_concat)

lemma fill_legal: "legal_after d (fill_calls F ms) \<longleftrightarrow> legal_after d ms"
proof (induction F ms arbitrary: d rule: fill_calls.induct)
  case (2 F m ms)
  let ?d = "d \<union> set (declared_ids m)"
  have ts: "\<forall>t \<in> set (takeWhile is_tool ms). is_tool t" by (auto dest: set_takeWhileD)
  have "legal_after ?d (map synthetic_result (missing_calls F m) @ fill_calls F (dropWhile is_tool ms)) \<longleftrightarrow>
        legal_after ?d (dropWhile is_tool ms)"
    using 2 by (auto simp: legal_after_synthetic ids_of_missing_calls)
  then have "legal_after ?d (takeWhile is_tool ms @ map synthetic_result (missing_calls F m) @
               fill_calls F (dropWhile is_tool ms)) \<longleftrightarrow> legal_after ?d ms"
    using legal_after_tools [OF ts, of ?d] take_drop_tools by metis
  then show ?case by simp
qed simp

lemma backfill_answers_every_call: "declared_in ms \<subseteq> fulfilled_ids (backfill_missing_tool_results ms)"
  by (auto simp: backfill_is_fill fill_fulfils simp del: set_concat)

lemma backfill_nothing:
  assumes "declared_in ms \<subseteq> fulfilled_ids ms"
  shows "backfill_missing_tool_results ms = ms"
proof -
  have "\<forall>(i, c, n) \<in> set (declared_calls b ms). c \<in> declared_in ms" for b
    by (induction ms arbitrary: b) (force simp flip: map_fst_message_calls)+
  then have "filter (\<lambda>(_, call_id, _). call_id \<notin> fulfilled_ids ms) (declared_calls 0 ms) = []"
    using assms by (fastforce simp: filter_empty_conv simp del: set_concat)
  then show ?thesis by (simp add: backfill_missing_tool_results_def)
qed

lemma backfill_idempotent:
  "backfill_missing_tool_results (backfill_missing_tool_results ms) = backfill_missing_tool_results ms"
proof (rule backfill_nothing)
  have "declared_in (backfill_missing_tool_results ms) = declared_in ms"
    by (simp only: backfill_is_fill fill_keeps_declared)
  then show "declared_in (backfill_missing_tool_results ms) \<subseteq> fulfilled_ids (backfill_missing_tool_results ms)"
    using backfill_answers_every_call by metis
qed

lemma backfill_legal: "legal (backfill_missing_tool_results ms) \<longleftrightarrow> legal ms"
  by (simp add: legal_def backfill_is_fill fill_legal)

text \<open>
  What providers ask for: the calls of an assistant message are answered in the run of tool messages
  right behind it.  The runner writes histories whose results stand \<open>in_place\<close>.
\<close>

function in_place :: "json list \<Rightarrow> bool" where
  "in_place [] \<longleftrightarrow> True"
| "in_place (m # ms) \<longleftrightarrow>
     fulfilled_ids (takeWhile is_tool ms) \<subseteq> set (declared_ids m) \<and> in_place (dropWhile is_tool ms)"
  by pat_completeness auto
termination by (relation "measure length") (auto simp: less_Suc_eq_le length_dropWhile_le)

function answered_in_place :: "json list \<Rightarrow> bool" where
  "answered_in_place [] \<longleftrightarrow> True"
| "answered_in_place (m # ms) \<longleftrightarrow>
     set (declared_ids m) \<subseteq> fulfilled_ids (takeWhile is_tool ms) \<and> answered_in_place (dropWhile is_tool ms)"
  by pat_completeness auto
termination by (relation "measure length") (auto simp: less_Suc_eq_le length_dropWhile_le)

lemma not_tool_answers_nothing: "\<not> is_tool m \<Longrightarrow> answered_id m = None"
  by (auto simp: answered_id_def has_role_def str_or_empty_def split: option.splits)

lemma in_place_fulfilled:
  "in_place ms \<Longrightarrow> (case ms of [] \<Rightarrow> True | m # _ \<Rightarrow> \<not> is_tool m) \<Longrightarrow> fulfilled_ids ms \<subseteq> declared_in ms"
proof (induction ms rule: in_place.induct)
  case (2 m ms)
  have "fulfilled_ids ms = fulfilled_ids (takeWhile is_tool ms) \<union> fulfilled_ids (dropWhile is_tool ms)"
    by (simp flip: fulfilled_append)
  moreover have "declared_in (dropWhile is_tool ms) = declared_in ms"
    by (simp only: declared_dropWhile)
  ultimately show ?case
    using 2 dropWhile_head [of is_tool ms] by (auto simp: not_tool_answers_nothing simp del: set_concat)
qed simp

lemma runs_of_fill:
  assumes "\<forall>t \<in> set ts. is_tool t" "case rest of [] \<Rightarrow> True | m # _ \<Rightarrow> \<not> is_tool m"
  shows "takeWhile is_tool (ts @ fill_calls F rest) = ts" "dropWhile is_tool (ts @ fill_calls F rest) = fill_calls F rest"
  using assms by (cases rest; simp add: takeWhile_append2 dropWhile_append2)+

lemma fill_answers_in_place:
  assumes "in_place ms" "distinct (concat (map declared_ids ms))"
    "F \<inter> declared_in ms \<subseteq> fulfilled_ids ms" "case ms of [] \<Rightarrow> True | m # _ \<Rightarrow> \<not> is_tool m"
  shows "answered_in_place (fill_calls F ms)"
  using assms
proof (induction F ms rule: fill_calls.induct)
  case (2 F m ms)
  let ?ts = "takeWhile is_tool ms" and ?rest = "dropWhile is_tool ms"
  let ?run = "?ts @ map synthetic_result (missing_calls F m)"
  have ids: "concat (map declared_ids ?rest) = concat (map declared_ids ms)"
    by (rule declared_dropWhile)
  have split: "fulfilled_ids ms = fulfilled_ids ?ts \<union> fulfilled_ids ?rest"
    by (simp flip: fulfilled_append)
  have place: "in_place ?rest" "fulfilled_ids ?ts \<subseteq> set (declared_ids m)"
    using "2.prems"(1) by auto
  have rest: "fulfilled_ids ?rest \<subseteq> declared_in ms"
    using in_place_fulfilled [OF place(1) dropWhile_head] unfolding ids .
  have apart: "set (declared_ids m) \<inter> declared_in ms = {}"
    using "2.prems"(2) by (simp del: set_concat)
  have fulfilled: "fulfilled_ids (m # ms) = fulfilled_ids ms"
    using "2.prems"(4) by (simp add: not_tool_answers_nothing)
  have here: "F \<inter> (set (declared_ids m) \<union> declared_in ms) \<subseteq> fulfilled_ids ms"
    using "2.prems"(3) unfolding fulfilled by (simp del: set_concat)
  have "\<forall>t \<in> set ?run. is_tool t" by (auto dest: set_takeWhileD)
  note runs = runs_of_fill [OF this dropWhile_head, of F]
  have "set (declared_ids m) \<subseteq> fulfilled_ids ?run"
    using here rest apart split by (auto simp: ids_of_missing_calls simp del: set_concat)
  moreover have "answered_in_place (fill_calls F ?rest)"
  proof (rule 2)
    show "in_place ?rest" by (rule place)
    show "distinct (concat (map declared_ids ?rest))" using "2.prems"(2) by (simp add: ids)
    show "F \<inter> declared_in ?rest \<subseteq> fulfilled_ids ?rest"
      using here place(2) apart unfolding ids split by blast
  qed (rule dropWhile_head)
  ultimately show ?case using runs by simp
qed simp

lemma backfill_answers_in_place:
  assumes "in_place ms" "distinct (concat (map declared_ids ms))" "case ms of [] \<Rightarrow> True | m # _ \<Rightarrow> \<not> is_tool m"
  shows "answered_in_place (backfill_missing_tool_results ms)"
  unfolding backfill_is_fill by (rule fill_answers_in_place) (use assms in auto)

section \<open>Rewriting the content of tool messages\<close>

definition content_only :: "json \<Rightarrow> json \<Rightarrow> bool" where
  "content_only m m' \<longleftrightarrow> m' = m \<or> (is_tool m \<and> (\<exists>v. m' = with_content v m))"

lemma content_only_refl [simp]: "content_only m m"
  by (simp add: content_only_def)

lemma json_get_with_content [simp]: "k \<noteq> ''content'' \<Longrightarrow> json_get (with_content v m) k = json_get m k"
  by (cases m) auto

lemma content_only_get: "content_only m m' \<Longrightarrow> k \<noteq> ''content'' \<Longrightarrow> json_get m' k = json_get m k"
  by (auto simp: content_only_def)

lemma content_only_str: "content_only m m' \<Longrightarrow> k \<noteq> ''content'' \<Longrightarrow> get_str m' k = get_str m k"
  by (simp add: get_str_def content_only_get)

lemma content_only_role:
  assumes "content_only m m'"
  shows "has_role r m' = has_role r m" "is_user m' = is_user m" "answered_id m' = answered_id m"
    "declared_ids m' = declared_ids m"
  using assms by (simp_all add: has_role_def content_only_str answered_id_def declared_ids_def tool_call_ids_def
      get_array_def content_only_get str_or_empty_def)

lemma content_only_legal: "list_all2 content_only ms ms' \<Longrightarrow> legal_after d ms' \<longleftrightarrow> legal_after d ms"
  by (induction arbitrary: d rule: list_all2_induct) (simp_all add: content_only_role)

lemma content_only_others:
  "list_all2 content_only ms ms' \<Longrightarrow> filter (\<lambda>m. \<not> is_tool m) ms' = filter (\<lambda>m. \<not> is_tool m) ms"
  by (induction rule: list_all2_induct) (auto simp: content_only_role content_only_def)

section \<open>Collapsing old tool results\<close>

lemma foldl_update_nth:
  "i < length ms \<Longrightarrow> foldl (\<lambda>updated idx. updated[idx := f idx]) ms xs ! i = (if i \<in> set xs then f i else ms ! i)"
  by (induction xs arbitrary: ms) auto

lemma foldl_update_length [simp]: "length (foldl (\<lambda>updated idx. updated[idx := f idx]) ms xs) = length ms"
  by (induction xs arbitrary: ms) auto

lemma sorted_take_stale:
  assumes "sorted_wrt (<) (xs :: nat list)"
  shows "x \<in> set (take (length xs - k) xs) \<longleftrightarrow> x \<in> set xs \<and> k \<le> length (filter (\<lambda>y. x < y) xs)"
proof (cases "x \<in> set xs")
  case True
  then obtain as bs where xs: "xs = as @ x # bs" by (auto simp: in_set_conv_decomp)
  with assms have s: "\<forall>a \<in> set as. a < x" "\<forall>b \<in> set bs. x < b" "x \<notin> set as" "x \<notin> set bs"
    by (auto simp: sorted_wrt_append)
  then have later: "filter (\<lambda>y. x < y) xs = bs"
    by (auto simp: xs filter_empty_conv intro!: filter_True)
  show ?thesis
  proof (cases "k \<le> length bs")
    case True
    then have "take (length xs - k) xs = as @ x # take (length bs - k) bs"
      by (simp add: xs Suc_diff_le take_Cons')
    then have "x \<in> set (take (length xs - k) xs)" by simp
    with True \<open>x \<in> set xs\<close> later show ?thesis by simp
  next
    case False
    then have "set (take (length xs - k) xs) \<subseteq> set as"
      by (auto simp: xs dest: in_set_takeD)
    with False s(3) later show ?thesis by auto
  qed
qed (auto dest: in_set_takeD)

definition before_current_turn :: "json list \<Rightarrow> nat \<Rightarrow> bool" where
  "before_current_turn ms i \<longleftrightarrow> i < length ms \<and> \<not> (\<exists>start < i. rposition is_user ms = Some start)"

definition stale_result :: "json list \<Rightarrow> nat \<Rightarrow> bool" where
  "stale_result ms i \<longleftrightarrow>
     before_current_turn ms i \<and> is_compactable (ms ! i) \<and>
     MICROCOMPACT_KEEP_RECENT \<le> length (filter (\<lambda>j. before_current_turn ms j \<and> is_compactable (ms ! j)) [Suc i..<length ms])"

lemma compactable_indices_filter:
  "compactable_indices ms = filter (\<lambda>i. before_current_turn ms i \<and> is_compactable (ms ! i)) [0..<length ms]"
  unfolding compactable_indices_def
  by (rule filter_cong) (auto simp: before_current_turn_def split: option.splits)

lemma stale_iff:
  "i \<in> set (take (length (compactable_indices ms) - MICROCOMPACT_KEEP_RECENT) (compactable_indices ms)) \<longleftrightarrow>
   stale_result ms i"
proof -
  have s: "sorted_wrt (<) (compactable_indices ms)"
    by (simp add: compactable_indices_def sorted_wrt_filter)
  have "filter (\<lambda>y. i < y) (compactable_indices ms) =
        filter (\<lambda>j. before_current_turn ms j \<and> is_compactable (ms ! j)) [Suc i..<length ms]" if "i < length ms"
  proof -
    have "[0..<length ms] = [0..<Suc i] @ [Suc i..<length ms]"
      using that by (metis Suc_leI le0 upt_add_eq_append le_iff_add)
    then show ?thesis
      by (auto simp: compactable_indices_filter filter_empty_conv conj_commute intro!: filter_cong)
  qed
  then show ?thesis
    unfolding sorted_take_stale [OF s] stale_result_def
    by (auto simp: compactable_indices_filter before_current_turn_def)
qed

lemma microcompact_nth:
  assumes "i < length ms"
  shows "microcompact ms ! i = (if stale_result ms i then compact_result (ms ! i) else ms ! i)"
proof (cases "length (compactable_indices ms) \<le> MICROCOMPACT_KEEP_RECENT")
  case True
  then have "\<not> stale_result ms i" by (simp flip: stale_iff)
  with True show ?thesis by (simp add: microcompact_def)
next
  case False
  then show ?thesis
    using assms by (simp add: microcompact_def Let_def foldl_update_nth stale_iff)
qed

lemma microcompact_length [simp]: "length (microcompact ms) = length ms"
  by (simp add: microcompact_def Let_def)

lemma stale_is_tool: "stale_result ms i \<Longrightarrow> is_tool (ms ! i)"
  by (simp add: stale_result_def is_compactable_def)

lemma microcompact_content_only: "list_all2 content_only ms (microcompact ms)"
  by (auto simp: list_all2_conv_all_nth microcompact_nth compact_result_def content_only_def stale_is_tool)

lemma microcompact_legal: "legal (microcompact ms) \<longleftrightarrow> legal ms"
  unfolding legal_def by (rule content_only_legal [OF microcompact_content_only])

lemma rposition_content_only: "list_all2 content_only ms ms' \<Longrightarrow> rposition is_user ms' = rposition is_user ms"
  by (induction rule: list_all2_induct) (simp_all add: content_only_role)

lemma compactable_content_only: "content_only m m' \<Longrightarrow> is_compactable m' = is_compactable m"
  by (simp add: is_compactable_def content_only_role content_only_str)

lemma stale_content_only:
  assumes "list_all2 content_only ms ms'"
  shows "stale_result ms' i = stale_result ms i"
proof -
  have "before_current_turn ms' j = before_current_turn ms j" for j
    using assms by (simp add: before_current_turn_def rposition_content_only list_all2_lengthD)
  moreover have "is_compactable (ms' ! j) = is_compactable (ms ! j)" if "before_current_turn ms j" for j
    using assms that by (simp add: before_current_turn_def list_all2_conv_all_nth compactable_content_only)
  ultimately show ?thesis
    using list_all2_lengthD [OF assms] by (auto simp: stale_result_def cong: filter_cong conj_cong)
qed

lemma compact_result_again:
  assumes "is_compactable m"
  shows "compact_result (compact_result m) = compact_result m"
proof (cases "length (str_or_empty m ''content'') < MICROCOMPACT_MIN_CHARS")
  case False
  obtain name where name: "get_str m ''name'' = Some name" "name \<in> set COMPACTABLE_TOOLS"
    using assms by (auto simp: is_compactable_def split: option.splits)
  then have "length (omitted_summary m) < MICROCOMPACT_MIN_CHARS"
    by (auto simp: omitted_summary_def COMPACTABLE_TOOLS_def MICROCOMPACT_MIN_CHARS_def)
  moreover obtain obj where "m = JObject obj"
    using name by (cases m) (auto simp: get_str_def)
  ultimately show ?thesis
    by (simp add: compact_result_def str_or_empty_def get_str_def)
qed (simp add: compact_result_def)

lemma microcompact_idempotent: "microcompact (microcompact ms) = microcompact ms"
proof (rule nth_equalityI)
  fix i assume "i < length (microcompact (microcompact ms))"
  then have i: "i < length ms" by simp
  have stale: "stale_result (microcompact ms) i = stale_result ms i"
    by (rule stale_content_only [OF microcompact_content_only])
  have "stale_result ms i \<Longrightarrow> is_compactable (ms ! i)"
    by (simp add: stale_result_def)
  with i show "microcompact (microcompact ms) ! i = microcompact ms ! i"
    by (simp add: microcompact_nth stale compact_result_again)
qed simp

section \<open>The budget of a tool result\<close>

lemma budget_content_only: "list_all2 content_only ms (fst (budget_messages env spec i ms files))"
proof (induction ms arbitrary: i files)
  case (Cons m ms)
  have "content_only m (fst (budget_message env spec i m files))"
    by (auto simp: budget_message_def content_only_def Let_def split: prod.splits)
  then show ?case by (auto split: prod.splits) (metis Cons.IH fst_conv)
qed simp

lemma apply_budget_content_only: "list_all2 content_only ms (fst (apply_tool_result_budget env spec ms files))"
  by (simp add: apply_tool_result_budget_def budget_content_only)

section \<open>Turns before the current one\<close>

lemma total_tokens_append [simp]: "total_tokens tk (xs @ ys) = total_tokens tk xs + total_tokens tk ys"
  by (simp add: total_tokens_def)

lemma total_tokens_drop: "total_tokens tk (drop n xs) \<le> total_tokens tk xs"
proof -
  have "total_tokens tk xs = total_tokens tk (take n xs) + total_tokens tk (drop n xs)"
    by (simp flip: total_tokens_append)
  then show ?thesis by simp
qed

fun slices :: "nat list \<Rightarrow> 'a list \<Rightarrow> 'a list list" where
  "slices [] xs = []"
| "slices [a] xs = [drop a xs]"
| "slices (a # b # s) xs = slice a b xs # slices (b # s) xs"

lemma slices_map:
  "map (\<lambda>k. slice (s ! k) (if k + 1 < length s then s ! (k + 1) else length xs) xs) [0..<length s] = slices s xs"
proof (induction s xs rule: slices.induct)
  case (3 a b s xs)
  have "[0..<length (a # b # s)] = 0 # map Suc [0..<length (b # s)]"
    by (simp add: upt_conv_Cons map_Suc_upt del: upt_Suc)
  with 3 show ?case by (simp add: comp_def del: upt_Suc cong: if_cong)
qed simp_all

lemma concat_slices: "sorted (a # s) \<Longrightarrow> concat (slices (a # s) xs) = drop a xs"
proof (induction s arbitrary: a)
  case (Cons b s)
  have "slice a b xs @ drop b xs = drop a xs"
    using Cons.prems by (metis append_take_drop_id drop_drop drop_take le_add_diff_inverse2 list.set_intros(1) sorted_simps(2))
  then show ?case using Cons by simp
qed simp

definition prior_turns :: "json list \<Rightarrow> json list list" where
  "prior_turns ms = slices (turn_starts ms) ms"

lemma turn_starts_sorted: "\<exists>s. turn_starts ms = 0 # s \<and> sorted (0 # s)"
proof -
  let ?us = "filter (\<lambda>i. is_user (ms ! i)) [0..<length ms]"
  have "sorted ?us" by (simp add: sorted_wrt_filter)
  then show ?thesis by (cases ?us) (auto simp: turn_starts_def Let_def)
qed

lemma concat_prior_turns: "concat (prior_turns ms) = ms"
proof -
  obtain s where "turn_starts ms = 0 # s" "sorted (0 # s)" using turn_starts_sorted by blast
  then show ?thesis using concat_slices [of 0 s ms] by (simp add: prior_turns_def)
qed

text \<open>What may become of a prior turn.\<close>

definition thinned :: "json list \<Rightarrow> json list \<Rightarrow> bool" where
  "thinned turn choice \<longleftrightarrow> choice = turn \<or> choice = compact_prior_turn turn \<or> choice = []"

lemma select_turn_choice:
  "\<exists>choice. thinned turn choice \<and>
     select_turn tk b turn (selected, kept) = (choice @ selected, kept + total_tokens tk choice) \<and>
     (choice \<noteq> [] \<longrightarrow> kept + total_tokens tk choice \<le> b)"
  by (auto simp: select_turn_def thinned_def Let_def total_tokens_def)

lemma foldl_select:
  "\<exists>choices. list_all2 thinned turns choices \<and>
     foldl (\<lambda>s turn. select_turn tk b turn s) (selected, kept) (rev turns) =
       (concat choices @ selected, kept + total_tokens tk (concat choices)) \<and>
     (concat choices \<noteq> [] \<longrightarrow> kept + total_tokens tk (concat choices) \<le> b)"
proof (induction turns)
  case (Cons t ts)
  then obtain cs where cs: "list_all2 thinned ts cs"
    "foldl (\<lambda>s turn. select_turn tk b turn s) (selected, kept) (rev ts) =
       (concat cs @ selected, kept + total_tokens tk (concat cs))"
    "concat cs \<noteq> [] \<longrightarrow> kept + total_tokens tk (concat cs) \<le> b" by blast
  obtain c where c: "thinned t c"
    "select_turn tk b t (concat cs @ selected, kept + total_tokens tk (concat cs)) =
       (c @ concat cs @ selected, kept + total_tokens tk (concat cs) + total_tokens tk c)"
    "c \<noteq> [] \<longrightarrow> kept + total_tokens tk (concat cs) + total_tokens tk c \<le> b"
    using select_turn_choice by meson
  show ?case
    by (rule exI [of _ "c # cs"]) (use cs c in \<open>auto simp: ac_simps total_tokens_def\<close>)
qed (simp add: total_tokens_def)

lemma select_prior_turns:
  obtains choices where "list_all2 thinned (prior_turns ms) choices"
    "select_prior_turns_for_budget tk ms b kept = (concat choices, kept + total_tokens tk (concat choices))"
    "concat choices \<noteq> [] \<Longrightarrow> kept + total_tokens tk (concat choices) \<le> b"
proof (cases "ms = []")
  case True
  have "list_all2 thinned (prior_turns ms) (map (\<lambda>_. []) (prior_turns ms))"
    by (simp add: list_all2_map2 list_all2_same thinned_def)
  moreover have "concat (map (\<lambda>_. []) (prior_turns ms)) = ([] :: json list)" by simp
  ultimately show ?thesis
    using that [of "map (\<lambda>_. []) (prior_turns ms)"] True
    by (simp add: select_prior_turns_for_budget_def total_tokens_def)
next
  case False
  have "foldl (\<lambda>s k. select_turn tk b (f k) s) s0 (rev ks) = foldl (\<lambda>s turn. select_turn tk b turn s) s0 (rev (map f ks))"
    for f s0 and ks :: "nat list"
    by (simp add: rev_map foldl_map)
  then have "select_prior_turns_for_budget tk ms b kept =
      foldl (\<lambda>s turn. select_turn tk b turn s) ([], kept) (rev (prior_turns ms))"
    using False by (simp only: select_prior_turns_for_budget_def Let_def if_False slices_map prior_turns_def)
  with foldl_select [of "prior_turns ms" tk b "[]" kept] show ?thesis using that by auto
qed

section \<open>Fitting the context window\<close>

abbreviation non_system :: "json list \<Rightarrow> json list" where
  "non_system \<equiv> filter (\<lambda>m. \<not> has_role ''system'' m)"

lemma find_in: "List.find p xs = Some x \<Longrightarrow> x \<in> set xs \<and> p x"
  by (auto simp: find_Some_iff)

lemma compact_prior_turn_subseq: "subseq (compact_prior_turn turn) turn"
proof (cases "List.find is_text_reply (rev turn)")
  case None
  then show ?thesis by (simp add: compact_prior_turn_def split: list.splits)
next
  case (Some r)
  then have r: "r \<in> set turn" "is_text_reply r" by (auto dest: find_in)
  then obtain first rest where turn: "turn = first # rest" by (cases turn) auto
  show ?thesis
  proof (cases "is_user first")
    case True
    then have "r \<in> set rest"
      using r turn by (auto simp: is_text_reply_def has_role_def)
    then have "subseq [r] rest" by (simp add: subseq_singleton_left)
    with True show ?thesis unfolding compact_prior_turn_def Some by (simp add: turn)
  next
    case False
    have "subseq [r] turn" using r by (simp add: subseq_singleton_left)
    with False show ?thesis unfolding compact_prior_turn_def Some by (simp add: turn)
  qed
qed

lemma thinned_subseq: "thinned turn choice \<Longrightarrow> subseq choice turn"
  by (auto simp: thinned_def compact_prior_turn_subseq)

lemma thinned_concat: "list_all2 thinned turns choices \<Longrightarrow> subseq (concat choices) (concat turns)"
  by (induction rule: list_all2_induct) (auto intro: list_emb_append_mono dest: thinned_subseq)

lemma trim_to_legal_legal: "legal (trim_to_legal ms)"
  by (simp add: trim_to_legal_def legal_from_start)

lemma trim_to_legal_suffix: "suffix (trim_to_legal ms) ms"
  by (simp add: trim_to_legal_def suffix_drop)

text \<open>A legal end of the list survives.\<close>

lemma trim_to_legal_keeps:
  assumes "legal ys"
  shows "\<exists>n. trim_to_legal (xs @ ys) = drop n xs @ ys"
proof -
  have "find_legal_message_start (xs @ ys) \<le> length xs"
    unfolding find_legal_message_start_least by (rule Least_le) (use assms in simp)
  then show ?thesis
    by (intro exI [of _ "find_legal_message_start (xs @ ys)"]) (simp add: trim_to_legal_def)
qed

lemma subseq_rev: "subseq xs ys \<Longrightarrow> subseq (rev xs) (rev ys)"
proof (induction rule: list_emb.induct)
  case (list_emb_Cons xs ys y)
  then have "subseq (rev xs @ []) (rev ys @ [y])" by (intro list_emb_append_mono) auto
  then show ?case by simp
qed (auto intro: list_emb_append_mono)

lemma keep_greedily_subseq: "subseq (keep_greedily tk b ms) ms"
proof -
  let ?f = "\<lambda>(kept, kept_tokens) message.
      let msg_tokens = estimate_message_tokens tk message
      in if kept \<noteq> [] \<and> kept_tokens + msg_tokens > b then (kept, kept_tokens)
         else (kept @ [message], kept_tokens + msg_tokens)"
  have "subseq (fst (foldl ?f (xs, n) ys)) (xs @ ys)" for xs n ys
  proof (induction ys arbitrary: xs n)
    case (Cons y ys)
    show ?case
    proof (cases "xs \<noteq> [] \<and> n + estimate_message_tokens tk y > b")
      case True
      have "subseq (xs @ ys) (xs @ y # ys)" by (intro list_emb_append_mono) auto
      with True Cons.IH [of xs n] show ?thesis by (auto simp: Let_def intro: subseq_order.trans)
    next
      case False
      then show ?thesis using Cons.IH [of "xs @ [y]"] by (auto simp: Let_def)
    qed
  qed simp
  from subseq_rev [OF this [of "[]" 0 "rev ms"]] show ?thesis
    by (simp add: keep_greedily_def)
qed

lemma snip_select_user:
  assumes "rposition is_user ms = Some idx"
  obtains choices where "list_all2 thinned (prior_turns (take idx ms)) choices"
    "snip_select tk b ms = concat choices @ drop idx ms"
    "concat choices \<noteq> [] \<Longrightarrow> total_tokens tk (snip_select tk b ms) \<le> b"
proof -
  obtain choices where c: "list_all2 thinned (prior_turns (take idx ms)) choices"
    "select_prior_turns_for_budget tk (take idx ms) b (total_tokens tk (drop idx ms)) =
       (concat choices, total_tokens tk (drop idx ms) + total_tokens tk (concat choices))"
    "concat choices \<noteq> [] \<Longrightarrow> total_tokens tk (drop idx ms) + total_tokens tk (concat choices) \<le> b"
    using select_prior_turns [of "take idx ms" tk b "total_tokens tk (drop idx ms)"] by metis
  have eq: "snip_select tk b ms = concat choices @ drop idx ms"
    using c(2) assms by (simp add: snip_select_def Let_def)
  show ?thesis
    by (rule that [OF c(1) eq]) (use c(3) in \<open>auto simp: eq add.commute\<close>)
qed

lemma snip_select_subseq: "subseq (snip_select tk b ms) ms"
proof (cases "rposition is_user ms")
  case None
  then show ?thesis by (simp add: snip_select_def keep_greedily_subseq)
next
  case (Some idx)
  obtain choices where c: "list_all2 thinned (prior_turns (take idx ms)) choices"
    "snip_select tk b ms = concat choices @ drop idx ms"
    using snip_select_user [OF Some] by metis
  have "subseq (concat choices) (take idx ms)"
    using thinned_concat [OF c(1)] by (simp add: concat_prior_turns)
  then have "subseq (concat choices @ drop idx ms) (take idx ms @ drop idx ms)"
    by (intro list_emb_append_mono) auto
  with c(2) show ?thesis by simp
qed

lemma snip_kept_legal: "legal (snip_kept tk b ms)"
  by (simp add: snip_kept_def Let_def trim_to_legal_legal)

lemma snip_kept_subseq: "subseq (snip_kept tk b ms) ms"
proof -
  have trim: "subseq (trim_to_legal xs) ys" if "subseq xs ys" for xs ys
    using that trim_to_legal_suffix [of xs] by (meson subseq_order.trans suffix_imp_subseq)
  show ?thesis
    by (auto simp: snip_kept_def Let_def intro!: trim snip_select_subseq suffix_imp_subseq [OF suffix_drop])
qed

lemma snip_kept_current_turn:
  assumes "rposition is_user ms = Some idx" "legal (drop idx ms)" "idx < length ms"
  shows "\<exists>older. snip_kept tk b ms = older @ drop idx ms \<and>
           (older \<noteq> [] \<longrightarrow> total_tokens tk (snip_kept tk b ms) \<le> b)"
proof -
  obtain choices where c: "snip_select tk b ms = concat choices @ drop idx ms"
    "concat choices \<noteq> [] \<Longrightarrow> total_tokens tk (snip_select tk b ms) \<le> b"
    using snip_select_user [OF assms(1)] by metis
  obtain n where n: "trim_to_legal (snip_select tk b ms) = drop n (concat choices) @ drop idx ms"
    unfolding c(1) using trim_to_legal_keeps [OF assms(2)] by metis
  then have kept: "snip_kept tk b ms = drop n (concat choices) @ drop idx ms"
    using assms(3) by (simp add: snip_kept_def Let_def)
  have "total_tokens tk (snip_kept tk b ms) \<le> b" if "drop n (concat choices) \<noteq> []"
    using c that total_tokens_drop [of tk n "concat choices"] by (cases "concat choices = []") (auto simp: kept)
  with kept show ?thesis by blast
qed

lemma neutral_system: "has_role ''system'' m \<Longrightarrow> answered_id m = None \<and> declared_ids m = []"
  by (simp add: has_role_def answered_id_def declared_ids_def str_or_empty_def)

lemma neutral_user: "is_user m \<Longrightarrow> answered_id m = None \<and> declared_ids m = []"
  by (simp add: answered_id_def declared_ids_def str_or_empty_def)

lemma legal_systems: "\<forall>m \<in> set ss. has_role ''system'' m \<Longrightarrow> legal_after d (ss @ ms) \<longleftrightarrow> legal_after d ms"
  by (induction ss) (auto simp: neutral_system)

lemma legal_non_system: "legal_after d (non_system ms) \<longleftrightarrow> legal_after d ms"
  by (induction ms arbitrary: d) (auto simp: neutral_system)

text \<open>The two cases of \<open>snip_history\<close>.\<close>

lemma snip_history_cases:
  obtains (same) "snip_history tk spec ms = ms"
  | (snipped) b where "snip_history tk spec ms = filter (has_role ''system'') ms @ snip_kept tk b (non_system ms)"
      "as_context_window_tokens spec \<noteq> None" "non_system ms \<noteq> []"
      "b = snip_remaining tk (offered_tools spec)
             (snip_budget spec (the (as_context_window_tokens spec))) ms"
proof (cases "as_context_window_tokens spec")
  case None
  then show ?thesis using same by (simp add: snip_history_def)
next
  case (Some w)
  show ?thesis
  proof (cases "snip_history tk spec ms = ms")
    case False
    then show ?thesis
      using Some by (intro snipped) (auto simp: snip_history_def Let_def split: if_splits)
  qed (rule same)
qed

lemma snip_history_legal: "legal ms \<Longrightarrow> legal (snip_history tk spec ms)"
  by (rule snip_history_cases [of tk spec ms]) (auto simp: legal_def legal_systems snip_kept_legal [unfolded legal_def])

lemma subseq_set: "subseq xs ys \<Longrightarrow> set xs \<subseteq> set ys"
  by (metis set_nths_subset subseq_conv_nths)

lemma snip_kept_no_system:
  "filter (has_role ''system'') (snip_kept tk b (non_system ms)) = []"
  "non_system (snip_kept tk b (non_system ms)) = snip_kept tk b (non_system ms)"
  using subseq_set [OF snip_kept_subseq [of tk b "non_system ms"]]
  by (auto simp: filter_empty_conv filter_id_conv)

lemma non_system_systems [simp]: "non_system (filter (has_role ''system'') ms) = []"
  by (simp add: filter_empty_conv)

lemma snip_history_parts:
  "filter (has_role ''system'') (snip_history tk spec ms) = filter (has_role ''system'') ms \<and>
   subseq (non_system (snip_history tk spec ms)) (non_system ms)"
proof (rule snip_history_cases [of tk spec ms])
  fix b assume s: "snip_history tk spec ms = filter (has_role ''system'') ms @ snip_kept tk b (non_system ms)"
  show ?thesis by (simp add: s snip_kept_no_system snip_kept_subseq)
qed simp

lemma rposition_last: "is_user u \<Longrightarrow> \<forall>m \<in> set post. \<not> is_user m \<Longrightarrow> rposition is_user (pre @ u # post) = Some (length pre)"
proof (induction pre)
  case Nil
  then have "rposition is_user post = None" by (induction post) (auto split: option.splits)
  with Nil show ?case by simp
qed simp

lemma snip_history_current_turn:
  assumes u: "is_user u" and post: "\<forall>m \<in> set post. \<not> is_user m" "legal post"
    and ms: "ms = pre @ u # post"
  shows "suffix (u # non_system post) (non_system (snip_history tk spec ms))"
    "snip_history tk spec ms \<noteq> ms \<Longrightarrow> length (non_system (snip_history tk spec ms)) > length (u # non_system post) \<Longrightarrow>
     total_tokens tk (non_system (snip_history tk spec ms)) \<le>
       snip_remaining tk (offered_tools spec) (snip_budget spec (the (as_context_window_tokens spec))) ms"
proof -
  have "\<not> has_role ''system'' u" using u by (simp add: has_role_def)
  then have ns: "non_system ms = non_system pre @ u # non_system post" by (simp add: ms)
  have pos: "rposition is_user (non_system ms) = Some (length (non_system pre))"
    unfolding ns by (rule rposition_last) (use u post in auto)
  have turn: "drop (length (non_system pre)) (non_system ms) = u # non_system post" by (simp add: ns)
  have lt: "legal (u # non_system post)"
    using post(2) by (simp add: legal_def neutral_user [OF u] legal_non_system)
  have "suffix (u # non_system post) (non_system (snip_history tk spec ms)) \<and>
    (snip_history tk spec ms \<noteq> ms \<longrightarrow> length (non_system (snip_history tk spec ms)) > length (u # non_system post) \<longrightarrow>
     total_tokens tk (non_system (snip_history tk spec ms)) \<le>
       snip_remaining tk (offered_tools spec) (snip_budget spec (the (as_context_window_tokens spec))) ms)"
  proof (rule snip_history_cases [of tk spec ms])
    assume "snip_history tk spec ms = ms"
    then show ?thesis by (auto simp: ns suffix_def)
  next
    fix b
    assume s: "snip_history tk spec ms = filter (has_role ''system'') ms @ snip_kept tk b (non_system ms)"
      and b: "b = snip_remaining tk (offered_tools spec)
             (snip_budget spec (the (as_context_window_tokens spec))) ms"
    obtain older where older: "snip_kept tk b (non_system ms) = older @ u # non_system post"
      "older \<noteq> [] \<longrightarrow> total_tokens tk (snip_kept tk b (non_system ms)) \<le> b"
    proof -
      have "length (non_system pre) < length (non_system ms)" by (simp add: ns)
      from snip_kept_current_turn [OF pos, unfolded turn, OF lt this, of tk b] show thesis
        by (elim exE conjE) (rule that)
    qed
    have "non_system (snip_history tk spec ms) = snip_kept tk b (non_system ms)"
      by (simp add: s snip_kept_no_system)
    then show ?thesis using older by (auto simp: suffix_def b)
  qed
  then show "suffix (u # non_system post) (non_system (snip_history tk spec ms))"
    "snip_history tk spec ms \<noteq> ms \<Longrightarrow> length (non_system (snip_history tk spec ms)) > length (u # non_system post) \<Longrightarrow>
     total_tokens tk (non_system (snip_history tk spec ms)) \<le>
       snip_remaining tk (offered_tools spec) (snip_budget spec (the (as_context_window_tokens spec))) ms"
    by blast+
qed

section \<open>The prompt of one iteration\<close>

lemma messages_for_model_legal:
  assumes "legal ms"
  shows "legal (fst (messages_for_model env tk spec ms files))"
proof -
  let ?compacted = "microcompact (backfill_missing_tool_results ms)"
  have "legal ?compacted" using assms by (simp add: microcompact_legal backfill_legal)
  then have "legal (fst (apply_tool_result_budget env (as_pipe spec) ?compacted files))"
    unfolding legal_def by (simp add: content_only_legal [OF apply_budget_content_only])
  then show ?thesis by (auto simp: messages_for_model_def snip_history_legal split: prod.splits)
qed

end
