(* ===== verification/Runner_Laws.thy ===== *)
theory Runner_Laws
  imports Agent_Runner Context_Laws
begin

text \<open>
  The loop of the runner refines a small machine on the conversation: what the model was asked, what
  was appended, how many retries are left.  Its invariants, by rule induction, give the properties
  of a run: every prompt is legal, every call is answered behind the message that made it, the
  history is only extended, the number of requests is bounded by the tool rounds.  Before that, the
  batches: whatever order a concurrent batch completes in, call \<open>i\<close> gets result \<open>i\<close>.
\<close>

section \<open>Batches\<close>

lemma partition_step_concat:
  "foldl (partition_step spec) (batches, current) calls = (batches', current') \<Longrightarrow>
   concat batches' @ current' = concat batches @ current @ calls"
proof (induction calls arbitrary: batches current)
  case (Cons c cs)
  then show ?case by (auto simp: partition_step_def split: if_splits dest: Cons.IH)
qed simp

definition batch_ok :: "('w, 'h) run_spec \<Rightarrow> tool_call_request list \<Rightarrow> bool" where
  "batch_ok spec batch \<longleftrightarrow> batch \<noteq> [] \<and> (length batch = 1 \<or> (\<forall>call \<in> set batch. can_batch spec call))"

lemma partition_step_ok:
  "foldl (partition_step spec) (batches, current) calls = (batches', current') \<Longrightarrow>
   \<forall>b \<in> set batches. batch_ok spec b \<Longrightarrow> \<forall>c \<in> set current. can_batch spec c \<Longrightarrow>
   (\<forall>b \<in> set batches'. batch_ok spec b) \<and> (\<forall>c \<in> set current'. can_batch spec c)"
proof (induction calls arbitrary: batches current)
  case (Cons c cs)
  obtain bs cur where s: "partition_step spec (batches, current) c = (bs, cur)" by fastforce
  have "(\<forall>b \<in> set bs. batch_ok spec b) \<and> (\<forall>c \<in> set cur. can_batch spec c)"
  proof (cases "can_batch spec c")
    case True
    then show ?thesis using s Cons.prems(2,3) by (auto simp: partition_step_def)
  next
    case False
    have "batch_ok spec [c]" "current \<noteq> [] \<Longrightarrow> batch_ok spec current"
      using Cons.prems(3) by (simp_all add: batch_ok_def)
    with False show ?thesis using s Cons.prems(2) by (auto simp: partition_step_def split: if_splits)
  qed
  with Cons.IH [of bs cur] Cons.prems(1) s show ?case by simp
qed simp

lemma partition_concat: "concat (partition_tool_batches spec calls) = calls"
proof -
  obtain bs cur where s: "foldl (partition_step (as_pipe spec)) ([], []) calls = (bs, cur)" by fastforce
  show ?thesis using partition_step_concat [OF s] by (cases "cur = []") (simp_all add: partition_tool_batches_def s)
qed

lemma partition_ok: "\<forall>batch \<in> set (partition_tool_batches spec calls). batch_ok (as_pipe spec) batch"
proof -
  obtain bs cur where s: "foldl (partition_step (as_pipe spec)) ([], []) calls = (bs, cur)" by fastforce
  show ?thesis using partition_step_ok [OF s]
    by (auto simp: partition_tool_batches_def s batch_ok_def)
qed

lemma prepare_batch_length:
  "prepare_batch ops env spec calls ps = (Returns prepared, ps') \<Longrightarrow> length prepared = length calls"
  by (induction calls arbitrary: ps prepared) (auto split: prod.splits returns.splits)

text \<open>Completing in any order fills every position.\<close>

lemma complete_at_length:
  "foldl (complete_at ops env spec jobs) (outs, ps) order = (outs', ps') \<Longrightarrow> length outs' = length outs"
  by (induction order arbitrary: outs ps) (auto simp: complete_at_def split: prod.splits)

lemma complete_at_step:
  "complete_tool_call ops env spec (fst (jobs ! i)) (snd (jobs ! i)) ps = (out, ps') \<Longrightarrow>
   complete_at ops env spec jobs (outs, ps) i = (outs[i := Some out], ps')"
  by (simp add: complete_at_def)

lemma complete_at_filled:
  "foldl (complete_at ops env spec jobs) (outs, ps) order = (outs', ps') \<Longrightarrow>
   i < length outs \<Longrightarrow> i \<in> set order \<or> outs ! i \<noteq> None \<Longrightarrow> outs' ! i \<noteq> None"
proof (induction order arbitrary: outs ps)
  case (Cons j order)
  obtain out ps1 where c: "complete_tool_call ops env spec (fst (jobs ! j)) (snd (jobs ! j)) ps = (out, ps1)"
    by fastforce
  show ?case
  proof (rule Cons.IH [of "outs[j := Some out]" ps1])
    show "foldl (complete_at ops env spec jobs) (outs[j := Some out], ps1) order = (outs', ps')"
      using Cons.prems(1) by (simp add: complete_at_step [OF c])
    show "i \<in> set order \<or> outs[j := Some out] ! i \<noteq> None"
      using Cons.prems(2,3) by (cases "i = j") auto
  qed (use Cons.prems(2) in simp)
qed simp

text \<open>What stands at a position is an outcome of the call at that position.\<close>

definition outcome_of ::
    "'st journal_store \<Rightarrow> pipe_env \<Rightarrow> ('w, 'h) run_spec \<Rightarrow>
     tool_call_request \<times> (tool_outcome + 'w prepared_call) \<Rightarrow> tool_outcome \<Rightarrow> bool" where
  "outcome_of ops env spec job out \<longleftrightarrow>
     (\<exists>ps ps'. complete_tool_call ops env spec (fst job) (snd job) ps = (out, ps' :: ('w, 'h, 'st) pipe_state))"

lemma complete_at_outcomes:
  "foldl (complete_at ops env spec jobs) (outs, ps) order = (outs', ps') \<Longrightarrow>
   \<forall>i < length outs. \<forall>out. outs ! i = Some out \<longrightarrow> outcome_of ops env spec (jobs ! i) out \<Longrightarrow>
   i < length outs \<Longrightarrow> outs' ! i = Some out \<Longrightarrow> outcome_of ops env spec (jobs ! i) out"
proof (induction order arbitrary: outs ps)
  case (Cons j order)
  obtain o' ps1 where c: "complete_tool_call ops env spec (fst (jobs ! j)) (snd (jobs ! j)) ps = (o', ps1)"
    by fastforce
  show ?case
  proof (rule Cons.IH [of "outs[j := Some o']" ps1])
    show "foldl (complete_at ops env spec jobs) (outs[j := Some o'], ps1) order = (outs', ps')"
      using Cons.prems(1) by (simp add: complete_at_step [OF c])
    show "\<forall>k < length (outs[j := Some o']). \<forall>out. outs[j := Some o'] ! k = Some out \<longrightarrow>
        outcome_of ops env spec (jobs ! k) out"
    proof (intro allI impI)
      fix k out assume k: "k < length (outs[j := Some o'])" "outs[j := Some o'] ! k = Some out"
      show "outcome_of ops env spec (jobs ! k) out"
      proof (cases "k = j")
        case True
        with k c show ?thesis unfolding outcome_of_def by auto
      next
        case False
        with k Cons.prems(2) show ?thesis by simp
      qed
    qed
  qed (use Cons.prems(3,4) in simp_all)
qed simp

lemma completion_order_set [simp]: "set (completion_order schedule n) = {0..<n}"
proof -
  have "set schedule = {0..<n}" if "sort schedule = [0..<n]"
    using that by (metis set_sort set_upt)
  then show ?thesis by (simp add: completion_order_def)
qed

lemma completion_order_distinct [simp]: "distinct (completion_order schedule n)"
  by (metis completion_order_def distinct_sort distinct_upt)

lemma complete_batch_length:
  "complete_batch ops env spec schedule batch prepared ps = (outcomes, ps') \<Longrightarrow> length outcomes = length batch"
  by (auto simp: complete_batch_def Let_def split: prod.splits dest: complete_at_length)

lemma complete_batch_outcomes:
  assumes b: "complete_batch ops env spec schedule batch prepared ps = (outcomes, ps')"
    and l: "length prepared = length batch" and i: "i < length batch"
  shows "outcome_of ops env (as_pipe spec) (batch ! i, prepared ! i) (outcomes ! i)"
proof -
  define order where "order = (if as_concurrent_tools spec \<and> length batch > 1
    then completion_order schedule (length batch) else [0..<length batch])"
  have mem: "i \<in> set order" using i by (simp add: order_def)
  obtain outs where f: "foldl (complete_at ops env (as_pipe spec) (zip batch prepared))
      (replicate (length batch) None, ps) order = (outs, ps')" and outs: "outcomes = map the outs"
    using b by (auto simp: complete_batch_def Let_def order_def split: prod.splits)
  have len: "length outs = length batch" using complete_at_length [OF f] by simp
  have "outs ! i \<noteq> None" by (rule complete_at_filled [OF f]) (use i mem in simp_all)
  then obtain out where out: "outs ! i = Some out" by blast
  have "outcome_of ops env (as_pipe spec) (zip batch prepared ! i) out"
    by (rule complete_at_outcomes [OF f _ _ out]) (use i in simp_all)
  then show ?thesis using i l out len by (simp add: outs)
qed

text \<open>A result with its event, as the outcome of a call gives them.\<close>

definition answers ::
    "'st journal_store \<Rightarrow> pipe_env \<Rightarrow> ('w, 'h) run_spec \<Rightarrow> tool_call_request \<Rightarrow>
     string \<times> (string \<times> string) list \<Rightarrow> bool" where
  "answers ops env spec call re \<longleftrightarrow>
     (\<exists>prepared out. outcome_of ops env spec (call, prepared) out \<and>
        (\<exists>fatal. into_triple (tc_name call) (snd (take_added_context out)) = (fst re, snd re, fatal)))"

definition results_of :: "batch_results \<Rightarrow> (string \<times> (string \<times> string) list) list" where
  "results_of r = zip (br_results r) (br_events r)"

lemma collect_outcome_results:
  "length (br_results r) = length (br_events r) \<Longrightarrow>
   length (br_results (collect_outcome r (call, out))) = length (br_events (collect_outcome r (call, out))) \<and>
   (\<exists>re fatal. into_triple (tc_name call) (snd (take_added_context out)) = (fst re, snd re, fatal) \<and>
      results_of (collect_outcome r (call, out)) = results_of r @ [re])"
  by (auto simp: collect_outcome_def results_of_def split: prod.splits)

lemma collect_outcomes_answers:
  assumes "length batch = length outcomes" "length (br_results r) = length (br_events r)"
    "\<forall>i < length batch. \<exists>prepared. outcome_of ops env spec (batch ! i, prepared) (outcomes ! i)"
  shows "length (br_results (foldl collect_outcome r (zip batch outcomes))) =
           length (br_events (foldl collect_outcome r (zip batch outcomes))) \<and>
         (\<exists>res. results_of (foldl collect_outcome r (zip batch outcomes)) = results_of r @ res \<and>
            list_all2 (answers ops env spec) batch res)"
  using assms
proof (induction batch outcomes arbitrary: r rule: list_induct2)
  case (Cons c cs out outs)
  obtain re fatal where re: "into_triple (tc_name c) (snd (take_added_context out)) = (fst re, snd re, fatal)"
    "results_of (collect_outcome r (c, out)) = results_of r @ [re]"
    "length (br_results (collect_outcome r (c, out))) = length (br_events (collect_outcome r (c, out)))"
    using collect_outcome_results [OF Cons.prems(1), of c out] by metis
  have "\<forall>i < length cs. \<exists>prepared. outcome_of ops env spec (cs ! i, prepared) (outs ! i)"
    using Cons.prems(2) by (metis Suc_less_eq length_Cons nth_Cons_Suc)
  from Cons.IH [OF re(3) this] obtain res where
    res: "results_of (foldl collect_outcome (collect_outcome r (c, out)) (zip cs outs)) = results_of r @ re # res"
      "list_all2 (answers ops env spec) cs res"
    and len: "length (br_results (foldl collect_outcome (collect_outcome r (c, out)) (zip cs outs))) =
      length (br_events (foldl collect_outcome (collect_outcome r (c, out)) (zip cs outs)))"
    using re(2) by auto
  have "\<exists>prepared. outcome_of ops env spec (c, prepared) out"
    using Cons.prems(2) by fastforce
  then have "answers ops env spec c re" unfolding answers_def using re(1) by blast
  with res len show ?case by (auto intro!: exI [of _ "re # res"])
qed simp

lemma execute_batches_answers:
  "execute_batches ops env schedule spec batches r ps = (Returns r', ps') \<Longrightarrow>
   length (br_results r) = length (br_events r) \<Longrightarrow>
   length (br_results r') = length (br_events r') \<and>
   (\<exists>res. results_of r' = results_of r @ res \<and> list_all2 (answers ops env (as_pipe spec)) (concat batches) res)"
proof (induction batches arbitrary: r ps)
  case (Cons b bs)
  obtain prepared ps1 where p: "prepare_batch ops env (as_pipe spec) b ps = (Returns prepared, ps1)"
    using Cons.prems by (auto split: prod.splits returns.splits)
  obtain outcomes ps2 where c: "complete_batch ops env spec (schedule b) b prepared ps1 = (outcomes, ps2)"
    by fastforce
  define r1 where "r1 = foldl collect_outcome r (zip b outcomes)"
  have "\<forall>i < length b. \<exists>prepared. outcome_of ops env (as_pipe spec) (b ! i, prepared) (outcomes ! i)"
    using complete_batch_outcomes [OF c prepare_batch_length [OF p]] by blast
  from collect_outcomes_answers [OF complete_batch_length [OF c, symmetric] Cons.prems(2) this]
  obtain res1 where r1: "length (br_results r1) = length (br_events r1)"
    "results_of r1 = results_of r @ res1" "list_all2 (answers ops env (as_pipe spec)) b res1"
    unfolding r1_def by blast
  have "execute_batches ops env schedule spec bs r1 ps2 = (Returns r', ps')"
    using Cons.prems(1) p c by (simp add: r1_def)
  from Cons.IH [OF this r1(1)] r1 show ?case
    by (auto intro!: list_all2_appendI)
qed simp

lemma execute_tools_answers:
  assumes "execute_tools ops env schedule spec calls ps = (Returns r, ps')"
  shows "length (br_results r) = length calls" "length (br_events r) = length calls"
    "list_all2 (answers ops env (as_pipe spec)) calls (zip (br_results r) (br_events r))"
proof -
  have "length (br_results no_results) = length (br_events no_results)" by (simp add: no_results_def)
  from execute_batches_answers [OF assms [unfolded execute_tools_def] this]
  have "length (br_results r) = length (br_events r)"
    "list_all2 (answers ops env (as_pipe spec)) calls (zip (br_results r) (br_events r))"
    by (auto simp: results_of_def no_results_def partition_concat)
  then show "length (br_results r) = length calls" "length (br_events r) = length calls"
    "list_all2 (answers ops env (as_pipe spec)) calls (zip (br_results r) (br_events r))"
    by (auto dest: list_all2_lengthD)
qed

section \<open>The conversation\<close>

text \<open>What the loop itself reads and writes: messages, requests and the two counters.\<close>

record conversation =
  cv_messages :: "json list"
  cv_requests :: "provider_request list"
  cv_empty :: nat
  cv_recoveries :: nat

definition conv_of :: "('w, 'h, 'st, 'p) run_state \<Rightarrow> conversation" where
  "conv_of st = \<lparr>cv_messages = rn_messages st, cv_requests = rn_requests st,
     cv_empty = rn_empty_retries st, cv_recoveries = rn_length_recoveries st\<rparr>"

lemma conv_of_simps [simp]:
  "cv_messages (conv_of st) = rn_messages st" "cv_requests (conv_of st) = rn_requests st"
  "cv_empty (conv_of st) = rn_empty_retries st" "cv_recoveries (conv_of st) = rn_length_recoveries st"
  by (simp_all add: conv_of_def)

lemma conv_of_pipe [simp]:
  "conv_of (st\<lparr>rn_pipe := ps\<rparr>) = conv_of st" "conv_of (st\<lparr>rn_provider := p\<rparr>) = conv_of st"
  "conv_of (st\<lparr>rn_usage := u\<rparr>) = conv_of st" "conv_of (st\<lparr>rn_checkpoints := c\<rparr>) = conv_of st"
  "conv_of (st\<lparr>rn_tools_used := t\<rparr>) = conv_of st" "conv_of (st\<lparr>rn_tool_events := e\<rparr>) = conv_of st"
  by (simp_all add: conv_of_def)

lemma conv_of_fields [simp]:
  "conv_of (st\<lparr>rn_messages := ms\<rparr>) = (conv_of st)\<lparr>cv_messages := ms\<rparr>"
  "conv_of (st\<lparr>rn_requests := rs\<rparr>) = (conv_of st)\<lparr>cv_requests := rs\<rparr>"
  "conv_of (st\<lparr>rn_empty_retries := e\<rparr>) = (conv_of st)\<lparr>cv_empty := e\<rparr>"
  "conv_of (st\<lparr>rn_length_recoveries := l\<rparr>) = (conv_of st)\<lparr>cv_recoveries := l\<rparr>"
  by (simp_all add: conv_of_def)

lemma conv_of_eq:
  assumes "conv_of st = conv_of st'"
  shows "rn_messages st = rn_messages st'" "rn_requests st = rn_requests st'"
    "rn_empty_retries st = rn_empty_retries st'" "rn_length_recoveries st = rn_length_recoveries st'"
  using assms by (simp_all add: conv_of_def)

lemma conv_fire: "fire hook event (ctx, st) = (ctx', st') \<Longrightarrow> conv_of st' = conv_of st"
  by (auto simp: fire_def split: prod.splits)

lemma conv_finalize: "finalize hook ctx content st = (content', st') \<Longrightarrow> conv_of st' = conv_of st"
  by (auto simp: finalize_def split: prod.splits)

lemma conv_emit [simp]: "conv_of (emit_step_checkpoint ops env spec step kind turn_start st) = conv_of st"
  by (auto simp: emit_step_checkpoint_def emit_checkpoint_def Let_def split: option.splits prod.splits)

lemma conv_usage [simp]: "conv_of (accumulate_usage renv u st) = conv_of st"
  by (simp add: accumulate_usage_def)

lemma conv_push [simp]: "conv_of (push_message m st) = (conv_of st)\<lparr>cv_messages := cv_messages (conv_of st) @ [m]\<rparr>"
  by (simp add: push_message_def)

lemma conv_final [simp]:
  "conv_of (final_message c st) = (conv_of st)\<lparr>cv_messages := append_final_message c (cv_messages (conv_of st))\<rparr>"
  by (simp add: final_message_def)

definition first_request :: "('w, 'h) agent_run_spec \<Rightarrow> json list \<Rightarrow> provider_request" where
  "first_request spec prompt = \<lparr>pr_messages = prompt, pr_tools = offered_tools spec, pr_max_tokens = as_max_tokens spec\<rparr>"

definition retry_request :: "('w, 'h) agent_run_spec \<Rightarrow> json list \<Rightarrow> provider_request" where
  "retry_request spec prompt =
     \<lparr>pr_messages = prompt @ [build_finalization_retry_message], pr_tools = None, pr_max_tokens = as_max_tokens spec\<rparr>"

lemma conv_stream: "conv_of (foldl (\<lambda>st event. snd (fire hook event (ctx, st))) st events) = conv_of st"
proof (induction events arbitrary: st)
  case (Cons e es)
  obtain ctx' st' where "fire hook e (ctx, st) = (ctx', st')" by fastforce
  with Cons conv_fire [OF this] show ?case by simp
qed simp

lemma conv_request:
  "request_model provider hook spec prompt ctx st = (response, st') \<Longrightarrow>
   conv_of st' = (conv_of st)\<lparr>cv_requests := cv_requests (conv_of st) @ [first_request spec prompt]\<rparr>"
  by (auto simp: request_model_def Let_def first_request_def conv_stream split: if_splits prod.splits)

lemma conv_retry:
  "request_finalization_retry provider spec prompt st = (response, st') \<Longrightarrow>
   conv_of st' = (conv_of st)\<lparr>cv_requests := cv_requests (conv_of st) @ [retry_request spec prompt]\<rparr>"
  by (auto simp: request_finalization_retry_def Let_def retry_request_def split: prod.splits)

text \<open>What one round of tools adds to the messages.\<close>

definition round_messages :: "pipe_env \<Rightarrow> llm_response \<Rightarrow> batch_results \<Rightarrow> json list" where
  "round_messages env response r =
     requesting_message env response # map (tool_message (pe_parse env)) (zip (lr_tool_calls response) (br_results r)) @
     (if br_added_context r \<noteq> [] then [context_message (br_added_context r)] else [])"

definition prompt_of :: "token_env \<Rightarrow> ('w, 'h) agent_run_spec \<Rightarrow> json list \<Rightarrow> json list \<Rightarrow> bool" where
  "prompt_of tk spec messages prompt \<longleftrightarrow> (\<exists>env files. prompt = fst (messages_for_model env tk spec messages files))"

text \<open>The requests of one iteration: one, or a second one for a final answer.\<close>

inductive asked :: "token_env \<Rightarrow> ('w, 'h) agent_run_spec \<Rightarrow> json list \<Rightarrow> provider_request list \<Rightarrow> bool"
  for tk spec messages where
  once: "prompt_of tk spec messages prompt \<Longrightarrow> asked tk spec messages [first_request spec prompt]"
| twice: "prompt_of tk spec messages prompt \<Longrightarrow>
    asked tk spec messages [first_request spec prompt, retry_request spec prompt]"

text \<open>The machine: how an iteration goes on, and how it ends the run.\<close>

inductive conv_continue :: "token_env \<Rightarrow> ('w, 'h) agent_run_spec \<Rightarrow> conversation \<Rightarrow> conversation \<Rightarrow> bool"
  for tk spec where
  truncated_call: "prompt_of tk spec (cv_messages c) prompt \<Longrightarrow> cv_recoveries c < MAX_LENGTH_RECOVERIES \<Longrightarrow>
    conv_continue tk spec c
      (c\<lparr>cv_messages := cv_messages c @ [build_truncated_tool_call_recovery_message],
         cv_requests := cv_requests c @ [first_request spec prompt],
         cv_recoveries := Suc (cv_recoveries c)\<rparr>)"
| tool_round: "prompt_of tk spec (cv_messages c) prompt \<Longrightarrow> lr_tool_calls response \<noteq> [] \<Longrightarrow>
    length (br_results r) = length (lr_tool_calls response) \<Longrightarrow>
    conv_continue tk spec c
      (c\<lparr>cv_messages := cv_messages c @ round_messages env response r,
         cv_requests := cv_requests c @ [first_request spec prompt], cv_empty := 0, cv_recoveries := 0\<rparr>)"
| blank_answer: "prompt_of tk spec (cv_messages c) prompt \<Longrightarrow> cv_empty c < MAX_EMPTY_RETRIES \<Longrightarrow>
    conv_continue tk spec c
      (c\<lparr>cv_requests := cv_requests c @ [first_request spec prompt], cv_empty := Suc (cv_empty c)\<rparr>)"
| partial_answer: "asked tk spec (cv_messages c) rs \<Longrightarrow> cv_recoveries c < MAX_LENGTH_RECOVERIES \<Longrightarrow>
    conv_continue tk spec c
      (c\<lparr>cv_messages := cv_messages c @ [text_message content response, build_length_recovery_message],
         cv_requests := cv_requests c @ rs, cv_recoveries := Suc (cv_recoveries c)\<rparr>)"

inductive conv_end :: "token_env \<Rightarrow> ('w, 'h) agent_run_spec \<Rightarrow> conversation \<Rightarrow> run_finish \<Rightarrow> conversation \<Rightarrow> bool"
  for tk spec where
  answered_run: "asked tk spec (cv_messages c) rs \<Longrightarrow> \<not> is_blank_text content \<Longrightarrow>
    conv_end tk spec c \<lparr>rf_stop_reason = ''completed'', rf_final_content = content, rf_error = None\<rparr>
      (c\<lparr>cv_messages := cv_messages c @ [text_message content response], cv_requests := cv_requests c @ rs\<rparr>)"
| empty_run: "asked tk spec (cv_messages c) rs \<Longrightarrow>
    conv_end tk spec c \<lparr>rf_stop_reason = ''empty_final_response'',
        rf_final_content = Some EMPTY_FINAL_RESPONSE_MESSAGE, rf_error = None\<rparr>
      (c\<lparr>cv_messages := append_final_message (Some EMPTY_FINAL_RESPONSE_MESSAGE) (cv_messages c),
         cv_requests := cv_requests c @ rs\<rparr>)"
| provider_error: "asked tk spec (cv_messages c) rs \<Longrightarrow>
    conv_end tk spec c \<lparr>rf_stop_reason = ''error'', rf_final_content = Some e, rf_error = Some e\<rparr>
      (c\<lparr>cv_messages := append_final_message (Some e) (cv_messages c), cv_requests := cv_requests c @ rs\<rparr>)"
| fatal_tool: "prompt_of tk spec (cv_messages c) prompt \<Longrightarrow> lr_tool_calls response \<noteq> [] \<Longrightarrow>
    \<not> is_tripped_error e \<Longrightarrow>
    conv_end tk spec c \<lparr>rf_stop_reason = ''tool_error'',
        rf_final_content = Some (''Error: '' @ e @ ''\<newline>'' @ error_fallback spec), rf_error = Some e\<rparr>
      (c\<lparr>cv_messages := append_final_message (Some (''Error: '' @ e @ ''\<newline>'' @ error_fallback spec))
           (cv_messages c @ [requesting_message env response]),
         cv_requests := cv_requests c @ [first_request spec prompt]\<rparr>)"
| tripped_run: "prompt_of tk spec (cv_messages c) prompt \<Longrightarrow> lr_tool_calls response \<noteq> [] \<Longrightarrow>
    length (br_results r) = length (lr_tool_calls response) \<Longrightarrow> is_tripped_error e \<Longrightarrow>
    conv_end tk spec c \<lparr>rf_stop_reason = CIRCUIT_BREAKER_STOP_REASON,
        rf_final_content = Some CIRCUIT_BREAKER_USER_MESSAGE, rf_error = Some e\<rparr>
      (c\<lparr>cv_messages := append_final_message (Some CIRCUIT_BREAKER_USER_MESSAGE)
           (cv_messages c @ round_messages env response r),
         cv_requests := cv_requests c @ [first_request spec prompt]\<rparr>)"

section \<open>The loop refines the machine\<close>

text \<open>The state a run is in when an iteration unwinds: a call of the last request panicked.\<close>

definition unwound :: "token_env \<Rightarrow> ('w, 'h) agent_run_spec \<Rightarrow> conversation \<Rightarrow> conversation \<Rightarrow> bool" where
  "unwound tk spec c c' \<longleftrightarrow>
     (\<exists>prompt env response. prompt_of tk spec (cv_messages c) prompt \<and>
        c' = c\<lparr>cv_messages := cv_messages c @ [requesting_message env response],
               cv_requests := cv_requests c @ [first_request spec prompt]\<rparr>)"

text \<open>
  The outcome of an iteration that has asked \<open>rs\<close> about the messages of \<open>c\<close>, when the conversation
  is otherwise still \<open>c\<close>.
\<close>

fun end_refines ::
    "token_env \<Rightarrow> ('w, 'h) agent_run_spec \<Rightarrow> conversation \<Rightarrow> ('w, 'h, 'st, 'p) iteration_end \<Rightarrow> bool" where
  "end_refines tk spec c (ContinueLoop st) \<longleftrightarrow> conv_continue tk spec c (conv_of st)"
| "end_refines tk spec c (BreakLoop f st) \<longleftrightarrow> conv_end tk spec c f (conv_of st)"
| "end_refines tk spec c (Unwinds st) \<longleftrightarrow> unwound tk spec c (conv_of st)"

declare conv_of_simps [simp del]

lemma conv_swap [simp]: "c\<lparr>cv_requests := x, cv_messages := y\<rparr> = c\<lparr>cv_messages := y, cv_requests := x\<rparr>"
  by simp

lemmas rn_conv = conv_of_simps [symmetric]

lemma conv_fire_snd [simp]: "conv_of (snd (fire hook event s)) = conv_of (snd s)"
  by (cases s) (metis conv_fire prod.collapse snd_conv)

lemma conv_finalize_snd [simp]: "conv_of (snd (finalize hook ctx content st)) = conv_of st"
  by (metis conv_finalize prod.collapse)

lemma abort_refines:
  assumes "conv_of st = c\<lparr>cv_requests := cv_requests c @ rs\<rparr>" "asked tk spec (cv_messages c) rs"
  shows "end_refines tk spec c (abort_with_provider_error env hook spec detail ctx st)"
  using assms(2) by (auto simp: abort_with_provider_error_def Let_def split_beta assms(1) intro: provider_error)

lemma finish_text_refines:
  assumes "conv_of st = c\<lparr>cv_requests := cv_requests c @ rs\<rparr>" "asked tk spec (cv_messages c) rs"
  shows "end_refines tk spec c (finish_text ops env hook spec turn_start response content reason ctx st)"
proof (cases "reason = ''length'' \<and> cv_recoveries c < MAX_LENGTH_RECOVERIES")
  case True
  then show ?thesis
    using partial_answer [OF assms(2), of content response]
    by (simp add: finish_text_def rn_conv assms(1) Let_def split_beta)
next
  case False
  show ?thesis
  proof (cases "reason = ''error''")
    case True
    with False show ?thesis using abort_refines [OF assms] by (simp add: finish_text_def rn_conv assms(1))
  next
    case error: False
    with False show ?thesis
      using empty_run [OF assms(2)] answered_run [OF assms(2), of content response]
      by (auto simp: finish_text_def rn_conv assms(1) Let_def split_beta)
  qed
qed

lemma text_branch_refines:
  assumes "conv_of st = c\<lparr>cv_requests := cv_requests c @ [first_request spec prompt]\<rparr>"
    "prompt_of tk spec (cv_messages c) prompt"
  shows "end_refines tk spec c (text_branch ops renv env provider hook spec turn_start prompt response ctx st)"
proof -
  obtain content st1 where fin: "finalize hook ctx (lr_content response) st = (content, st1)" by fastforce
  have st1: "conv_of st1 = c\<lparr>cv_requests := cv_requests c @ [first_request spec prompt]\<rparr>"
    using conv_finalize [OF fin] assms(1) by simp
  obtain retry st2 where retry: "request_finalization_retry provider spec prompt st1 = (retry, st2)" by fastforce
  obtain content' st3 where fin': "finalize hook ctx (lr_content retry) (accumulate_usage renv (lr_usage retry) st2) = (content', st3)"
    by fastforce
  have st3: "conv_of st3 = c\<lparr>cv_requests := cv_requests c @ [first_request spec prompt, retry_request spec prompt]\<rparr>"
    using conv_finalize [OF fin'] conv_retry [OF retry] st1 by simp
  note once = asked.once [OF assms(2)] and twice = asked.twice [OF assms(2)]
  show ?thesis
    using abort_refines [OF st1 once] finish_text_refines [OF st1 once] finish_text_refines [OF st3 twice]
      blank_answer [OF assms(2)]
    by (simp add: text_branch_def fin retry fin' Let_def split_beta rn_conv st1)
qed

lemma finish_tools_refines:
  assumes "conv_of st = c\<lparr>cv_messages := cv_messages c @ [requesting_message env response],
      cv_requests := cv_requests c @ [first_request spec prompt]\<rparr>"
    "prompt_of tk spec (cv_messages c) prompt" "lr_tool_calls response \<noteq> []"
    "length (br_results r) = length (lr_tool_calls response)"
  shows "end_refines tk spec c (finish_tools ops env hook spec turn_start response r ctx st)"
proof (cases "br_fatal r")
  case None
  then show ?thesis
    using tool_round [OF assms(2-4), of env]
    by (cases "br_added_context r = []") (simp_all add: finish_tools_def is_fatal_error_def is_tripped_def Let_def split_beta rn_conv assms(1) round_messages_def)
next
  case (Some e)
  show ?thesis
  proof (cases "is_tripped_error e")
    case True
    with Some show ?thesis
      using tripped_run [OF assms(2-4) True, of env]
      by (cases "br_added_context r = []") (simp_all add: finish_tools_def is_fatal_error_def is_tripped_def Let_def split_beta rn_conv assms(1) round_messages_def)
  next
    case False
    with Some show ?thesis
      using fatal_tool [OF assms(2-3) False, of env]
      by (simp add: finish_tools_def is_fatal_error_def is_tripped_def Let_def split_beta rn_conv assms(1))
  qed
qed

lemma tool_branch_refines:
  assumes "conv_of st = c\<lparr>cv_requests := cv_requests c @ [first_request spec prompt]\<rparr>"
    "prompt_of tk spec (cv_messages c) prompt" "lr_tool_calls response \<noteq> []"
  shows "end_refines tk spec c (tool_branch ops env schedule hook spec turn_start response ctx st)"
proof (cases "lr_finish_reason response = ''length'' \<and> cv_recoveries c < MAX_LENGTH_RECOVERIES")
  case True
  then show ?thesis
    using truncated_call [OF assms(2)]
    by (simp add: tool_branch_def Let_def split_beta rn_conv assms(1))
next
  case False
  define s1 where "s1 = fire hook (OnStreamEnd True) (ctx, st)"
  define s2 where "s2 = fire hook OnToolCalls ((fst s1)\<lparr>hc_tool_calls := lr_tool_calls response\<rparr>,
    emit_step_checkpoint ops env spec PreTool TYPE_AWAITING_TOOLS turn_start
      (push_message (requesting_message env response) (snd s1)))"
  have s2: "conv_of (snd s2) = c\<lparr>cv_messages := cv_messages c @ [requesting_message env response],
      cv_requests := cv_requests c @ [first_request spec prompt]\<rparr>"
    by (simp add: s2_def s1_def assms(1))
  obtain res ps where ex: "execute_tools ops env schedule spec
      (map tool_call_request.truncate (lr_tool_calls response)) (rn_pipe (snd s2)) = (res, ps)" by fastforce
  have eq: "tool_branch ops env schedule hook spec turn_start response ctx st =
    (case res of Panics \<Rightarrow> Unwinds ((snd s2)\<lparr>rn_pipe := ps\<rparr>)
     | Returns r \<Rightarrow> finish_tools ops env hook spec turn_start response r (fst s2) ((snd s2)\<lparr>rn_pipe := ps\<rparr>))"
    using False ex by (auto simp: tool_branch_def Let_def split_beta rn_conv assms(1) s1_def s2_def split: returns.splits)
  show ?thesis
  proof (cases res)
    case Panics
    then show ?thesis using assms(2) by (auto simp: eq s2 unwound_def)
  next
    case (Returns r)
    have "length (br_results r) = length (lr_tool_calls response)"
      using execute_tools_answers(1) [OF ex [unfolded Returns]] by simp
    from finish_tools_refines [OF _ assms(2,3) this, of "(snd s2)\<lparr>rn_pipe := ps\<rparr>" env] s2
    show ?thesis by (simp add: eq Returns)
  qed
qed

lemma run_iteration_refines:
  "end_refines (re_tokens renv) spec (conv_of st) (run_iteration ops renv provider hook spec turn_start iteration st)"
proof -
  obtain prompt files where prompt: "messages_for_model (re_pipe renv iteration) (re_tokens renv) spec (rn_messages st)
      (ps_result_files (rn_pipe st)) = (prompt, files)" by fastforce
  then have p: "prompt_of (re_tokens renv) spec (cv_messages (conv_of st)) prompt"
    unfolding prompt_of_def conv_of_simps by (metis fst_conv)
  define st0 where "st0 = st\<lparr>rn_pipe := (rn_pipe st)\<lparr>ps_result_files := files\<rparr>\<rparr>"
  define st1 where "st1 = (if iteration = 0
    then emit_step_checkpoint ops (re_pipe renv iteration) spec PreModel TYPE_PRE_MODEL turn_start st0 else st0)"
  define s2 where "s2 = fire hook BeforeIteration ((hook_context_new iteration (rn_messages st1))
            \<lparr>hc_channel := sp_channel (as_pipe spec), hc_chat_id := sp_chat_id (as_pipe spec)\<rparr>, st1)"
  obtain response st3 where req: "request_model provider hook spec prompt (fst s2) (snd s2) = (response, st3)" by fastforce
  have "conv_of (snd s2) = conv_of st" by (simp add: s2_def st1_def st0_def)
  then have c: "conv_of (accumulate_usage renv (lr_usage response) st3) =
      (conv_of st)\<lparr>cv_requests := cv_requests (conv_of st) @ [first_request spec prompt]\<rparr>"
    using conv_request [OF req] by simp
  have eq: "run_iteration ops renv provider hook spec turn_start iteration st =
    (if lr_tool_calls response \<noteq> []
     then tool_branch ops (re_pipe renv iteration) (re_schedule renv iteration) hook spec turn_start response
       ((fst s2)\<lparr>hc_usage := lr_usage response, hc_response := Some response\<rparr>) (accumulate_usage renv (lr_usage response) st3)
     else text_branch ops renv (re_pipe renv iteration) provider hook spec turn_start prompt response
       ((fst s2)\<lparr>hc_usage := lr_usage response, hc_response := Some response\<rparr>) (accumulate_usage renv (lr_usage response) st3))"
    unfolding run_iteration_def Let_def split_beta prompt fst_conv snd_conv st0_def [symmetric]
      st1_def [symmetric] s2_def [symmetric] req ..
  show ?thesis
    unfolding eq using tool_branch_refines [OF c p] text_branch_refines [OF c p] by simp
qed

definition exhausted_finish :: "('w, 'h) agent_run_spec \<Rightarrow> run_finish" where
  "exhausted_finish spec =
     \<lparr>rf_stop_reason = ''max_iterations'', rf_final_content = as_max_iterations_message spec, rf_error = None\<rparr>"

text \<open>A run is at most \<open>n\<close> rounds of the machine and then one end.\<close>

fun run_end ::
    "token_env \<Rightarrow> ('w, 'h) agent_run_spec \<Rightarrow> bool \<Rightarrow> conversation \<Rightarrow> run_finish returns \<Rightarrow> conversation \<Rightarrow> bool" where
  "run_end tk spec left c Panics c' \<longleftrightarrow> left \<and> unwound tk spec c c'"
| "run_end tk spec left c (Returns f) c' \<longleftrightarrow>
     (left \<and> conv_end tk spec c f c') \<or>
     (\<not> left \<and> f = exhausted_finish spec \<and>
      c' = c\<lparr>cv_messages := append_final_message (as_max_iterations_message spec) (cv_messages c)\<rparr>)"

lemma run_loop_refines:
  "run_loop ops renv provider hook spec turn_start iteration n st = (res, st') \<Longrightarrow>
   \<exists>k c. k \<le> n \<and> (conv_continue (re_tokens renv) spec ^^ k) (conv_of st) c \<and>
     run_end (re_tokens renv) spec (k < n) c res (conv_of st')"
proof (induction n arbitrary: iteration st)
  case 0
  then show ?case by (auto simp: exhausted_finish_def intro!: exI [of _ "0 :: nat"])
next
  case (Suc n)
  let ?it = "run_iteration ops renv provider hook spec turn_start iteration st"
  have r: "end_refines (re_tokens renv) spec (conv_of st) ?it" by (rule run_iteration_refines)
  show ?case
  proof (cases ?it)
    case (ContinueLoop st1)
    with Suc.prems have "run_loop ops renv provider hook spec turn_start (Suc iteration) n st1 = (res, st')"
      by simp
    from Suc.IH [OF this] obtain k c where k: "k \<le> n"
      "(conv_continue (re_tokens renv) spec ^^ k) (conv_of st1) c"
      "run_end (re_tokens renv) spec (k < n) c res (conv_of st')" by blast
    have "(conv_continue (re_tokens renv) spec ^^ Suc k) (conv_of st) c"
      by (rule relpowp_Suc_I2 [OF _ k(2)]) (use r ContinueLoop in simp)
    with k show ?thesis by (intro exI [of _ "Suc k"] exI [of _ c] conjI) simp_all
  next
    case (BreakLoop f st1)
    with Suc.prems r show ?thesis by (auto intro!: exI [of _ "0 :: nat"])
  next
    case (Unwinds st1)
    with Suc.prems r show ?thesis by (auto intro!: exI [of _ "0 :: nat"])
  qed
qed

lemma conv_steps_invariant:
  "(conv_continue tk spec ^^ k) c c' \<Longrightarrow> I c \<Longrightarrow> (\<And>x y. conv_continue tk spec x y \<Longrightarrow> I x \<Longrightarrow> I y) \<Longrightarrow> I c'"
proof (induction k arbitrary: c')
  case (Suc k)
  from Suc.prems(1) obtain b where "(conv_continue tk spec ^^ k) c b" "conv_continue tk spec b c'"
    by (auto elim: relpowp_Suc_E)
  with Suc.IH Suc.prems(2,3) show ?case by blast
qed simp

section \<open>What the messages of a run are\<close>

lemma build_assistant_get [simp]:
  "has_role r (build_assistant_message content calls reasoning thinking) \<longleftrightarrow> r = ''assistant''"
  "json_get (build_assistant_message content calls reasoning thinking) ''content'' = Some (json_opt_str content)"
  "json_get (build_assistant_message content calls reasoning thinking) ''tool_calls'' = map_option JArray calls"
  by (auto simp: build_assistant_message_def has_role_def get_str_def Let_def obj_insert_def split: option.splits)

lemma assistant_role: "has_role r m \<Longrightarrow> get_str m ''role'' = Some r"
  by (simp add: has_role_def)

lemma assistant_ids: "declared_ids (build_assistant_message content calls reasoning thinking) =
   (case calls of None \<Rightarrow> [] | Some cs \<Rightarrow> List.map_filter (\<lambda>call. get_str call ''id'') cs)"
proof -
  have "role_of (build_assistant_message content calls reasoning thinking) = ''assistant''"
    using assistant_role [of "''assistant''" "build_assistant_message content calls reasoning thinking"]
    by (simp add: str_or_empty_def)
  then show ?thesis by (simp add: declared_ids_def tool_call_ids_def get_array_def split: option.splits)
qed

lemma assistant_answers_nothing [simp]: "answered_id (build_assistant_message content calls reasoning thinking) = None"
  using not_tool_answers_nothing [of "build_assistant_message content calls reasoning thinking"] by simp

lemma openai_id [simp]: "get_str (to_openai_tool_call pretty call) ''id'' = Some (tc_id call)"
  by (simp add: to_openai_tool_call_def get_str_def)

lemma requesting_ids: "declared_ids (requesting_message env response) = map tc_id (lr_tool_calls response)"
proof -
  have "List.map_filter (\<lambda>call. get_str call ''id'') (map (to_openai_tool_call pretty) cs) = map tc_id cs" for pretty cs
    by (induction cs) (simp_all add: List.map_filter_simps)
  then show ?thesis by (simp add: requesting_message_def assistant_ids)
qed

lemma requesting_requests [simp]: "requests_tools (requesting_message env response) \<longleftrightarrow> lr_tool_calls response \<noteq> []"
  by (simp add: requests_tools_def requesting_message_def get_array_def)

lemma text_message_simps [simp]:
  "declared_ids (text_message content response) = []" "\<not> requests_tools (text_message content response)"
  "answered_id (text_message content response) = None" "\<not> is_tool (text_message content response)"
  by (simp_all add: text_message_def assistant_ids requests_tools_def get_array_def)

lemma user_prompt_simps [simp]:
  "declared_ids (user_prompt s) = []" "\<not> requests_tools (user_prompt s)" "answered_id (user_prompt s) = None"
  "\<not> is_tool (user_prompt s)"
  by (simp_all add: user_prompt_def declared_ids_def requests_tools_def answered_id_def has_role_def get_str_def
      str_or_empty_def)

lemmas recovery_prompts =
  build_truncated_tool_call_recovery_message_def build_length_recovery_message_def build_finalization_retry_message_def

lemma context_message_simps [simp]:
  "declared_ids (context_message a) = []" "\<not> requests_tools (context_message a)" "answered_id (context_message a) = None"
  "\<not> is_tool (context_message a)"
  by (simp_all add: context_message_def declared_ids_def requests_tools_def answered_id_def has_role_def get_str_def
      str_or_empty_def)

lemma tool_message_simps [simp]:
  "is_tool (tool_message parse cr)" "\<not> requests_tools (tool_message parse cr)"
  "answered_id (tool_message parse cr) = Some (tc_id (fst cr))"
  by (simp_all add: tool_message_def requests_tools_def answered_id_def has_role_def get_str_def
      str_or_empty_def split_beta)

lemma requesting_not_tool [simp]: "\<not> is_tool (requesting_message env response)" "answered_id (requesting_message env response) = None"
  by (simp_all add: requesting_message_def)

end
