(* ===== verification/Run_Invariants.thy ===== *)
theory Run_Invariants
  imports Runner_Laws
begin

text \<open>
  Invariants of the conversation machine and what they give for a whole run: legal prompts, calls
  answered in place, a history that is only extended, a bound on the requests by the tool rounds.
\<close>

section \<open>Appending to a conversation\<close>

lemma round_ids:
  assumes "length results = length calls"
  shows "fulfilled_ids (map (tool_message parse) (zip calls results)) = set (map tc_id calls)"
  using assms by (induction calls results rule: list_induct2') auto

lemma round_tools: "\<forall>m \<in> set (map (tool_message parse) crs). is_tool m \<and> declared_ids m = []"
  by (simp add: declared_ids_tool)

lemma legal_after_no_answers:
  "\<forall>m \<in> set ys. answered_id m = None \<Longrightarrow> legal_after d ys"
  by (induction ys arbitrary: d) auto

lemma legal_snoc_silent: "answered_id m = None \<Longrightarrow> legal (ms @ [m]) \<longleftrightarrow> legal ms"
  by (simp add: legal_snoc)

lemma legal_after_answers:
  "\<forall>m \<in> set ts. is_tool m \<Longrightarrow> fulfilled_ids ts \<subseteq> d \<Longrightarrow> legal_after d ts"
  by (induction ts arbitrary: d) auto

lemma legal_round:
  assumes "length (br_results r) = length (lr_tool_calls response)" "legal ms"
  shows "legal (ms @ round_messages env response r)"
proof -
  let ?ts = "map (tool_message (pe_parse env)) (zip (lr_tool_calls response) (br_results r))"
  let ?d = "declared_in ms \<union> set (map tc_id (lr_tool_calls response))"
  have "legal_after ?d ?ts"
    by (rule legal_after_answers) (use round_tools round_ids [OF assms(1)] in auto)
  then have "legal_after ?d (?ts @ (if br_added_context r \<noteq> [] then [context_message (br_added_context r)] else []))"
    by (simp add: legal_after_append legal_after_no_answers)
  then show ?thesis
    using assms(2) by (simp add: legal_def round_messages_def legal_after_append requesting_ids)
qed

lemma append_final_cases:
  obtains (unchanged) "append_final_message content ms = ms"
  | (replaced) t where "content = Some t" "ms \<noteq> []" "has_role ''assistant'' (last ms)"
      "get_array (last ms) ''tool_calls'' = None"
      "append_final_message content ms = butlast ms @ [build_assistant_message content None None None]"
  | (appended) "append_final_message content ms = ms @ [build_assistant_message content None None None]"
proof (cases "content \<noteq> None \<and> ms \<noteq> [] \<and> has_role ''assistant'' (last ms) \<and>
    get_array (last ms) ''tool_calls'' = None \<and> get_str (last ms) ''content'' \<noteq> content")
  case True
  then obtain u where "content = Some u" by blast
  moreover have "ms[length ms - 1 := x] = butlast ms @ [x]" for x
    using True by (metis append_butlast_last_id length_butlast list_update_length)
  ultimately show ?thesis
    using True by (intro replaced [of u]) (auto simp: append_final_message_def)
next
  case False
  show ?thesis
  proof (cases "append_final_message content ms = ms")
    case True
    then show ?thesis by (rule unchanged)
  next
    case changed: False
    then show ?thesis
      using False by (intro appended) (auto simp: append_final_message_def split: if_splits)
  qed
qed

lemma append_final_legal: "legal ms \<Longrightarrow> legal (append_final_message content ms)"
proof (rule append_final_cases [of content ms])
  fix t assume "legal ms" "ms \<noteq> []"
    "append_final_message content ms = butlast ms @ [build_assistant_message content None None None]"
  then show ?thesis
    using legal_prefix [of "butlast ms" "[last ms]"] by (simp add: legal_snoc_silent)
qed (simp_all add: legal_snoc_silent)

section \<open>Every prompt is legal\<close>

definition prompts_legal :: "conversation \<Rightarrow> bool" where
  "prompts_legal c \<longleftrightarrow> legal (cv_messages c) \<and> (\<forall>rq \<in> set (cv_requests c). legal (pr_messages rq))"

lemma prompt_legal: "prompt_of tk spec ms prompt \<Longrightarrow> legal ms \<Longrightarrow> legal prompt"
  by (auto simp: prompt_of_def messages_for_model_legal)

lemma asked_legal: "asked tk spec ms rs \<Longrightarrow> legal ms \<Longrightarrow> \<forall>rq \<in> set rs. legal (pr_messages rq)"
  by (induction rule: asked.induct)
    (auto simp: first_request_def retry_request_def prompt_legal legal_snoc_silent recovery_prompts)

lemma continue_prompts_legal: "conv_continue tk spec c c' \<Longrightarrow> prompts_legal c \<Longrightarrow> prompts_legal c'"
proof (induction rule: conv_continue.induct)
  case (partial_answer c rs content response)
  have "legal ((cv_messages c @ [text_message content response]) @ [build_length_recovery_message])"
    using partial_answer by (simp add: prompts_legal_def legal_snoc_silent recovery_prompts del: append_assoc)
  with partial_answer asked_legal [OF partial_answer(1)] show ?case
    by (auto simp: prompts_legal_def)
qed (auto simp: prompts_legal_def prompt_legal first_request_def legal_snoc_silent recovery_prompts legal_round)

lemma end_prompts_legal:
  "conv_end tk spec c f c' \<Longrightarrow> prompts_legal c \<Longrightarrow> prompts_legal c'"
  by (induction rule: conv_end.induct)
    (auto simp: prompts_legal_def prompt_legal first_request_def legal_snoc_silent legal_round
      intro!: append_final_legal dest: asked_legal)

lemma run_end_prompts_legal:
  assumes "run_end tk spec left c res c'" "prompts_legal c"
  shows "prompts_legal c'"
proof (cases res)
  case Panics
  then show ?thesis
    using assms by (auto simp: unwound_def prompts_legal_def prompt_legal first_request_def legal_snoc_silent)
next
  case (Returns f)
  then show ?thesis
    using assms end_prompts_legal [of tk spec c f c'] by (auto simp: prompts_legal_def append_final_legal)
qed

text \<open>The run as a whole, from its first state.\<close>

definition conv_start :: "('w, 'h) agent_run_spec \<Rightarrow> conversation" where
  "conv_start spec = \<lparr>cv_messages = as_initial_messages spec, cv_requests = [], cv_empty = 0, cv_recoveries = 0\<rparr>"

lemma conv_of_new: "conv_of (run_state_new spec w h journal files p) = conv_start spec"
  by (simp add: conv_of_def run_state_new_def conv_start_def)

definition run_ends ::
    "token_env \<Rightarrow> ('w, 'h) agent_run_spec \<Rightarrow> nat \<Rightarrow> conversation \<Rightarrow> run_finish returns \<Rightarrow> conversation \<Rightarrow> bool" where
  "run_ends tk spec k c out c' \<longleftrightarrow>
     k \<le> as_max_iterations spec \<and> (conv_continue tk spec ^^ k) (conv_start spec) c \<and>
     run_end tk spec (k < as_max_iterations spec) c out c'"

lemma run_agent_refines:
  assumes "run_agent ops renv provider hook spec w h journal files p = (res, st)"
  shows "\<exists>k c out. run_ends (re_tokens renv) spec k c out (conv_of st) \<and>
    res = (case out of Panics \<Rightarrow> Panics | Returns f \<Rightarrow> Returns (run_result f st))"
proof -
  obtain out st' where l: "run_loop ops renv provider hook spec (turn_start_index (as_initial_messages spec)) 0
             (as_max_iterations spec) (run_state_new spec w h journal files p) = (out, st')" by fastforce
  then have "st' = st" "res = (case out of Panics \<Rightarrow> Panics | Returns f \<Rightarrow> Returns (run_result f st))"
    using assms by (auto simp: run_agent_def split: returns.splits)
  with run_loop_refines [OF l] show ?thesis unfolding run_ends_def conv_of_new by blast
qed

lemma run_ends_invariant:
  assumes "run_ends tk spec k c out c'" "I (conv_start spec)"
    "\<And>x y. conv_continue tk spec x y \<Longrightarrow> I x \<Longrightarrow> I y"
  shows "I c"
  by (rule conv_steps_invariant [where I = I]) (use assms in \<open>auto simp: run_ends_def\<close>)

lemma run_prompts_legal:
  assumes "run_agent ops renv provider hook spec w h journal files p = (res, st)"
    "legal (as_initial_messages spec)"
  shows "legal (rn_messages st)" "\<forall>rq \<in> set (rn_requests st). legal (pr_messages rq)"
proof -
  obtain k c out where r: "run_ends (re_tokens renv) spec k c out (conv_of st)"
    using run_agent_refines [OF assms(1)] by blast
  have "prompts_legal c"
    by (rule run_ends_invariant [OF r])
      (use assms(2) continue_prompts_legal in \<open>auto simp: prompts_legal_def conv_start_def\<close>)
  then have "prompts_legal (conv_of st)"
    using r by (auto simp: run_ends_def intro: run_end_prompts_legal)
  then show "legal (rn_messages st)" "\<forall>rq \<in> set (rn_requests st). legal (pr_messages rq)"
    by (simp_all add: prompts_legal_def conv_of_simps)
qed

section \<open>How much a run asks\<close>

definition tool_rounds :: "json list \<Rightarrow> nat" where
  "tool_rounds ms = length (filter requests_tools ms)"

lemma tool_rounds_simps [simp]:
  "tool_rounds [] = 0" "tool_rounds (m # ms) = (if requests_tools m then Suc (tool_rounds ms) else tool_rounds ms)"
  "tool_rounds (xs @ ys) = tool_rounds xs + tool_rounds ys"
  by (simp_all add: tool_rounds_def)

lemma tool_rounds_results [simp]: "tool_rounds (map (tool_message parse) crs) = 0"
  by (simp add: tool_rounds_def filter_empty_conv)

lemma tool_rounds_round [simp]:
  "lr_tool_calls response \<noteq> [] \<Longrightarrow> tool_rounds (round_messages env response r) = 1"
  by (simp add: round_messages_def)

lemma tool_rounds_final [simp]: "tool_rounds (append_final_message content ms) = tool_rounds ms"
proof (rule append_final_cases [of content ms])
  fix t assume r: "ms \<noteq> []" "get_array (last ms) ''tool_calls'' = None"
    "append_final_message content ms = butlast ms @ [build_assistant_message content None None None]"
  then have "\<not> requests_tools (last ms)" by (simp add: requests_tools_def)
  then have "tool_rounds ms = tool_rounds (butlast ms)"
    using r(1) append_butlast_last_id [of ms] tool_rounds_simps(3) [of "butlast ms" "[last ms]"] by simp
  moreover have "\<not> requests_tools (build_assistant_message content None None None)"
    by (simp add: requests_tools_def get_array_def)
  ultimately show ?thesis using r(3) by simp
qed (simp_all add: requests_tools_def get_array_def)

text \<open>
  Retries are paid for in advance: a round of tools buys two requests for blank answers, and two for
  each of the three recoveries.
\<close>

definition credit :: "conversation \<Rightarrow> nat" where
  "credit c = (MAX_EMPTY_RETRIES - cv_empty c) + 2 * (MAX_LENGTH_RECOVERIES - cv_recoveries c)"

definition paid :: "nat \<Rightarrow> conversation \<Rightarrow> bool" where
  "paid n c \<longleftrightarrow> n \<le> tool_rounds (cv_messages c) \<and>
     length (cv_requests c) + credit c \<le> 8 + 9 * (tool_rounds (cv_messages c) - n)"

lemma asked_length: "asked tk spec ms rs \<Longrightarrow> 1 \<le> length rs \<and> length rs \<le> 2"
  by (induction rule: asked.induct) auto

lemma continue_paid: "conv_continue tk spec c c' \<Longrightarrow> paid n c \<Longrightarrow> paid n c'"
proof (induction rule: conv_continue.induct)
  case (tool_round c prompt response r env)
  have "credit (c\<lparr>cv_messages := ms, cv_requests := rs, cv_empty := 0, cv_recoveries := 0\<rparr>) = 8" for ms rs
    by (simp add: credit_def MAX_EMPTY_RETRIES_def MAX_LENGTH_RECOVERIES_def)
  with tool_round show ?case by (auto simp: paid_def)
next
  case (partial_answer c rs content response)
  with asked_length [OF partial_answer(1)] show ?case
    by (auto simp: paid_def credit_def recovery_prompts)
qed (auto simp: paid_def credit_def recovery_prompts)

lemma end_paid: "conv_end tk spec c f c' \<Longrightarrow> paid n c \<Longrightarrow>
   length (cv_requests c') \<le> 10 + 9 * (tool_rounds (cv_messages c') - n) \<and>
   length (cv_requests c') \<le> length (cv_requests c) + 2"
  by (induction rule: conv_end.induct) (auto simp: paid_def dest: asked_length)

lemma run_end_paid:
  assumes "run_end tk spec left c res c'" "paid n c"
  shows "length (cv_requests c') \<le> 10 + 9 * (tool_rounds (cv_messages c') - n) \<and>
    length (cv_requests c') \<le> length (cv_requests c) + (if left then 2 else 0)"
proof (cases res)
  case Panics
  then show ?thesis using assms by (auto simp: unwound_def paid_def)
next
  case (Returns f)
  then show ?thesis using assms end_paid [of tk spec c f c' n] by (auto simp: paid_def)
qed

lemma continue_requests: "conv_continue tk spec c c' \<Longrightarrow> length (cv_requests c') \<le> length (cv_requests c) + 2"
  by (induction rule: conv_continue.induct) (auto dest: asked_length)

lemma steps_requests:
  "(conv_continue tk spec ^^ k) c c' \<Longrightarrow> length (cv_requests c') \<le> length (cv_requests c) + 2 * k"
proof (induction k arbitrary: c')
  case (Suc k)
  then show ?case by (fastforce elim!: relpowp_Suc_E dest: continue_requests)
qed simp

lemma run_requests_bounded:
  assumes "run_agent ops renv provider hook spec w h journal files p = (res, st)"
  shows "length (rn_requests st) \<le> 2 * as_max_iterations spec"
    "length (rn_requests st) \<le> 10 + 9 * (tool_rounds (rn_messages st) - tool_rounds (as_initial_messages spec))"
proof -
  obtain k c out where r: "run_ends (re_tokens renv) spec k c out (conv_of st)"
    using run_agent_refines [OF assms] by blast
  have "paid (tool_rounds (as_initial_messages spec)) c"
    by (rule run_ends_invariant [OF r])
      (simp_all add: continue_paid, simp add: paid_def conv_start_def credit_def MAX_EMPTY_RETRIES_def MAX_LENGTH_RECOVERIES_def)
  with r run_end_paid [of "re_tokens renv" spec "k < as_max_iterations spec" c out "conv_of st"]
  have e: "length (rn_requests st) \<le> 10 + 9 * (tool_rounds (rn_messages st) - tool_rounds (as_initial_messages spec))"
    "length (rn_requests st) \<le> length (cv_requests c) + (if k < as_max_iterations spec then 2 else 0)"
    by (auto simp: run_ends_def conv_of_simps)
  have "length (cv_requests c) \<le> 2 * k"
    using r steps_requests [of k "re_tokens renv" spec "conv_start spec" c] by (auto simp: run_ends_def conv_start_def)
  with e r show "length (rn_requests st) \<le> 2 * as_max_iterations spec"
    by (auto simp: run_ends_def split: if_splits)
  show "length (rn_requests st) \<le> 10 + 9 * (tool_rounds (rn_messages st) - tool_rounds (as_initial_messages spec))"
    by (rule e(1))
qed

section \<open>Calls are answered in place\<close>

abbreviation starts_run :: "json list \<Rightarrow> bool" where
  "starts_run ms \<equiv> (case ms of [] \<Rightarrow> True | m # _ \<Rightarrow> \<not> is_tool m)"

lemma run_append:
  assumes "starts_run ys"
  shows "takeWhile is_tool (ms @ ys) = takeWhile is_tool ms"
    "dropWhile is_tool (ms @ ys) = dropWhile is_tool ms @ ys"
proof -
  have "takeWhile is_tool ys = []" "dropWhile is_tool ys = ys" using assms by (cases ys; simp)+
  then show "takeWhile is_tool (ms @ ys) = takeWhile is_tool ms"
    "dropWhile is_tool (ms @ ys) = dropWhile is_tool ms @ ys"
    by (induction ms) auto
qed

lemma answered_append:
  "starts_run ys \<Longrightarrow> answered_in_place (xs @ ys) \<longleftrightarrow> answered_in_place xs \<and> answered_in_place ys"
  by (induction xs rule: answered_in_place.induct) (simp_all add: run_append)

lemma in_place_append: "starts_run ys \<Longrightarrow> in_place (xs @ ys) \<longleftrightarrow> in_place xs \<and> in_place ys"
  by (induction xs rule: in_place.induct) (simp_all add: run_append)

lemma answered_silent: "\<not> is_tool m \<Longrightarrow> declared_ids m = [] \<Longrightarrow> answered_in_place [m] \<and> in_place [m]"
  by simp

lemma round_in_place:
  assumes "length (br_results r) = length (lr_tool_calls response)"
  shows "answered_in_place (round_messages env response r)" "in_place (round_messages env response r)"
proof -
  define ts where "ts = map (tool_message (pe_parse env)) (zip (lr_tool_calls response) (br_results r))"
  define ex where "ex = (if br_added_context r \<noteq> [] then [context_message (br_added_context r)] else [])"
  have ts: "\<forall>m \<in> set ts. is_tool m" by (simp add: ts_def)
  have ex: "starts_run ex" "answered_in_place ex" "in_place ex" by (simp_all add: ex_def)
  have run: "takeWhile is_tool (ts @ ex) = ts" "dropWhile is_tool (ts @ ex) = ex"
    using run_append [OF ex(1), of ts] ts by (simp_all add: takeWhile_eq_all_conv)
  have "fulfilled_ids ts = set (map tc_id (lr_tool_calls response))"
    unfolding ts_def by (rule round_ids [OF assms])
  then show "answered_in_place (round_messages env response r)" "in_place (round_messages env response r)"
    using ex run by (simp_all add: round_messages_def requesting_ids flip: ts_def ex_def)
qed

lemma starts_round [simp]: "starts_run (round_messages env response r)"
  by (simp add: round_messages_def)

definition tidy :: "json list \<Rightarrow> bool" where
  "tidy ms \<longleftrightarrow> answered_in_place ms \<and> in_place ms"

lemma tidy_append: "starts_run ys \<Longrightarrow> tidy (xs @ ys) \<longleftrightarrow> tidy xs \<and> tidy ys"
  by (auto simp: tidy_def answered_append in_place_append)

lemma tidy_silent [simp]: "\<not> is_tool m \<Longrightarrow> declared_ids m = [] \<Longrightarrow> tidy [m]"
  by (simp add: tidy_def)

lemma final_reply [simp]:
  "\<not> is_tool (build_assistant_message content None a b)" "declared_ids (build_assistant_message content None a b) = []"
  by (simp_all add: assistant_ids)

lemma append_final_keeps:
  assumes app: "\<And>xs ys. starts_run ys \<Longrightarrow> I (xs @ ys) \<longleftrightarrow> I xs \<and> I ys"
    and silent: "\<And>m. \<not> is_tool m \<Longrightarrow> declared_ids m = [] \<Longrightarrow> I [m]" and ms: "I ms"
  shows "I (append_final_message content ms)"
proof (rule append_final_cases [of content ms])
  fix t assume r: "ms \<noteq> []" "has_role ''assistant'' (last ms)"
    "append_final_message content ms = butlast ms @ [build_assistant_message content None None None]"
  then have "\<not> is_tool (last ms)" by (simp add: has_role_def)
  then have "I (butlast ms)" using app [of "[last ms]" "butlast ms"] ms r(1) by simp
  with r(3) show ?thesis by (simp add: app silent)
qed (use ms in \<open>simp_all add: app silent\<close>)

lemma continue_tidy: "conv_continue tk spec c c' \<Longrightarrow> tidy (cv_messages c) \<Longrightarrow> tidy (cv_messages c')"
proof (induction rule: conv_continue.induct)
  case (tool_round c prompt response r env)
  then show ?case by (simp add: tidy_append) (simp add: tidy_def round_in_place)
next
  case (partial_answer c rs content response)
  have "tidy ((cv_messages c @ [text_message content response]) @ [build_length_recovery_message])"
    using partial_answer by (simp add: tidy_append recovery_prompts del: append_assoc)
  then show ?case by simp
qed (simp_all add: tidy_append recovery_prompts)

lemma end_tidy:
  "conv_end tk spec c f c' \<Longrightarrow> tidy (cv_messages c) \<Longrightarrow>
   (rf_stop_reason f \<noteq> ''tool_error'' \<longrightarrow> tidy (cv_messages c')) \<and> in_place (cv_messages c')"
proof (induction rule: conv_end.induct)
  case (tripped_run c prompt response r e env)
  have "tidy (cv_messages c @ round_messages env response r)"
    using tripped_run by (simp add: tidy_append) (simp add: tidy_def round_in_place)
  then have "tidy (append_final_message (Some CIRCUIT_BREAKER_USER_MESSAGE) (cv_messages c @ round_messages env response r))"
    by (intro append_final_keeps [where I = tidy]) (auto simp: tidy_append)
  then show ?case by (simp add: tidy_def)
next
  case (fatal_tool c prompt response e env)
  have "in_place (cv_messages c @ [requesting_message env response])"
    using fatal_tool(4) by (simp add: tidy_def in_place_append)
  then have "in_place (append_final_message m (cv_messages c @ [requesting_message env response]))" for m
    by (intro append_final_keeps [where I = in_place]) (auto simp: in_place_append)
  then show ?case by simp
next
  case (empty_run c rs)
  then have "tidy (append_final_message m (cv_messages c))" for m
    by (intro append_final_keeps [where I = tidy]) (auto simp: tidy_append)
  then show ?case by (simp add: tidy_def)
next
  case (provider_error c rs e)
  then have "tidy (append_final_message m (cv_messages c))" for m
    by (intro append_final_keeps [where I = tidy]) (auto simp: tidy_append)
  then show ?case by (simp add: tidy_def)
next
  case (answered_run c rs content response)
  then have "tidy (cv_messages c @ [text_message content response])" by (simp add: tidy_append)
  then show ?case by (simp add: tidy_def)
qed

lemma run_answers_in_place:
  assumes "run_agent ops renv provider hook spec w h journal files p = (Returns result, st)"
    "tidy (as_initial_messages spec)" "rr_stop_reason result \<noteq> ''tool_error''"
  shows "tidy (rr_messages result)"
proof -
  obtain k c out where r: "run_ends (re_tokens renv) spec k c out (conv_of st)"
    "Returns result = (case out of Panics \<Rightarrow> Panics | Returns f \<Rightarrow> Returns (run_result f st))"
    using run_agent_refines [OF assms(1)] by blast
  then obtain f where f: "out = Returns f" "result = run_result f st" by (auto split: returns.splits)
  have "tidy (cv_messages c)"
    by (rule run_ends_invariant [OF r(1)]) (use assms(2) continue_tidy in \<open>auto simp: conv_start_def\<close>)
  moreover from this have "tidy (append_final_message m (cv_messages c))" for m
    by (intro append_final_keeps [where I = tidy]) (auto simp: tidy_append)
  ultimately have "tidy (cv_messages (conv_of st))"
    using r(1) f assms(3) by (auto simp: run_ends_def run_result_def dest: end_tidy)
  then show ?thesis by (simp add: f(2) run_result_def conv_of_simps)
qed

text \<open>A tidy history needs no repair.\<close>

lemma answered_fulfilled: "answered_in_place ms \<Longrightarrow> declared_in ms \<subseteq> fulfilled_ids ms"
proof (induction ms rule: answered_in_place.induct)
  case (2 m ms)
  have "fulfilled_ids ms = fulfilled_ids (takeWhile is_tool ms) \<union> fulfilled_ids (dropWhile is_tool ms)"
    by (simp flip: fulfilled_append)
  moreover have "declared_in (dropWhile is_tool ms) = declared_in ms"
    by (simp only: declared_dropWhile)
  moreover have "declared_in (dropWhile is_tool ms) \<subseteq> fulfilled_ids (dropWhile is_tool ms)"
    using 2 by (simp del: set_concat)
  ultimately show ?case using 2 by (auto simp del: set_concat)
qed simp


lemma tidy_needs_no_repair: "tidy ms \<Longrightarrow> backfill_missing_tool_results ms = ms"
  by (rule backfill_nothing) (simp add: tidy_def answered_fulfilled del: set_concat)

section \<open>The history is extended\<close>

definition bare_reply :: "json \<Rightarrow> bool" where
  "bare_reply m \<longleftrightarrow> has_role ''assistant'' m \<and> get_array m ''tool_calls'' = None"

lemma append_final_prefix:
  assumes "prefix init ms" "init \<noteq> [] \<Longrightarrow> \<not> bare_reply (last init)"
  shows "prefix init (append_final_message content ms)"
proof (rule append_final_cases [of content ms])
  fix t assume r: "ms \<noteq> []" "has_role ''assistant'' (last ms)" "get_array (last ms) ''tool_calls'' = None"
    "append_final_message content ms = butlast ms @ [build_assistant_message content None None None]"
  have "ms \<noteq> init" using r assms(2) by (auto simp: bare_reply_def)
  then have "prefix init (butlast ms)"
    using assms(1) r(1) by (metis append_butlast_last_id prefix_snoc)
  then show ?thesis by (simp add: r(4))
qed (use assms(1) in simp_all)

lemma continue_prefix: "conv_continue tk spec c c' \<Longrightarrow> prefix init (cv_messages c) \<Longrightarrow> prefix init (cv_messages c')"
  by (induction rule: conv_continue.induct) simp_all

lemma end_prefix:
  "conv_end tk spec c f c' \<Longrightarrow> prefix init (cv_messages c) \<Longrightarrow> (init \<noteq> [] \<Longrightarrow> \<not> bare_reply (last init)) \<Longrightarrow>
   prefix init (cv_messages c')"
  by (induction rule: conv_end.induct) (simp_all add: append_final_prefix)

lemma run_extends_history:
  assumes "run_agent ops renv provider hook spec w h journal files p = (res, st)"
    "as_initial_messages spec \<noteq> [] \<Longrightarrow> \<not> bare_reply (last (as_initial_messages spec))"
  shows "prefix (as_initial_messages spec) (rn_messages st)"
proof -
  obtain k c out where r: "run_ends (re_tokens renv) spec k c out (conv_of st)"
    using run_agent_refines [OF assms(1)] by blast
  have c: "prefix (as_initial_messages spec) (cv_messages c)"
    by (rule run_ends_invariant [OF r]) (simp_all add: continue_prefix, simp add: conv_start_def)
  have "prefix (as_initial_messages spec) (cv_messages (conv_of st))"
  proof (cases out)
    case Panics
    then show ?thesis using r c by (auto simp: run_ends_def unwound_def)
  next
    case (Returns f)
    with r show ?thesis
      by (auto simp: run_ends_def intro!: append_final_prefix [OF c assms(2)] intro: end_prefix [OF _ c assms(2)])
  qed
  then show ?thesis by (simp add: conv_of_simps)
qed

section \<open>How a run ends\<close>

lemma append_final_says: "content = Some t \<Longrightarrow> get_str (last (append_final_message content ms)) ''content'' = Some t"
  by (auto simp: append_final_message_def get_str_def last_list_update json_opt_str_def)

definition says_so :: "run_finish \<Rightarrow> conversation \<Rightarrow> bool" where
  "says_so f c \<longleftrightarrow>
     (\<forall>t. rf_final_content f = Some t \<longrightarrow> cv_messages c \<noteq> [] \<and> get_str (last (cv_messages c)) ''content'' = Some t) \<and>
     (rf_error f \<noteq> None \<longleftrightarrow> rf_stop_reason f \<in> {''error'', ''tool_error'', CIRCUIT_BREAKER_STOP_REASON}) \<and>
     (rf_stop_reason f = ''completed'' \<longrightarrow> \<not> is_blank_text (rf_final_content f)) \<and>
     rf_stop_reason f \<in> {''completed'', ''empty_final_response'', ''error'', ''tool_error'',
       CIRCUIT_BREAKER_STOP_REASON, ''max_iterations''}"

lemma append_final_nonempty: "content = Some t \<Longrightarrow> append_final_message content ms \<noteq> []"
  by (simp add: append_final_message_def)

lemma text_says [simp]: "get_str (text_message content response) ''content'' = content"
  by (cases content) (simp_all add: text_message_def get_str_def json_opt_str_def)

lemma end_says_so: "conv_end tk spec c f c' \<Longrightarrow> says_so f c'"
  by (induction rule: conv_end.induct)
    (auto simp: says_so_def append_final_says append_final_nonempty
      CIRCUIT_BREAKER_STOP_REASON_def is_blank_text_def)

lemma run_end_says_so:
  assumes "run_agent ops renv provider hook spec w h journal files p = (Returns result, st)"
  shows "\<exists>f. result = run_result f st \<and> says_so f (conv_of st)"
proof -
  obtain k c out where r: "run_ends (re_tokens renv) spec k c out (conv_of st)"
    "Returns result = (case out of Panics \<Rightarrow> Panics | Returns f \<Rightarrow> Returns (run_result f st))"
    using run_agent_refines [OF assms] by blast
  then obtain f where f: "out = Returns f" "result = run_result f st" by (auto split: returns.splits)
  have "says_so f (conv_of st)"
  proof (cases "k < as_max_iterations spec")
    case True
    with r(1) f(1) show ?thesis by (auto simp: run_ends_def intro: end_says_so)
  next
    case False
    with r(1) f(1) show ?thesis
      by (auto simp: run_ends_def says_so_def exhausted_finish_def append_final_says append_final_nonempty
          CIRCUIT_BREAKER_STOP_REASON_def)
  qed
  with f(2) show ?thesis by blast
qed

end
