(* ===== verification/Retry_Laws.thy ===== *)
theory Retry_Laws
  imports Provider_Retry Run_Invariants
begin

text \<open>
  What the retry loop promises its caller: the response of the first attempt that settles the
  request, at most four requests and seven seconds of sleep, all with the prompt given or the same
  prompt without images; and, for a backend that recovers in time, its answer.

  The locale \<open>provider_ledger\<close> carries a relation between the requests a run has made and the state
  of its provider through the whole run; it is interpreted on the retrying provider.
\<close>

section \<open>The reference: the first attempt that settles\<close>

definition transient_failure :: "(string \<Rightarrow> string) \<Rightarrow> llm_response \<Rightarrow> bool" where
  "transient_failure lower response \<longleftrightarrow>
     lr_finish_reason response = ''error'' \<and> is_transient_error lower (lr_content response)"

text \<open>Every attempt, were each one to be followed by the next.\<close>

fun attempts ::
    "(chat_request \<Rightarrow> 'b wire \<Rightarrow> llm_response \<times> 'b wire) \<Rightarrow> nat list \<Rightarrow> chat_request \<Rightarrow> 'b wire \<Rightarrow>
     (llm_response \<times> 'b wire) list" where
  "attempts call [] rq w = [call rq w]"
| "attempts call (delay # delays) rq w =
     call rq w # attempts call delays rq (sleep_for delay (snd (call rq w)))"

lemma attempts_not_Nil [simp]: "attempts call delays rq w \<noteq> []"
  by (cases delays) auto

lemma length_attempts [simp]: "length (attempts call delays rq w) = Suc (length delays)"
  by (induction delays arbitrary: w) auto

definition settles ::
    "(string \<Rightarrow> string) \<Rightarrow> (chat_request \<Rightarrow> 'b wire \<Rightarrow> llm_response \<times> 'b wire) \<Rightarrow> chat_request \<Rightarrow>
     llm_response \<times> 'b wire \<Rightarrow> llm_response \<times> 'b wire" where
  "settles lower call rq attempt =
     (if lr_finish_reason (fst attempt) \<noteq> ''error'' then attempt
      else case retry_messages_without_images lower (lr_content (fst attempt)) (cr_messages rq) of
             Some stripped \<Rightarrow> call (rq\<lparr>cr_messages := stripped\<rparr>) (snd attempt)
           | None \<Rightarrow> attempt)"

definition first_settled ::
    "(string \<Rightarrow> string) \<Rightarrow> (chat_request \<Rightarrow> 'b wire \<Rightarrow> llm_response \<times> 'b wire) \<Rightarrow> nat list \<Rightarrow>
     chat_request \<Rightarrow> 'b wire \<Rightarrow> llm_response \<times> 'b wire" where
  "first_settled lower call delays rq w =
     (let tried = attempts call delays rq w
      in case List.find (\<lambda>attempt. \<not> transient_failure lower (fst attempt)) (butlast tried) of
           Some attempt \<Rightarrow> settles lower call rq attempt
         | None \<Rightarrow> last tried)"

lemma with_retry_is_first_settled: "with_retry lower call delays rq w = first_settled lower call delays rq w"
proof (induction delays arbitrary: w)
  case (Cons delay delays)
  obtain response w' where c: "call rq w = (response, w')" by fastforce
  show ?case
  proof (cases "transient_failure lower response")
    case True
    then show ?thesis
      using Cons.IH [of "sleep_for delay w'"] by (simp add: c first_settled_def Let_def transient_failure_def last_ConsR cong: option.case_cong)
  next
    case False
    then show ?thesis
      by (simp add: c first_settled_def Let_def transient_failure_def settles_def split: option.split)
  qed
qed (simp add: first_settled_def)

section \<open>What a request costs\<close>

text \<open>A backend call adds the request to what was sent and does not sleep.\<close>

definition sends :: "(chat_request \<Rightarrow> 'b wire \<Rightarrow> llm_response \<times> 'b wire) \<Rightarrow> bool" where
  "sends call \<longleftrightarrow>
     (\<forall>rq w. wi_sent (snd (call rq w)) = wi_sent w @ [rq] \<and> wi_slept (snd (call rq w)) = wi_slept w)"

lemma sends_safe_chat [simp]: "sends (safe_chat backend)" "sends (safe_chat_stream backend)"
  by (auto simp: sends_def safe_chat_def safe_chat_stream_def split: prod.splits)

lemma sendsD:
  "sends call \<Longrightarrow> call rq w = (response, w') \<Longrightarrow> wi_sent w' = wi_sent w @ [rq] \<and> wi_slept w' = wi_slept w"
  unfolding sends_def by (metis snd_conv)

text \<open>The prompts a request may be sent with.\<close>

definition variant :: "json list \<Rightarrow> json list \<Rightarrow> bool" where
  "variant ms ms' \<longleftrightarrow> ms' = ms \<or> strip_image_content ms = Some ms'"

definition charged :: "nat list \<Rightarrow> chat_request \<Rightarrow> 'b wire \<Rightarrow> 'b wire \<Rightarrow> bool" where
  "charged delays rq w w' \<longleftrightarrow>
     (\<exists>new slept. wi_sent w' = wi_sent w @ new \<and> wi_slept w' = wi_slept w @ slept \<and>
        1 \<le> length new \<and> length new \<le> Suc (length delays) \<and> prefix slept delays \<and>
        length slept < Suc (length new) \<and>
        (\<forall>rq' \<in> set new. \<exists>ms. variant (cr_messages rq) ms \<and> rq' = rq\<lparr>cr_messages := ms\<rparr>))"

lemma variant_refl [simp]: "variant ms ms"
  by (simp add: variant_def)

lemma with_retry_charged:
  assumes "sends call" "with_retry lower call delays rq w = (response, w')"
  shows "charged delays rq w w'"
  using assms(2)
proof (induction delays arbitrary: w)
  case Nil
  then show ?case
    using sendsD [OF assms(1), of rq w response w']
    by (auto simp: charged_def intro!: exI [of _ "[rq]"] exI [of _ "cr_messages rq"])
next
  case (Cons delay delays)
  obtain r w1 where c: "call rq w = (r, w1)" by fastforce
  note w1 = sendsD [OF assms(1) c]
  show ?case
  proof (cases "transient_failure lower r")
    case True
    then have "with_retry lower call delays rq (sleep_for delay w1) = (response, w')"
      using Cons.prems by (simp add: c transient_failure_def)
    from Cons.IH [OF this] obtain new slept where
      "wi_sent w' = wi_sent w @ rq # new" "wi_slept w' = wi_slept w @ delay # slept"
      "1 \<le> length new" "length new \<le> Suc (length delays)" "prefix slept delays" "length slept < Suc (length new)"
      "\<forall>rq' \<in> set new. \<exists>ms. variant (cr_messages rq) ms \<and> rq' = rq\<lparr>cr_messages := ms\<rparr>"
      by (auto simp: charged_def sleep_for_def w1)
    then show ?thesis
      unfolding charged_def
      by (intro exI [of _ "rq # new"] exI [of _ "delay # slept"])
        (auto intro: exI [of _ "cr_messages rq"])
  next
    case False
    with Cons.prems consider (same) "w' = w1"
      | (stripped) ms where "strip_image_content (cr_messages rq) = Some ms"
          "call (rq\<lparr>cr_messages := ms\<rparr>) w1 = (response, w')"
      by (auto simp: c transient_failure_def retry_messages_without_images_def
          split: if_splits option.splits)
    then show ?thesis
    proof cases
      case same
      then show ?thesis
        using w1 by (auto simp: charged_def intro!: exI [of _ "[rq]"] exI [of _ "cr_messages rq"])
    next
      case stripped
      with sendsD [OF assms(1) stripped(2)] w1 show ?thesis
        unfolding charged_def
        by (intro exI [of _ "[rq, rq\<lparr>cr_messages := ms\<rparr>]"] exI [of _ "[]"])
          (auto simp: variant_def intro: exI [of _ "cr_messages rq"])
    qed
  qed
qed

section \<open>A provider that recovers in time\<close>

text \<open>The backend after \<open>n\<close> calls with the same request, and what the last of them returned.\<close>

definition after_calls :: "'b backend \<Rightarrow> chat_request \<Rightarrow> nat \<Rightarrow> 'b \<Rightarrow> 'b" where
  "after_calls backend rq n b = ((\<lambda>b. snd (be_chat backend rq b)) ^^ n) b"

definition nth_response :: "'b backend \<Rightarrow> chat_request \<Rightarrow> nat \<Rightarrow> 'b \<Rightarrow> llm_response" where
  "nth_response backend rq n b = caught (fst (be_chat backend rq (after_calls backend rq n b)))"

lemma after_calls_Suc: "after_calls backend rq (Suc n) b = after_calls backend rq n (snd (be_chat backend rq b))"
  by (simp add: after_calls_def funpow_Suc_right del: funpow.simps)

lemma nth_response_Suc:
  "nth_response backend rq (Suc n) b = nth_response backend rq n (snd (be_chat backend rq b))"
  by (simp add: nth_response_def after_calls_Suc)

lemma safe_chat_eq:
  "safe_chat backend rq w =
     (nth_response backend rq 0 (wi_backend w),
      w\<lparr>wi_backend := snd (be_chat backend rq (wi_backend w)), wi_sent := wi_sent w @ [rq]\<rparr>)"
  by (simp add: safe_chat_def nth_response_def after_calls_def split_beta)

lemma retry_recovers:
  assumes "k \<le> length delays" "\<forall>i < k. transient_failure lower (nth_response backend rq i (wi_backend w))"
    "lr_finish_reason (nth_response backend rq k (wi_backend w)) \<noteq> ''error''"
  shows "with_retry lower (safe_chat backend) delays rq w =
    (nth_response backend rq k (wi_backend w),
     w\<lparr>wi_backend := after_calls backend rq (Suc k) (wi_backend w),
       wi_sent := wi_sent w @ replicate (Suc k) rq, wi_slept := wi_slept w @ take k delays\<rparr>)"
  using assms
proof (induction k arbitrary: w delays)
  case 0
  then show ?case
    by (cases delays) (simp_all add: safe_chat_eq Let_def after_calls_Suc, simp_all add: after_calls_def)
next
  case (Suc k)
  then obtain delay rest where delays: "delays = delay # rest" by (cases delays) auto
  define w1 where "w1 = sleep_for delay (snd (safe_chat backend rq w))"
  have b: "wi_backend w1 = snd (be_chat backend rq (wi_backend w))"
    "wi_sent w1 = wi_sent w @ [rq]" "wi_slept w1 = wi_slept w @ [delay]"
    by (simp_all add: w1_def sleep_for_def safe_chat_eq)
  have "transient_failure lower (nth_response backend rq 0 (wi_backend w))"
    using Suc.prems(2) by blast
  then have "with_retry lower (safe_chat backend) delays rq w = with_retry lower (safe_chat backend) rest rq w1"
    by (simp add: delays w1_def safe_chat_eq transient_failure_def)
  also have "\<dots> = (nth_response backend rq k (wi_backend w1),
     w1\<lparr>wi_backend := after_calls backend rq (Suc k) (wi_backend w1),
       wi_sent := wi_sent w1 @ replicate (Suc k) rq, wi_slept := wi_slept w1 @ take k rest\<rparr>)"
    using Suc.prems by (intro Suc.IH) (auto simp: delays b nth_response_Suc [symmetric])
  also have "\<dots> = (nth_response backend rq (Suc k) (wi_backend w),
     w\<lparr>wi_backend := after_calls backend rq (Suc (Suc k)) (wi_backend w),
       wi_sent := wi_sent w @ replicate (Suc (Suc k)) rq, wi_slept := wi_slept w @ take (Suc k) delays\<rparr>)"
    by (simp add: b delays nth_response_Suc after_calls_Suc, simp add: w1_def sleep_for_def safe_chat_eq)
  finally show ?case .
qed

section \<open>Prompts without images\<close>

lemma with_content_get [simp]: "k \<noteq> ''content'' \<Longrightarrow> json_get (with_content v m) k = json_get m k"
  by (cases m) auto

lemma strip_message_get: "k \<noteq> ''content'' \<Longrightarrow> json_get (strip_message m) k = json_get m k"
  by (simp add: strip_message_def split: option.split)

lemma strip_message_str: "k \<noteq> ''content'' \<Longrightarrow> get_str (strip_message m) k = get_str m k"
  by (simp add: get_str_def strip_message_get)

lemma strip_message_ids [simp]:
  "answered_id (strip_message m) = answered_id m" "declared_ids (strip_message m) = declared_ids m"
  by (simp_all add: answered_id_def declared_ids_def has_role_def tool_call_ids_def strip_message_str
      get_array_def strip_message_get str_or_empty_def)

lemma legal_after_strip: "legal_after d (map strip_message ms) = legal_after d ms"
  by (induction ms arbitrary: d) simp_all

lemma variant_legal: "variant ms ms' \<Longrightarrow> legal ms \<Longrightarrow> legal ms'"
  by (auto simp: variant_def strip_image_content_def legal_def legal_after_strip split: if_splits)

lemma strip_block_no_image [simp]: "\<not> is_image_block (strip_block b)"
  by (simp add: strip_block_def) (simp add: is_image_block_def get_str_def)

lemma strip_message_no_image [simp]: "\<not> has_image (strip_message m)"
proof (cases "get_array m ''content''")
  case (Some blocks)
  then obtain fs where m: "m = JObject fs"
    by (cases m) (auto simp: get_array_def)
  then show ?thesis
    using Some by (auto simp: has_image_def strip_message_def get_array_def list_ex_iff)
qed (simp add: strip_message_def has_image_def)

section \<open>What the provider is asked during a run\<close>

definition asks_of :: "('w, 'h, 'st, 'p) run_state \<Rightarrow> provider_request list \<times> 'p" where
  "asks_of st = (rn_requests st, rn_provider st)"

lemma asks_of_updates [simp]:
  "asks_of (st\<lparr>rn_pipe := ps\<rparr>) = asks_of st" "asks_of (st\<lparr>rn_messages := ms\<rparr>) = asks_of st"
  "asks_of (st\<lparr>rn_usage := u\<rparr>) = asks_of st" "asks_of (st\<lparr>rn_checkpoints := c\<rparr>) = asks_of st"
  "asks_of (st\<lparr>rn_tools_used := t\<rparr>) = asks_of st" "asks_of (st\<lparr>rn_tool_events := e\<rparr>) = asks_of st"
  "asks_of (st\<lparr>rn_empty_retries := n\<rparr>) = asks_of st" "asks_of (st\<lparr>rn_length_recoveries := n\<rparr>) = asks_of st"
  by (simp_all add: asks_of_def)

lemma asks_fire [simp]: "asks_of (snd (fire hook event s)) = asks_of (snd s)"
  by (cases s) (simp add: fire_def split_beta)

lemma asks_finalize [simp]: "asks_of (snd (finalize hook ctx content st)) = asks_of st"
  by (simp add: finalize_def split_beta)

lemma asks_helpers [simp]:
  "asks_of (push_message m st) = asks_of st" "asks_of (final_message c st) = asks_of st"
  "asks_of (accumulate_usage renv u st) = asks_of st"
  by (simp_all add: push_message_def final_message_def accumulate_usage_def)

lemma asks_emit [simp]: "asks_of (emit_step_checkpoint ops env spec step kind turn_start st) = asks_of st"
  by (auto simp: emit_step_checkpoint_def emit_checkpoint_def Let_def split: option.splits prod.splits)

lemma asks_callbacks [simp]:
  "asks_of (foldl (\<lambda>st event. snd (fire hook event (ctx, st))) st events) = asks_of st"
  by (induction events arbitrary: st) simp_all

fun end_state :: "('w, 'h, 'st, 'p) iteration_end \<Rightarrow> ('w, 'h, 'st, 'p) run_state" where
  "end_state (ContinueLoop st) = st"
| "end_state (BreakLoop f st) = st"
| "end_state (Unwinds st) = st"

lemma asks_abort [simp]: "asks_of (end_state (abort_with_provider_error env hook spec detail ctx st)) = asks_of st"
  by (simp add: abort_with_provider_error_def Let_def split_beta)

lemma asks_finish_text [simp]:
  "asks_of (end_state (finish_text ops env hook spec turn_start response content reason ctx st)) = asks_of st"
  by (simp add: finish_text_def Let_def split_beta)

lemma asks_finish_tools [simp]:
  "asks_of (end_state (finish_tools ops env hook spec turn_start response r ctx st)) = asks_of st"
  by (simp add: finish_tools_def Let_def split_beta)

lemma asks_tool_branch [simp]:
  "asks_of (end_state (tool_branch ops env schedule hook spec turn_start response ctx st)) = asks_of st"
  by (simp add: tool_branch_def Let_def split_beta split: returns.split)

text \<open>A relation between the requests of a run and the provider's state that every call keeps.\<close>

locale provider_ledger =
  fixes provider :: "'p llm_provider"
    and books :: "provider_request list \<Rightarrow> 'p \<Rightarrow> bool"
  assumes chat_books: "books rs p \<Longrightarrow> books (rs @ [rq]) (snd (pv_chat provider rq p))"
    and stream_books: "books rs p \<Longrightarrow> books (rs @ [rq]) (snd (pv_chat_stream provider rq p))"
begin

abbreviation balanced :: "('w, 'h, 'st, 'p) run_state \<Rightarrow> bool" where
  "balanced st \<equiv> books (fst (asks_of st)) (snd (asks_of st))"

lemma request_balanced:
  assumes "balanced st"
  shows "balanced (snd (request_model provider hook spec messages ctx st))"
  using chat_books stream_books assms
  by (auto simp: request_model_def Let_def split_beta) (simp_all add: asks_of_def)

lemma retry_balanced:
  assumes "balanced st"
  shows "balanced (snd (request_finalization_retry provider spec messages st))"
  using chat_books assms by (auto simp: request_finalization_retry_def Let_def split_beta asks_of_def)

lemma text_branch_balanced:
  assumes "balanced st"
  shows "balanced (end_state (text_branch ops renv env provider hook spec turn_start prompt response ctx st))"
proof -
  have "balanced (snd (request_finalization_retry provider spec prompt
      (snd (finalize hook ctx (lr_content response) st))))"
    by (rule retry_balanced) (simp add: assms)
  then show ?thesis using assms by (simp add: text_branch_def Let_def split_beta)
qed

lemma iteration_balanced:
  assumes "balanced st"
  shows "balanced (end_state (run_iteration ops renv provider hook spec turn_start iteration st))"
  using assms
  by (auto simp: run_iteration_def Let_def split_beta intro!: text_branch_balanced request_balanced)

lemma loop_balanced:
  "balanced st \<Longrightarrow>
   balanced (snd (run_loop ops renv provider hook spec turn_start iteration remaining st))"
proof (induction remaining arbitrary: iteration st)
  case (Suc remaining)
  note kept = iteration_balanced [OF Suc.prems, of ops renv hook spec turn_start iteration]
  show ?case
  proof (cases "run_iteration ops renv provider hook spec turn_start iteration st")
    case (ContinueLoop st')
    with kept show ?thesis using Suc.IH [of st'] by simp
  qed (use kept in auto)
qed simp

lemma run_balanced:
  assumes "run_agent ops renv provider hook spec w h journal files p = (res, st)" "books [] p"
  shows "books (rn_requests st) (rn_provider st)"
proof -
  have "balanced (run_state_new spec w h journal files p)"
    by (simp add: asks_of_def run_state_new_def assms(2))
  from loop_balanced [OF this, of ops renv hook spec "turn_start_index (as_initial_messages spec)" 0
      "as_max_iterations spec"] assms(1)
  show ?thesis
    by (auto simp: run_agent_def asks_of_def split: prod.splits returns.splits)
qed

end

section \<open>The ledger of the retrying provider\<close>

definition wire_books :: "provider_request list \<Rightarrow> 'b wire \<Rightarrow> bool" where
  "wire_books rs w \<longleftrightarrow>
     length (wi_sent w) \<le> 4 * length rs \<and> sum_list (wi_slept w) \<le> 7 * length rs \<and>
     (\<forall>rq' \<in> set (wi_sent w). \<exists>rq \<in> set rs. variant (pr_messages rq) (cr_messages rq'))"

lemma delays_total: "prefix slept CHAT_RETRY_DELAYS \<Longrightarrow> sum_list slept \<le> 7"
  by (auto simp: prefix_def CHAT_RETRY_DELAYS_def dest: arg_cong [where f = sum_list])

lemma books_charged:
  assumes "wire_books rs w" "charged CHAT_RETRY_DELAYS (resolve_request gs opts rq) w w'"
  shows "wire_books (rs @ [rq]) w'"
proof -
  obtain new slept where w': "wi_sent w' = wi_sent w @ new" "wi_slept w' = wi_slept w @ slept"
    "length new \<le> 4" "prefix slept CHAT_RETRY_DELAYS"
    "\<forall>rq' \<in> set new. \<exists>ms. variant (pr_messages rq) ms \<and> cr_messages rq' = ms"
    using assms(2) unfolding charged_def CHAT_RETRY_DELAYS_def by (fastforce simp: resolve_request_def)
  with assms(1) delays_total [OF w'(4)] show ?thesis
    by (auto simp: wire_books_def)
qed

lemma books_events [simp]: "wire_books rs (w\<lparr>wi_events := es\<rparr>) = wire_books rs w"
  by (simp add: wire_books_def)

lemma with_retry_books:
  assumes "wire_books rs w" "sends call"
  shows "wire_books (rs @ [rq]) (snd (with_retry lower call CHAT_RETRY_DELAYS (resolve_request gs opts rq) w))"
  by (rule books_charged [OF assms(1)], rule with_retry_charged [OF assms(2)]) (rule surjective_pairing)

lemma retry_books:
  "wire_books rs w \<Longrightarrow> wire_books (rs @ [rq]) (snd (chat_with_retry lower gs opts backend rq w))"
  "wire_books rs w \<Longrightarrow> wire_books (rs @ [rq]) (snd (safe_chat_stream_with_retry lower gs opts backend rq w))"
  by (simp_all add: chat_with_retry_def safe_chat_stream_with_retry_def with_retry_books)

interpretation retrying: provider_ledger "retrying_provider lower gs opts backend" wire_books
  by unfold_locales (simp_all add: retrying_provider_def retry_books split_beta)

lemma run_wire_books:
  assumes "run_agent ops renv (retrying_provider lower gs opts backend) hook spec w h journal files (wire_new b) = (res, st)"
  shows "wire_books (rn_requests st) (rn_provider st)"
  by (rule retrying.run_balanced [OF assms]) (simp add: wire_books_def wire_new_def)

section \<open>What a streamed request tells its caller\<close>

lemma safe_chat_stream_eq:
  "be_chat_stream backend rq (wi_backend w) = ((outcome, events), b) \<Longrightarrow>
   safe_chat_stream backend rq w =
     (caught outcome, w\<lparr>wi_backend := b, wi_sent := wi_sent w @ [rq], wi_events := wi_events w @ events\<rparr>)"
  by (simp add: safe_chat_stream_def)

text \<open>The callbacks of a failed attempt are followed by those of the next, from the start.\<close>

lemma stream_retried:
  assumes "be_chat_stream backend rq (wi_backend w) = ((outcome, events), b)"
    "transient_failure lower (caught outcome)"
    "be_chat_stream backend rq b = ((Inr response, events'), b')" "lr_finish_reason response \<noteq> ''error''"
  shows "with_retry lower (safe_chat_stream backend) (delay # delays) rq w =
    (response, w\<lparr>wi_backend := b', wi_sent := wi_sent w @ [rq, rq], wi_slept := wi_slept w @ [delay],
       wi_events := wi_events w @ events @ events'\<rparr>)"
proof -
  have "with_retry lower (safe_chat_stream backend) (delay # delays) rq w =
    with_retry lower (safe_chat_stream backend) delays rq
      (sleep_for delay (w\<lparr>wi_backend := b, wi_sent := wi_sent w @ [rq], wi_events := wi_events w @ events\<rparr>))"
    using assms(2) by (simp add: safe_chat_stream_eq [OF assms(1)] transient_failure_def)
  also have "\<dots> = (response, w\<lparr>wi_backend := b', wi_sent := wi_sent w @ [rq, rq], wi_slept := wi_slept w @ [delay],
       wi_events := wi_events w @ events @ events'\<rparr>)"
    using assms(3,4) by (cases delays) (simp_all add: safe_chat_stream_def sleep_for_def caught_def)
  finally show ?thesis .
qed

end
