(* ===== verification/Request_Laws.thy ===== *)
theory Request_Laws
  imports Openai_Request Retry_Laws
begin

text \<open>
  The clean-up of a prompt keeps what makes it legal: a step that changes the ids of a conversation
  the same way everywhere keeps every result with its call.  With the invariants of the run this
  carries from the conversation to the bodies that are posted.
\<close>

section \<open>Steps that rename ids\<close>

definition renames :: "(string \<Rightarrow> string) \<Rightarrow> json \<Rightarrow> json \<Rightarrow> bool" where
  "renames g m m' \<longleftrightarrow> declared_ids m' = map g (declared_ids m) \<and> answered_id m' = map_option g (answered_id m)"

lemma legal_after_renamed:
  "list_all2 (renames g) ms ms' \<Longrightarrow> legal_after d ms \<Longrightarrow> legal_after (g ` d) ms'"
proof (induction arbitrary: d rule: list_all2_induct)
  case (Cons m ms m' ms')
  have "legal_after (g ` (d \<union> set (declared_ids m))) ms'"
    by (rule Cons.IH) (use Cons.prems in simp)
  with Cons show ?case by (auto simp: renames_def image_Un)
qed simp

lemma legal_renamed: "list_all2 (renames g) ms ms' \<Longrightarrow> legal ms \<Longrightarrow> legal ms'"
  using legal_after_renamed [of g ms ms' "{}"] by (simp add: legal_def)

text \<open>What a message needs for its ids to survive: results that name their call, calls with a function.\<close>

definition named_call :: "json \<Rightarrow> bool" where
  "named_call call \<longleftrightarrow> Option.bind (json_get call ''function'') (\<lambda>func. get_str func ''name'') \<noteq> None"

definition wire_ready :: "json \<Rightarrow> bool" where
  "wire_ready m \<longleftrightarrow>
     (role_of m = ''tool'' \<longrightarrow> get_str m ''tool_call_id'' \<noteq> None) \<and>
     (role_of m = ''assistant'' \<longrightarrow>
        (\<forall>call \<in> set (case get_array m ''tool_calls'' of Some calls \<Rightarrow> calls | None \<Rightarrow> []). named_call call))"

text \<open>A step that touches neither the role nor the ids.\<close>

definition id_keys :: "string set" where
  "id_keys = {''role'', ''tool_calls'', ''tool_call_id''}"

definition same_ids :: "json \<Rightarrow> json \<Rightarrow> bool" where
  "same_ids m m' \<longleftrightarrow> (\<forall>k \<in> id_keys. json_get m' k = json_get m k)"

lemma same_ids_refl [simp]: "same_ids m m"
  by (simp add: same_ids_def)

lemma same_ids_trans: "same_ids a b \<Longrightarrow> same_ids b c \<Longrightarrow> same_ids a c"
  by (simp add: same_ids_def)

lemma same_idsD:
  assumes "same_ids m m'"
  shows "get_str m' ''role'' = get_str m ''role''" "role_of m' = role_of m"
    "get_array m' ''tool_calls'' = get_array m ''tool_calls''"
    "json_get m' ''tool_calls'' = json_get m ''tool_calls''"
    "get_str m' ''tool_call_id'' = get_str m ''tool_call_id''"
    "json_get m' ''tool_call_id'' = json_get m ''tool_call_id''"
  using assms by (simp_all add: same_ids_def id_keys_def get_str_def get_array_def str_or_empty_def)

lemma same_ids_keep:
  assumes "same_ids m m'"
  shows "declared_ids m' = declared_ids m" "answered_id m' = answered_id m" "wire_ready m' = wire_ready m"
  using same_idsD [OF assms] by (simp_all add: declared_ids_def answered_id_def wire_ready_def tool_call_ids_def)

lemma same_ids_content [simp]: "same_ids m (with_content v m)"
  by (simp add: same_ids_def id_keys_def)

lemma same_ids_sanitize [simp]: "same_ids m (sanitize_message m)"
  by (simp add: sanitize_message_def split: option.split json.split)

lemma same_ids_mark [simp]: "same_ids m (mark_message m)"
  by (simp add: mark_message_def split: option.split json.split)

lemma same_ids_strip [simp]: "same_ids m (strip_message m)"
  by (simp add: strip_message_def split: option.split)

lemma same_ids_keep_allowed [simp]: "same_ids m (keep_allowed ALLOWED_MSG_KEYS m)"
proof (cases m)
  case (JObject obj)
  have f: "map_of (filter (\<lambda>(k, _). k \<in> set ALLOWED_MSG_KEYS) obj) k = map_of obj k" if "k \<in> id_keys" for k
    using that by (induction obj) (auto simp: ALLOWED_MSG_KEYS_def id_keys_def)
  show ?thesis
    using f by (auto simp: same_ids_def JObject keep_allowed_def Let_def id_keys_def)
qed (simp_all add: keep_allowed_def)

lemma all2_mark_before_last: "list_all2 same_ids ms (mark_before_last ms)"
  by (auto simp: mark_before_last_def list_all2_conv_all_nth nth_list_update)

lemma all2_mark_first: "list_all2 same_ids ms (mark_first ms)"
  by (auto simp: mark_first_def list.rel_refl split: list.split)

lemma same_ids_transp: "transp same_ids"
  by (auto intro!: transpI dest: same_ids_trans)

lemma all2_cached: "list_all2 same_ids ms (fst (cached_prompt p ms tools))"
proof -
  have "list_all2 same_ids ms (mark_before_last (mark_first ms))"
    using list_all2_trans [OF _ all2_mark_first all2_mark_before_last] same_ids_trans by blast
  then show ?thesis
    by (auto simp: cached_prompt_def apply_cache_control_def list.rel_refl split: option.split)
qed

section \<open>Ids on the wire\<close>

text \<open>The renaming of one message without the map: the map only remembers.\<close>

definition renamed_call :: "openai_env \<Rightarrow> json \<Rightarrow> json" where
  "renamed_call env tc =
     (case tc of
        JObject m \<Rightarrow> JObject (obj_insert ''id'' (normalize_tool_call_id env
                       (case obj_get m ''id'' of Some v \<Rightarrow> v | None \<Rightarrow> JNull)) m)
      | _ \<Rightarrow> tc)"

definition renamed_declared :: "openai_env \<Rightarrow> json \<Rightarrow> json" where
  "renamed_declared env msg =
     (case get_array msg ''tool_calls'' of
        Some tcs \<Rightarrow> with_field ''tool_calls'' (JArray (map (renamed_call env) tcs)) msg
      | None \<Rightarrow> msg)"

definition renamed_answered :: "openai_env \<Rightarrow> json \<Rightarrow> json" where
  "renamed_answered env msg =
     (case json_get msg ''tool_call_id'' of
        Some v \<Rightarrow> (if v = JNull then msg else with_field ''tool_call_id'' (normalize_tool_call_id env v) msg)
      | None \<Rightarrow> msg)"

definition renamed_message :: "openai_env \<Rightarrow> json \<Rightarrow> json" where
  "renamed_message env msg = renamed_answered env (renamed_declared env msg)"

definition remembers :: "openai_env \<Rightarrow> id_map \<Rightarrow> bool" where
  "remembers env ids \<longleftrightarrow> (\<forall>s v. map_of ids s = Some v \<longrightarrow> v = normalize_id env s)"

lemma map_id_forgets:
  "remembers env ids \<Longrightarrow> map_id env ids v = (ids', v') \<Longrightarrow> remembers env ids' \<and> v' = normalize_tool_call_id env v"
  by (cases v) (auto simp: map_id_def remembers_def split: option.splits if_splits)

lemma map_call_ids_forgets:
  "remembers env ids \<Longrightarrow> map_call_ids env ids tcs = (ids', tcs') \<Longrightarrow>
   remembers env ids' \<and> tcs' = map (renamed_call env) tcs"
proof (induction tcs arbitrary: ids ids' tcs')
  case (Cons tc tcs)
  show ?case
  proof (cases tc)
    case (JObject m)
    obtain ids1 v where v: "map_id env ids (case obj_get m ''id'' of Some v \<Rightarrow> v | None \<Rightarrow> JNull) = (ids1, v)"
      by fastforce
    obtain ids2 rest where rest: "map_call_ids env ids1 tcs = (ids2, rest)" by fastforce
    from map_id_forgets [OF Cons.prems(1) v] Cons.IH [OF _ rest] Cons.prems(2) v rest
    show ?thesis by (auto simp: JObject renamed_call_def)
  qed (use Cons in \<open>auto simp: renamed_call_def split: prod.splits\<close>)
qed simp

lemma map_declared_forgets:
  "remembers env ids \<Longrightarrow> map_declared env ids msg = (ids', msg') \<Longrightarrow>
   remembers env ids' \<and> msg' = renamed_declared env msg"
  by (auto simp: map_declared_def renamed_declared_def dest: map_call_ids_forgets split: option.splits prod.splits)

lemma map_answered_forgets:
  "remembers env ids \<Longrightarrow> map_answered env ids msg = (ids', msg') \<Longrightarrow>
   remembers env ids' \<and> msg' = renamed_answered env msg"
  by (auto simp: map_answered_def renamed_answered_def dest: map_id_forgets split: option.splits if_splits prod.splits)

lemma map_message_ids_forgets:
  "remembers env ids \<Longrightarrow> map_message_ids env ids msgs = map (renamed_message env) msgs"
proof (induction msgs arbitrary: ids)
  case (Cons msg msgs)
  obtain ids1 msg1 where d: "map_declared env ids msg = (ids1, msg1)" by fastforce
  obtain ids2 msg2 where a: "map_answered env ids1 msg1 = (ids2, msg2)" by fastforce
  from map_declared_forgets [OF Cons.prems d] map_answered_forgets [OF _ a] Cons.IH [of ids2] a
  show ?case by (auto simp: d renamed_message_def)
qed simp

lemma sanitize_messages_map:
  "sanitize_messages env ms = map (renamed_message env \<circ> keep_allowed ALLOWED_MSG_KEYS) ms"
  by (simp add: sanitize_messages_def sanitize_request_messages_def map_message_ids_forgets remembers_def)

lemma with_field_get [simp]:
  "json_get (with_field k v m) k' =
     (if k' = k \<and> as_object m \<noteq> None then Some v else json_get m k')"
  by (cases m) auto

lemma renamed_call_id [simp]: "get_str (renamed_call env tc) ''id'' = map_option (normalize_id env) (get_str tc ''id'')"
proof (cases tc)
  case (JObject m)
  show ?thesis
  proof (cases "obj_get m ''id''")
    case (Some v)
    then show ?thesis by (cases v) (simp_all add: JObject renamed_call_def get_str_def obj_get_def)
  qed (simp add: JObject renamed_call_def get_str_def obj_get_def)
qed (simp_all add: renamed_call_def get_str_def)

lemma renamed_call_named [simp]: "named_call (renamed_call env tc) = named_call tc"
  by (cases tc) (simp_all add: renamed_call_def named_call_def)

lemma map_filter_map: "List.map_filter f (map g xs) = List.map_filter (f \<circ> g) xs"
  by (induction xs) (simp_all add: map_filter_Cons split: option.split)

lemma map_filter_map_option: "List.map_filter (\<lambda>x. map_option g (f x)) xs = map g (List.map_filter f xs)"
  by (induction xs) (simp_all add: map_filter_Cons split: option.split)

lemma get_array_object: "get_array m k = Some xs \<Longrightarrow> as_object m \<noteq> None"
  by (cases m) (auto simp: get_array_def)

lemma renamed_message_str:
  "k \<noteq> ''tool_call_id'' \<Longrightarrow> k \<noteq> ''tool_calls'' \<Longrightarrow> get_str (renamed_message env m) k = get_str m k"
  by (auto simp: renamed_message_def renamed_answered_def renamed_declared_def get_str_def split: option.split)

lemma renamed_message_calls:
  "get_array (renamed_message env m) ''tool_calls'' = map_option (map (renamed_call env)) (get_array m ''tool_calls'')"
  using get_array_object [of m "''tool_calls''"]
  by (auto simp: renamed_message_def renamed_answered_def renamed_declared_def get_array_def split: option.split)

lemma renamed_message_answer:
  "get_str (renamed_message env m) ''tool_call_id'' = map_option (normalize_id env) (get_str m ''tool_call_id'')"
proof -
  have d: "json_get (renamed_declared env m) ''tool_call_id'' = json_get m ''tool_call_id''"
    by (simp add: renamed_declared_def split: option.split)
  have o: "as_object (renamed_declared env m) = None \<Longrightarrow> json_get m ''tool_call_id'' = None"
    using d by (cases "renamed_declared env m") auto
  show ?thesis
  proof (cases "json_get m ''tool_call_id''")
    case (Some v)
    with o obtain fs where "renamed_declared env m = JObject fs"
      by (cases "renamed_declared env m") auto
    with Some d show ?thesis
      by (cases v) (auto simp: renamed_message_def renamed_answered_def get_str_def)
  qed (simp add: renamed_message_def renamed_answered_def d get_str_def)
qed

lemma renamed_message_renames: "renames (normalize_id env) m (renamed_message env m)"
proof -
  have "map_option (List.map_filter (\<lambda>call. get_str call ''id'')) (get_array (renamed_message env m) ''tool_calls'') =
      map_option (map (normalize_id env) \<circ> List.map_filter (\<lambda>call. get_str call ''id'')) (get_array m ''tool_calls'')"
    by (cases "get_array m ''tool_calls''")
      (simp_all add: renamed_message_calls map_filter_map comp_def map_filter_map_option)
  then show ?thesis
    by (auto simp: renames_def declared_ids_def answered_id_def str_or_empty_def renamed_message_str
        renamed_message_answer tool_call_ids_def split: option.splits)
qed

lemma renamed_message_ready: "wire_ready m \<Longrightarrow> wire_ready (renamed_message env m)"
  by (auto simp: wire_ready_def str_or_empty_def renamed_message_str renamed_message_answer
      renamed_message_calls split: option.splits)

section \<open>The messages of a body\<close>

lemma request_call_id:
  assumes "named_call tc"
  shows "Option.bind (request_call env tc) (\<lambda>call. get_str call ''id'') = get_str tc ''id''"
    "get_str tc ''id'' = None \<Longrightarrow> request_call env tc = None"
proof -
  obtain func name where "json_get tc ''function'' = Some func" "get_str func ''name'' = Some name"
    using assms by (auto simp: named_call_def bind_eq_Some_conv)
  then show "Option.bind (request_call env tc) (\<lambda>call. get_str call ''id'') = get_str tc ''id''"
    "get_str tc ''id'' = None \<Longrightarrow> request_call env tc = None"
    by (cases "get_str tc ''id''"; simp add: request_call_def; simp add: get_str_def)+
qed

lemma request_calls_ids:
  "\<forall>tc \<in> set tcs. named_call tc \<Longrightarrow>
   List.map_filter (\<lambda>call. get_str call ''id'') (List.map_filter (request_call env) tcs) =
   List.map_filter (\<lambda>call. get_str call ''id'') tcs"
proof (induction tcs)
  case (Cons tc tcs)
  then have "named_call tc" by simp
  from request_call_id [OF this, of env] Cons show ?case
    by (cases "request_call env tc"; cases "get_str tc ''id''") (auto simp: map_filter_Cons)
qed simp

lemma passed_on_keys: "k \<noteq> key \<Longrightarrow> map_of (passed_on m key) k = None"
  by (simp add: passed_on_def optional_entry_def split: option.split json.split)

lemma body_role [simp]: "get_str (map_request_message env m) ''role'' = Some (case get_str m ''role'' of Some r \<Rightarrow> r | None \<Rightarrow> ''user'')"
  by (simp add: map_request_message_def Let_def get_str_def)

lemma body_ids:
  assumes "wire_ready m"
  shows "declared_ids (map_request_message env m) = declared_ids m"
    "answered_id (map_request_message env m) = answered_id m"
proof -
  have calls: "role_of m = ''assistant'' \<Longrightarrow> tool_call_ids (map_request_message env m) = tool_call_ids m"
  proof -
    assume a: "role_of m = ''assistant''"
    then have "get_str m ''role'' = Some ''assistant''"
      by (auto simp: str_or_empty_def split: option.splits)
    then show ?thesis
      using assms a request_calls_ids [of "case get_array m ''tool_calls'' of Some calls \<Rightarrow> calls | None \<Rightarrow> []" env]
      by (auto simp: tool_call_ids_def map_request_message_def get_array_def json_get_def obj_get_def Let_def
          map_of_append passed_on_keys optional_entry_def assistant_tool_calls_def wire_ready_def map_add_def
          split: option.split)
  qed
  show "declared_ids (map_request_message env m) = declared_ids m"
    using calls by (auto simp: declared_ids_def str_or_empty_def split: option.splits)
  show "answered_id (map_request_message env m) = answered_id m"
    using assms
    by (auto simp: answered_id_def str_or_empty_def wire_ready_def map_request_message_def get_str_def Let_def
        map_add_def passed_on_keys split: option.splits)
qed

lemma wire_messages_legal:
  assumes "legal ms" "\<forall>m \<in> set ms. wire_ready m"
  shows "legal (wire_messages env ms)"
proof -
  have "renames (normalize_id env) m (map_request_message env (renamed_message env
      (keep_allowed ALLOWED_MSG_KEYS (sanitize_message m))))" if "wire_ready m" for m
  proof -
    let ?m = "keep_allowed ALLOWED_MSG_KEYS (sanitize_message m)"
    have same: "same_ids m ?m"
      by (rule same_ids_trans [OF same_ids_sanitize same_ids_keep_allowed])
    then have "wire_ready ?m" using same_ids_keep that by simp
    from body_ids [OF renamed_message_ready [OF this]] renamed_message_renames [of env ?m]
    show ?thesis by (simp add: renames_def same_ids_keep [OF same])
  qed
  then have "list_all2 (renames (normalize_id env)) ms (wire_messages env ms)"
    using assms(2)
    by (auto simp: wire_messages_def sanitize_messages_map sanitize_empty_content_def list_all2_conv_all_nth)
  then show ?thesis using assms(1) legal_renamed by blast
qed

end
