(* ===== verification/Wire_Laws.thy ===== *)
theory Wire_Laws
  imports Request_Laws
begin

text \<open>
  From a run to the network: every message of a run is ready for the wire, so the bodies posted for
  it are legal conversations of the gateway, and there are few of them.
\<close>

section \<open>Messages of a run are ready for the wire\<close>

abbreviation all_ready :: "json list \<Rightarrow> bool" where
  "all_ready \<equiv> list_all wire_ready"

lemma ready_plain [simp]:
  "declared_ids m = [] \<Longrightarrow> role_of m \<notin> {''tool'', ''assistant''} \<Longrightarrow> wire_ready m"
  by (simp add: wire_ready_def)

lemma ready_user_prompt [simp]: "wire_ready (user_prompt s)" "wire_ready (context_message a)"
  by (simp_all add: wire_ready_def user_prompt_def context_message_def str_or_empty_def get_str_def)

lemma ready_tool [simp]: "wire_ready (tool_message parse cr)" "wire_ready (synthetic_result c)"
  by (simp_all add: wire_ready_def tool_message_def synthetic_result_def str_or_empty_def get_str_def split_beta)

lemma ready_assistant:
  "\<forall>call \<in> set (case calls of Some cs \<Rightarrow> cs | None \<Rightarrow> []). named_call call \<Longrightarrow>
   wire_ready (build_assistant_message content calls reasoning thinking)"
  using assistant_role [of "''assistant''" "build_assistant_message content calls reasoning thinking"]
  by (cases calls) (auto simp: wire_ready_def str_or_empty_def get_array_def)

lemma named_openai [simp]: "named_call (to_openai_tool_call pretty call)"
  by (simp add: named_call_def to_openai_tool_call_def get_str_def)

lemma ready_answers [simp]:
  "wire_ready (text_message content response)" "wire_ready (requesting_message env response)"
  "wire_ready (build_assistant_message content None reasoning thinking)"
  by (auto simp: text_message_def requesting_message_def intro!: ready_assistant)

lemma ready_round: "all_ready (round_messages env response r)"
  by (auto simp: round_messages_def list_all_iff)

lemma ready_append_final: "all_ready ms \<Longrightarrow> all_ready (append_final_message content ms)"
  by (rule append_final_cases [of content ms]) (auto simp: list_all_iff dest: in_set_butlastD)

lemma fill_calls_set: "set (fill_calls F ms) \<subseteq> set ms \<union> range synthetic_result"
proof (induction F ms rule: fill_calls.induct)
  case (2 F m ms)
  then show ?case by (auto dest: set_takeWhileD set_dropWhileD)
qed simp

lemma content_only_same_ids: "content_only m m' \<Longrightarrow> same_ids m m'"
  by (auto simp: content_only_def)

lemma content_only_ready: "list_all2 content_only ms ms' \<Longrightarrow> all_ready ms \<Longrightarrow> all_ready ms'"
  by (induction rule: list_all2_induct) (auto simp: same_ids_keep(3) [OF content_only_same_ids])

lemma snip_history_set: "set (snip_history tk spec ms) \<subseteq> set ms"
proof (rule snip_history_cases [of tk spec ms])
  fix b assume "snip_history tk spec ms = filter (has_role ''system'') ms @ snip_kept tk b (non_system ms)"
  then show ?thesis using subseq_set [OF snip_kept_subseq [of tk b "non_system ms"]] by auto
qed simp

lemma prompt_ready:
  assumes "prompt_of tk spec ms prompt" "all_ready ms"
  shows "all_ready prompt"
proof -
  obtain env files where p: "prompt = fst (messages_for_model env tk spec ms files)"
    using assms(1) by (auto simp: prompt_of_def)
  have "all_ready (backfill_missing_tool_results ms)"
    using assms(2) fill_calls_set [of "fulfilled_ids ms" ms] by (auto simp: backfill_is_fill list_all_iff dest!: subsetD)
  then have "all_ready (fst (apply_tool_result_budget env (as_pipe spec)
      (microcompact (backfill_missing_tool_results ms)) files))"
    using content_only_ready [OF microcompact_content_only] content_only_ready [OF apply_budget_content_only] by blast
  then show ?thesis
    using snip_history_set by (fastforce simp: p messages_for_model_def list_all_iff split: prod.splits)
qed

definition wire_clean :: "conversation \<Rightarrow> bool" where
  "wire_clean c \<longleftrightarrow> all_ready (cv_messages c) \<and> (\<forall>rq \<in> set (cv_requests c). all_ready (pr_messages rq))"

lemma asked_ready: "asked tk spec ms rs \<Longrightarrow> all_ready ms \<Longrightarrow> \<forall>rq \<in> set rs. all_ready (pr_messages rq)"
  by (induction rule: asked.induct)
    (auto simp: first_request_def retry_request_def recovery_prompts dest: prompt_ready)

lemma first_ready: "prompt_of tk spec ms prompt \<Longrightarrow> all_ready ms \<Longrightarrow> all_ready (pr_messages (first_request spec prompt))"
  by (simp add: first_request_def prompt_ready)

lemma continue_wire_clean: "conv_continue tk spec c c' \<Longrightarrow> wire_clean c \<Longrightarrow> wire_clean c'"
  by (induction rule: conv_continue.induct)
    (auto simp: wire_clean_def recovery_prompts ready_round first_ready dest: asked_ready)

lemma end_wire_clean: "conv_end tk spec c f c' \<Longrightarrow> wire_clean c \<Longrightarrow> wire_clean c'"
  by (induction rule: conv_end.induct)
    (auto simp: wire_clean_def ready_append_final ready_round first_ready dest: asked_ready)

lemma run_end_wire_clean:
  assumes "run_end tk spec left c res c'" "wire_clean c"
  shows "wire_clean c'"
proof (cases res)
  case Panics
  then show ?thesis
    using assms by (auto simp: unwound_def wire_clean_def first_ready)
next
  case (Returns f)
  then show ?thesis
    using assms end_wire_clean [of tk spec c f c'] by (auto simp: wire_clean_def ready_append_final)
qed

lemma run_wire_clean:
  assumes "run_agent ops renv provider hook spec w h journal files p = (res, st)"
    "all_ready (as_initial_messages spec)"
  shows "\<forall>rq \<in> set (rn_requests st). all_ready (pr_messages rq)"
proof -
  obtain k c out where r: "run_ends (re_tokens renv) spec k c out (conv_of st)"
    using run_agent_refines [OF assms(1)] by blast
  have "wire_clean (conv_start spec)"
    using assms(2) by (simp add: wire_clean_def conv_start_def)
  with r have "wire_clean c"
    by (rule run_ends_invariant) (rule continue_wire_clean)
  then have "wire_clean (conv_of st)"
    using r by (auto simp: run_ends_def intro: run_end_wire_clean)
  then show ?thesis by (simp add: wire_clean_def conv_of_simps)
qed

section \<open>The bodies\<close>

definition body_messages :: "json_object \<Rightarrow> json list" where
  "body_messages body = (case map_of body ''messages'' of Some (JArray ms) \<Rightarrow> ms | _ \<Rightarrow> [])"

lemma body_messages_build:
  "body_messages (build_request env of_f32 p rq) =
     wire_messages env (fst (cached_prompt p (cr_messages rq) (cr_tools rq)))"
  by (auto simp: body_messages_def build_request_def Let_def max_tokens_key_def split: prod.split option.split list.split)

lemma body_messages_stream [simp]: "body_messages (apply_stream_flags body) = body_messages body"
  by (simp add: body_messages_def apply_stream_flags_def)

lemma all2_same_ids:
  assumes "list_all2 same_ids ms ms'"
  shows "all_ready ms \<Longrightarrow> all_ready ms'" "legal ms \<Longrightarrow> legal ms'"
proof -
  show "all_ready ms \<Longrightarrow> all_ready ms'"
    using assms by (induction rule: list_all2_induct) (auto simp: same_ids_keep)
  have "list_all2 (renames id) ms ms'"
    using assms by (rule list_all2_mono) (simp add: renames_def same_ids_keep option.map_id0)
  then show "legal ms \<Longrightarrow> legal ms'" by (rule legal_renamed)
qed

lemma body_legal:
  assumes "legal (cr_messages rq)" "all_ready (cr_messages rq)"
  shows "legal (body_messages (build_request env of_f32 p rq))"
  unfolding body_messages_build
  using all2_same_ids(1) [OF all2_cached assms(2)] all2_same_ids(2) [OF all2_cached assms(1)]
  by (auto intro!: wire_messages_legal simp: list_all_iff)

lemma variant_ready: "variant ms ms' \<Longrightarrow> all_ready ms \<Longrightarrow> all_ready ms'"
  by (auto simp: variant_def strip_image_content_def list_all_iff same_ids_keep(3) [OF same_ids_strip] split: if_splits)

lemma run_bodies_legal:
  assumes "run_agent ops renv (retrying_provider lower gs opts backend) hook spec w h journal files (wire_new b) = (res, st)"
    "legal (as_initial_messages spec)" "all_ready (as_initial_messages spec)"
  shows "\<forall>rq \<in> set (wi_sent (rn_provider st)). legal (body_messages (build_request env of_f32 p rq))"
proof
  fix rq assume "rq \<in> set (wi_sent (rn_provider st))"
  then obtain prq where "prq \<in> set (rn_requests st)" "variant (pr_messages prq) (cr_messages rq)"
    using run_wire_books [OF assms(1)] by (auto simp: wire_books_def)
  then show "legal (body_messages (build_request env of_f32 p rq))"
    using run_prompts_legal(2) [OF assms(1,2)] run_wire_clean [OF assms(1,3)]
    by (intro body_legal) (blast intro: variant_legal, meson variant_ready)
qed

end
