(* ===== verification/Stream_Laws.thy ===== *)
theory Stream_Laws
  imports Openai_Stream
begin

text \<open>
  What reading a streamed answer promises: for a stream of events with data and LF line ends, how
  the network cuts the bytes into chunks makes no difference; what the callbacks were told is what
  the response holds; the fragments of parallel tool calls are joined by their index.
\<close>

section \<open>Finding the end of an event\<close>

lemma find_map_upt:
  "find_map (\<lambda>i. if P i then Some i else None) [0..<n] = Some i \<longleftrightarrow> i < n \<and> P i \<and> (\<forall>j < i. \<not> P j)"
proof (induction n)
  case (Suc n)
  have none: "find_map (\<lambda>i. if P i then Some i else None) [0..<n] = None \<longleftrightarrow> (\<forall>j < n. \<not> P j)"
    by (auto simp: find_map_None_iff)
  then show ?case
    using Suc by (auto simp: less_Suc_eq split: option.splits)
qed simp

lemma prefix_take: "prefix xs ys \<longleftrightarrow> take (length xs) ys = xs"
  by (metis append_eq_conv_conj prefix_def)

lemma position_Some_iff:
  assumes "needle \<noteq> []"
  shows "position needle buffer = Some i \<longleftrightarrow>
    prefix needle (drop i buffer) \<and> (\<forall>j < i. \<not> prefix needle (drop j buffer))"
proof -
  have "prefix needle (drop i buffer) \<Longrightarrow> i < length buffer"
    using assms by (cases "i < length buffer") auto
  then show ?thesis
    unfolding position_def find_map_upt by blast
qed

lemma position_None_iff:
  assumes "needle \<noteq> []"
  shows "position needle buffer = None \<longleftrightarrow> (\<forall>i. \<not> prefix needle (drop i buffer))"
proof -
  have "prefix needle (drop i buffer) \<Longrightarrow> i < length buffer" for i
    using assms by (cases "i < length buffer") auto
  then show ?thesis
    unfolding position_def by (auto simp: find_map_None_iff)
qed

lemma prefix_drop_append:
  "i + length needle \<le> length b \<Longrightarrow> prefix needle (drop i (b @ c)) \<longleftrightarrow> prefix needle (drop i b)"
  by (simp add: prefix_take)

lemma prefix_drop_length: "needle \<noteq> [] \<Longrightarrow> prefix needle (drop i b) \<Longrightarrow> i + length needle \<le> length b"
  using prefix_length_le [of needle "drop i b"] by (cases "i < length b") auto

lemma position_append:
  assumes "needle \<noteq> []" "position needle b = Some i"
  shows "position needle (b @ c) = Some i"
proof -
  have i: "prefix needle (drop i b)" "\<forall>j < i. \<not> prefix needle (drop j b)"
    using assms(2) unfolding position_Some_iff [OF assms(1)] by auto
  have len: "i + length needle \<le> length b"
    by (rule prefix_drop_length [OF assms(1) i(1)])
  then show ?thesis
    unfolding position_Some_iff [OF assms(1)] using i by (auto simp: prefix_drop_append simp del: drop_append)
qed

lemma position_append_late:
  assumes "needle \<noteq> []" "position needle b = None" "position needle (b @ c) = Some i"
  shows "length b < i + length needle"
proof (rule ccontr)
  assume "\<not> ?thesis"
  then have "prefix needle (drop i b)"
    using assms(1,3) prefix_drop_append [of i needle b c] by (simp add: position_Some_iff del: drop_append)
  then show False using assms(2) unfolding position_None_iff [OF assms(1)] by blast
qed

lemma no_cr_boundary: "CR \<notin> set b \<Longrightarrow> find_event_boundary b = map_option (\<lambda>pos. (pos, 2)) (position LFLF b)"
proof -
  assume "CR \<notin> set b"
  then have "position CRLFCRLF b = None"
    by (auto simp: position_None_iff CRLFCRLF_def dest!: set_mono_prefix dest: in_set_dropD)
  then show ?thesis by (simp add: find_event_boundary_def)
qed

lemma boundary_length: "CR \<notin> set b \<Longrightarrow> find_event_boundary b = Some (pos, len) \<Longrightarrow> len = 2 \<and> pos + 2 \<le> length b"
  using prefix_drop_length [of LFLF pos b]
  by (auto simp: no_cr_boundary position_Some_iff LFLF_def)

lemma boundary_append:
  assumes "CR \<notin> set (b @ c)" "find_event_boundary b = Some p"
  shows "find_event_boundary (b @ c) = Some p"
proof -
  have b: "find_event_boundary b = map_option (\<lambda>pos. (pos, 2)) (position LFLF b)"
    and bc: "find_event_boundary (b @ c) = map_option (\<lambda>pos. (pos, 2)) (position LFLF (b @ c))"
    using assms(1) by (auto intro: no_cr_boundary)
  obtain i where "position LFLF b = Some i" "p = (i, 2)"
    using assms(2) b by auto
  then show ?thesis
    using position_append [of LFLF b i c] by (simp add: bc LFLF_def)
qed

lemma boundary_append_late:
  assumes "CR \<notin> set (b @ c)" "find_event_boundary b = None" "find_event_boundary (b @ c) = Some (pos, len)"
  shows "length b \<le> pos + 1"
proof -
  have "position LFLF b = None" "position LFLF (b @ c) = Some pos"
    using assms no_cr_boundary [of b] no_cr_boundary [of "b @ c"] by auto
  then show ?thesis
    using position_append_late [of LFLF b c pos] by (simp add: LFLF_def)
qed

section \<open>Streams that can be cut anywhere\<close>

text \<open>Every event carries data, and neither it nor an unfinished last one exceeds the buffer.\<close>

function well_framed :: "openai_env \<Rightarrow> string \<Rightarrow> bool" where
  "well_framed env b \<longleftrightarrow>
     (case find_event_boundary b of
        None \<Rightarrow> length b \<le> MAX_SSE_BUFFER_BYTES
      | Some (pos, len) \<Rightarrow>
          parse_sse_data env (oe_lossy env (take pos b)) \<noteq> None \<and> pos < MAX_SSE_BUFFER_BYTES \<and>
          well_framed env (drop (pos + len) b))"
  by pat_completeness auto
termination
  by (relation "measure (length \<circ> snd)") (auto dest!: boundary_positive)

declare well_framed.simps [simp del]

lemma unfinished_fits:
  assumes "CR \<notin> set (b @ c)" "well_framed env (b @ c)" "find_event_boundary b = None"
  shows "length b \<le> MAX_SSE_BUFFER_BYTES"
proof (cases "find_event_boundary (b @ c)")
  case None
  then show ?thesis using assms(2) by (simp add: well_framed.simps [of env "b @ c"])
next
  case (Some p)
  obtain pos len where "find_event_boundary (b @ c) = Some (pos, len)"
    using Some by (cases p) auto
  then show ?thesis
    using assms(2) boundary_append_late [OF assms(1,3)] by (auto simp: well_framed.simps [of env "b @ c"])
qed

fun reads_on ::
    "openai_env \<Rightarrow> string \<Rightarrow> reading \<Rightarrow> reading \<Rightarrow> bool" where
  "reads_on env c (Responds answer) whole \<longleftrightarrow> whole = Responds answer"
| "reads_on env c (Reads acc b told) whole \<longleftrightarrow>
     whole = drain_events env acc (b @ c) told \<and> CR \<notin> set (b @ c) \<and> well_framed env (b @ c) \<and>
     length b \<le> MAX_SSE_BUFFER_BYTES"

lemma drain_append:
  "CR \<notin> set (b @ c) \<Longrightarrow> well_framed env (b @ c) \<Longrightarrow>
   reads_on env c (drain_events env acc b told) (drain_events env acc (b @ c) told)"
proof (induction env acc b told rule: drain_events.induct)
  case (1 env acc b told)
  show ?case
  proof (cases "find_event_boundary b")
    case None
    then have "drain_events env acc b told = Reads acc b told"
      by (simp add: drain_events.simps [of env acc b] take_sse_event_def)
    then show ?thesis
      using 1(2,3) unfinished_fits [OF 1(2,3) None] by simp
  next
    case (Some p)
    then obtain pos len where b: "find_event_boundary b = Some (pos, len)" by (cases p) auto
    have bc: "find_event_boundary (b @ c) = Some (pos, len)"
      by (rule boundary_append [OF 1(2) b])
    have "len = 2 \<and> pos + 2 \<le> length b"
      by (rule boundary_length [OF _ b]) (use 1(2) in simp)
    then have cut: "take pos (b @ c) = take pos b" "drop (pos + len) (b @ c) = drop (pos + len) b @ c"
      by simp_all
    let ?b = "drop (pos + len) b"
    obtain out where out: "parse_sse_data env (oe_lossy env (take pos b)) = Some out"
      and rest: "well_framed env (?b @ c)"
      using 1(3) unfolding well_framed.simps [of env "b @ c"] bc option.case prod.case cut by blast
    have cr: "CR \<notin> set (?b @ c)"
      using 1(2) by (auto dest: in_set_dropD)
    have take_b: "take_sse_event env b = (Some out, ?b)"
      and take_bc: "take_sse_event env (b @ c) = (Some out, ?b @ c)"
      unfolding take_sse_event_def b bc by (simp_all only: option.case prod.case cut out)
    show ?thesis
    proof (cases out)
      case (Inr event)
      show ?thesis
      proof (cases event)
        case (SseJson chunk)
        show ?thesis
        proof (cases "apply_chunk env chunk acc")
          case applied: (Inr r)
          obtain acc' deltas where r: "r = (acc', deltas)" by (cases r)
          have "reads_on env c (drain_events env acc' ?b (told @ delta_callbacks deltas))
              (drain_events env acc' (?b @ c) (told @ delta_callbacks deltas))"
            by (rule 1(1) [OF take_b [symmetric]]) (use out Inr SseJson applied r cr rest in simp_all)
          then show ?thesis
            by (simp add: drain_events.simps [of env acc b] drain_events.simps [of env acc "b @ c"]
                take_b take_bc out Inr SseJson applied r)
        qed (simp add: drain_events.simps [of env acc b] drain_events.simps [of env acc "b @ c"]
            take_b take_bc out Inr SseJson)
      qed (simp add: drain_events.simps [of env acc b] drain_events.simps [of env acc "b @ c"]
          take_b take_bc out Inr)
    qed (simp add: drain_events.simps [of env acc b] drain_events.simps [of env acc "b @ c"]
        take_b take_bc out)
  qed
qed

lemma read_stream_cong:
  "drain_events env acc b told = drain_events env acc' b' told' \<Longrightarrow>
   read_stream env idle_s acc b told [] = read_stream env idle_s acc' b' told' []"
  by (simp add: read_round_def)

lemma read_stream_joined:
  "CR \<notin> set (b @ concat chunks) \<Longrightarrow> well_framed env (b @ concat chunks) \<Longrightarrow>
   read_stream env idle_s acc b told (map Bytes chunks) =
   read_stream env idle_s acc (b @ concat chunks) told []"
proof (induction chunks arbitrary: acc b told)
  case (Cons chunk chunks)
  let ?c = "chunk @ concat chunks"
  have on: "reads_on env ?c (drain_events env acc b told) (drain_events env acc (b @ ?c) told)"
    by (rule drain_append) (use Cons.prems in simp_all)
  show ?case
  proof (cases "drain_events env acc b told")
    case (Responds answer)
    then show ?thesis using on by (simp add: read_round_def)
  next
    case (Reads acc' b' told')
    with on have w: "drain_events env acc (b @ ?c) told = drain_events env acc' (b' @ ?c) told'"
      "CR \<notin> set (b' @ ?c)" "well_framed env (b' @ ?c)" "length b' \<le> MAX_SSE_BUFFER_BYTES" by auto
    have "read_stream env idle_s acc b told (map Bytes (chunk # chunks)) =
        read_stream env idle_s acc' (b' @ chunk) told' (map Bytes chunks)"
      using Reads w(4) by (simp add: read_round_def)
    also have "\<dots> = read_stream env idle_s acc' (b' @ ?c) told' []"
      using Cons.IH [of "b' @ chunk" acc' told'] w(2,3) by simp
    also have "\<dots> = read_stream env idle_s acc (b @ ?c) told []"
      by (rule read_stream_cong) (use w(1) in simp)
    finally show ?thesis by simp
  qed
qed simp

section \<open>What was streamed is what is kept\<close>

fun content_of_event :: "stream_event \<Rightarrow> string" where
  "content_of_event (ContentDelta s) = s"
| "content_of_event _ = []"

fun reasoning_of_event :: "stream_event \<Rightarrow> string" where
  "reasoning_of_event (ReasoningDelta s) = s"
| "reasoning_of_event _ = []"

definition text_told :: "stream_event list \<Rightarrow> string" where
  "text_told events = concat (map content_of_event events)"

definition reasoning_told :: "stream_event list \<Rightarrow> string" where
  "reasoning_told events = concat (map reasoning_of_event events)"

lemma told_simps [simp]:
  "text_told [] = []" "text_told (es @ es') = text_told es @ text_told es'"
  "reasoning_told [] = []" "reasoning_told (es @ es') = reasoning_told es @ reasoning_told es'"
  by (simp_all add: text_told_def reasoning_told_def)

definition text_or_none :: "string option \<Rightarrow> string" where
  "text_or_none t = (case t of Some s \<Rightarrow> s | None \<Rightarrow> [])"

lemma text_or_none_simps [simp]:
  "text_or_none None = []" "text_or_none (Some s) = s" "text_or_none (push_text s t) = text_or_none t @ s"
  by (simp_all add: text_or_none_def push_text_def split: option.split)

lemma told_deltas [simp]:
  "text_told (delta_callbacks deltas) = text_or_none (cd_content deltas)"
  "reasoning_told (delta_callbacks deltas) = text_or_none (cd_reasoning deltas)"
  "text_told (end_callbacks acc) = []" "reasoning_told (end_callbacks acc) = []"
  by (cases "cd_content deltas"; cases "cd_reasoning deltas";
      simp add: text_told_def reasoning_told_def delta_callbacks_def option_list_def end_callbacks_def)+

lemma choices_add_up:
  assumes "foldl (\<lambda>s choice. apply_stream_choice env choice s) (acc, deltas) choices = (acc', deltas')"
    "ac_content acc = c @ text_or_none (cd_content deltas)"
    "ac_reasoning acc = r @ text_or_none (cd_reasoning deltas)"
  shows "ac_content acc' = c @ text_or_none (cd_content deltas')"
    "ac_reasoning acc' = r @ text_or_none (cd_reasoning deltas')"
  using assms
  by (induction choices arbitrary: acc deltas) (fastforce simp: apply_stream_choice_def Let_def)+

lemma chunk_adds_up:
  assumes "apply_chunk env chunk acc = Inr (acc', deltas)"
  shows "ac_content acc' = ac_content acc @ text_or_none (cd_content deltas)"
    "ac_reasoning acc' = ac_reasoning acc @ text_or_none (cd_reasoning deltas)"
proof -
  obtain acc0 where acc0: "ac_content acc0 = ac_content acc" "ac_reasoning acc0 = ac_reasoning acc"
    "acc' = acc0 \<and> deltas = no_deltas \<or>
     (\<exists>choices. foldl (\<lambda>s choice. apply_stream_choice env choice s) (acc0, no_deltas) choices = (acc', deltas))"
  proof (rule that)
    let ?acc = "case json_get chunk ''usage'' of
      Some usage \<Rightarrow> acc\<lparr>ac_usage := parse_usage env usage\<rparr> | None \<Rightarrow> acc"
    show "ac_content ?acc = ac_content acc" "ac_reasoning ?acc = ac_reasoning acc"
      by (simp_all split: option.split)
    show "acc' = ?acc \<and> deltas = no_deltas \<or>
        (\<exists>choices. foldl (\<lambda>s choice. apply_stream_choice env choice s) (?acc, no_deltas) choices = (acc', deltas))"
      using assms by (auto simp: apply_chunk_def Let_def split: option.splits)
  qed
  then show "ac_content acc' = ac_content acc @ text_or_none (cd_content deltas)"
    "ac_reasoning acc' = ac_reasoning acc @ text_or_none (cd_reasoning deltas)"
    using choices_add_up [of env acc0 no_deltas _ acc' deltas "ac_content acc" "ac_reasoning acc"]
    by (auto simp: no_deltas_def)
qed

definition adds_up :: "stream_accumulator \<Rightarrow> stream_event list \<Rightarrow> bool" where
  "adds_up acc told \<longleftrightarrow> ac_content acc = text_told told \<and> ac_reasoning acc = reasoning_told told"

definition told_truth :: "llm_response \<times> stream_event list \<Rightarrow> bool" where
  "told_truth answer \<longleftrightarrow>
     lr_finish_reason (fst answer) = ''error'' \<or>
     lr_content (fst answer) = non_empty (text_told (snd answer)) \<and>
     lr_reasoning_content (fst answer) = non_empty (reasoning_told (snd answer))"

lemma told_truth_ends [simp]:
  "told_truth (stream_error message told)"
  "adds_up acc told \<Longrightarrow> told_truth (finish_stream env acc told)"
  by (simp_all add: told_truth_def stream_error_def error_response_def finish_stream_def into_response_def adds_up_def)

lemma chunk_keeps_adds_up:
  "apply_chunk env chunk acc = Inr (acc', deltas) \<Longrightarrow> adds_up acc told \<Longrightarrow>
   adds_up acc' (told @ delta_callbacks deltas)"
  by (simp add: adds_up_def chunk_adds_up)

lemma drain_tells_truth:
  "adds_up acc told \<Longrightarrow>
   (case drain_events env acc b told of Reads acc' b' told' \<Rightarrow> adds_up acc' told' | Responds answer \<Rightarrow> told_truth answer)"
proof (induction env acc b told rule: drain_events.induct)
  case (1 env acc b told)
  show ?case
    using 1(2) 1(1) [OF _ _ _ _ _ _ chunk_keeps_adds_up]
    by (subst drain_events.simps) (auto split: option.splits sum.splits sse_data.splits prod.splits)
qed

lemma round_tells_truth:
  assumes "adds_up acc told"
  shows "case read_round env acc b told of Reads acc' b' told' \<Rightarrow> adds_up acc' told' | Responds answer \<Rightarrow> told_truth answer"
  using drain_tells_truth [OF assms, of env b]
  by (cases "drain_events env acc b told") (simp_all add: read_round_def)

lemma end_tells_truth: "adds_up acc told \<Longrightarrow> told_truth (end_of_bytes env acc b told)"
  using chunk_keeps_adds_up [of env _ acc]
  by (fastforce simp: end_of_bytes_def split: option.splits sum.splits sse_data.splits)

lemma read_tells_truth: "adds_up acc told \<Longrightarrow> told_truth (read_stream env idle_s acc b told items)"
proof (induction items arbitrary: acc b told)
  case Nil
  with round_tells_truth [OF Nil, of env b] show ?case
    by (auto simp: end_tells_truth split: reading.splits)
next
  case (Cons item items)
  with round_tells_truth [OF Cons.prems, of env b] show ?case
    by (auto split: reading.splits net_item.splits)
qed

lemma stream_tells_truth: "told_truth (consume_sse_byte_stream env idle_s items)"
  unfolding consume_sse_byte_stream_def
  by (rule read_tells_truth) (simp add: adds_up_def accumulator_new_def)

section \<open>Tool calls in fragments\<close>

text \<open>The fragments of one call, put together: the last name and id, all the arguments in order.\<close>

definition joined :: "openai_env \<Rightarrow> json list \<Rightarrow> call_fragments" where
  "joined env fs = foldl (\<lambda>entry tc. add_fragment env tc entry) no_fragments fs"

lemma joined_snoc [simp]: "joined env (fs @ [tc]) = add_fragment env tc (joined env fs)"
  by (simp add: joined_def)

lemma joined_Nil [simp]: "joined env [] = no_fragments"
  by (simp add: joined_def)

lemma joined_single [simp]: "joined env [tc] = add_fragment env tc no_fragments"
  by (simp add: joined_def)

lemma joined_arguments: "cf_arguments (joined env fs) = concat (map (fragment_arguments env) fs)"
  by (induction fs rule: rev_induct) (simp_all add: no_fragments_def add_fragment_def)

lemma joined_name:
  "cf_name (joined env fs) = (case List.map_filter fragment_name fs of [] \<Rightarrow> [] | names \<Rightarrow> last names)"
proof (induction fs rule: rev_induct)
  case (snoc tc fs)
  then show ?case
    by (cases "fragment_name tc"; cases "List.map_filter fragment_name fs" rule: rev_cases)
      (simp_all add: add_fragment_def map_filter_Cons list.case_eq_if)
qed (simp add: no_fragments_def)

definition calls_by_index :: "openai_env \<Rightarrow> json list \<Rightarrow> (u32 \<times> call_fragments) list" where
  "calls_by_index env fs =
     map (\<lambda>k. (k, joined env (filter (\<lambda>tc. fragment_index tc = k) fs)))
       (sorted_list_of_set (fragment_index ` set fs))"

lemma entry_update_sorted:
  assumes "sorted_wrt (<) ks"
  shows "entry_update k d f (map (\<lambda>x. (x, g x)) ks) =
    map (\<lambda>x. (x, if x = k then f (if k \<in> set ks then g k else d) else g x))
      (if k \<in> set ks then ks else insort k ks)"
  using assms
proof (induction ks)
  case (Cons a ks)
  then have "a \<notin> set ks" "k < a \<Longrightarrow> k \<notin> set ks" by auto
  with Cons show ?case by auto
qed simp

lemma sorted_list_insert:
  "finite A \<Longrightarrow> sorted_list_of_set (insert (k :: 'a :: linorder) A) =
     (if k \<in> A then sorted_list_of_set A else insort k (sorted_list_of_set A))"
proof (cases "k \<in> A")
  case True
  then have "insert k A = A" by auto
  then show ?thesis using True by (simp only: if_True)
qed simp

lemma fragments_joined: "foldl (apply_fragment env) [] fs = calls_by_index env fs"
proof (induction fs rule: rev_induct)
  case (snoc tc fs)
  let ?g = "\<lambda>k. joined env (filter (\<lambda>tc. fragment_index tc = k) fs)"
  let ?i = "fragment_index tc"
  let ?I = "fragment_index ` set fs"
  let ?ks = "sorted_list_of_set ?I"
  have keys: "(if ?i \<in> set ?ks then ?ks else insort ?i ?ks) = sorted_list_of_set (insert ?i ?I)"
    by (subst sorted_list_insert) simp_all
  have none: "?i \<notin> ?I \<Longrightarrow> filter (\<lambda>x. fragment_index x = ?i) fs = []"
    unfolding filter_empty_conv by (metis imageI)
  have vals: "(if k = ?i then add_fragment env tc (if ?i \<in> set ?ks then ?g ?i else no_fragments) else ?g k) =
      joined env (filter (\<lambda>tc. fragment_index tc = k) (fs @ [tc]))" for k
    using none by (cases "k = ?i"; cases "?i \<in> ?I") simp_all
  have "sorted_wrt (<) ?ks" by simp
  from entry_update_sorted [OF this, of ?i no_fragments "add_fragment env tc" ?g, unfolded keys vals]
  have "entry_update ?i no_fragments (add_fragment env tc) (calls_by_index env fs) =
      map (\<lambda>k. (k, joined env (filter (\<lambda>tc. fragment_index tc = k) (fs @ [tc])))) (sorted_list_of_set (insert ?i ?I))"
    by (simp only: calls_by_index_def)
  with snoc show ?case
    by (simp only: apply_fragment_def calls_by_index_def foldl_append foldl.simps set_append list.set image_Un
        image_insert image_empty Un_insert_right Un_empty_right)
qed (simp add: calls_by_index_def)

text \<open>The fragments of a chunk, and the chunks of a stream one after the other.\<close>

definition choice_fragments :: "json \<Rightarrow> json list" where
  "choice_fragments choice =
     (case Option.bind (json_get choice ''delta'') (\<lambda>delta. get_array delta ''tool_calls'') of
        Some tcs \<Rightarrow> tcs | None \<Rightarrow> [])"

definition chunk_fragments :: "json \<Rightarrow> json list" where
  "chunk_fragments chunk =
     (case get_array chunk ''choices'' of Some choices \<Rightarrow> concat (map choice_fragments choices) | None \<Rightarrow> [])"

fun read_chunks :: "openai_env \<Rightarrow> json list \<Rightarrow> stream_accumulator \<Rightarrow> stream_accumulator option" where
  "read_chunks env [] acc = Some acc"
| "read_chunks env (chunk # chunks) acc =
     (case apply_chunk env chunk acc of Inl _ \<Rightarrow> None | Inr (acc, _) \<Rightarrow> read_chunks env chunks acc)"

lemma choices_calls:
  "foldl (\<lambda>s choice. apply_stream_choice env choice s) (acc, deltas) choices = (acc', deltas') \<Longrightarrow>
   ac_calls acc' = foldl (apply_fragment env) (ac_calls acc) (concat (map choice_fragments choices))"
proof (induction choices arbitrary: acc deltas)
  case (Cons choice choices)
  obtain acc1 deltas1 where a: "apply_stream_choice env choice (acc, deltas) = (acc1, deltas1)" by fastforce
  have "ac_calls acc1 = foldl (apply_fragment env) (ac_calls acc) (choice_fragments choice)"
    using a by (auto simp: apply_stream_choice_def Let_def choice_fragments_def get_array_def split: option.splits)
  with Cons a show ?case by simp
qed simp

lemma chunk_calls:
  assumes "apply_chunk env chunk acc = Inr (acc', deltas)"
  shows "ac_calls acc' = foldl (apply_fragment env) (ac_calls acc) (chunk_fragments chunk)"
  using assms choices_calls [of env _ no_deltas _ acc' deltas]
  by (auto simp: apply_chunk_def Let_def chunk_fragments_def split: option.splits)

lemma chunks_calls:
  "read_chunks env chunks acc = Some acc' \<Longrightarrow>
   ac_calls acc' = foldl (apply_fragment env) (ac_calls acc) (concat (map chunk_fragments chunks))"
proof (induction chunks arbitrary: acc)
  case (Cons chunk chunks)
  then obtain acc1 deltas where "apply_chunk env chunk acc = Inr (acc1, deltas)"
    "read_chunks env chunks acc1 = Some acc'"
    by (auto split: sum.splits)
  with Cons.IH chunk_calls show ?case by fastforce
qed simp

lemma stream_calls_enumerate:
  "stream_calls env parsed entries =
     parsed @ map (\<lambda>(i, entry). openai_tool_call env i (cf_name entry) (cf_arguments entry))
       (enumerate (length parsed) (filter (\<lambda>entry. cf_name entry \<noteq> []) entries))"
  by (induction entries arbitrary: parsed) auto

lemma streamed_calls:
  assumes "read_chunks env chunks accumulator_new = Some acc"
  shows "ac_calls acc = calls_by_index env (concat (map chunk_fragments chunks))"
  using chunks_calls [OF assms] by (simp add: fragments_joined accumulator_new_def)

section \<open>Text that is lost\<close>

text \<open>A chunk with nothing but a piece of content.\<close>

definition content_chunk :: "string \<Rightarrow> json" where
  "content_chunk t = JObject [(''choices'', JArray [JObject [(''delta'', JObject [(''content'', JString t)])]])]"

lemma content_chunk_applied:
  "apply_chunk env (content_chunk t) acc =
     (let new = non_overlapping_suffix (ac_content acc) t
      in Inr (acc\<lparr>ac_content := ac_content acc @ new\<rparr>,
              \<lparr>cd_content = (if new = [] then None else Some new), cd_reasoning = None\<rparr>))"
  by (simp add: apply_chunk_def content_chunk_def error_message_from_value_def get_array_def Let_def
      apply_stream_choice_def new_content_def new_reasoning_def extract_text_content_def json_finish_reason_def
      get_str_def push_text_def no_deltas_def)

lemma replayed_suffix: "suffix t existing \<Longrightarrow> existing \<noteq> [] \<Longrightarrow> non_overlapping_suffix existing t = []"
  by (auto simp: non_overlapping_suffix_def suffix_def prefix_def)

text \<open>An event without data stops the reader until more bytes arrive.\<close>

definition unbroken :: "string \<Rightarrow> bool" where
  "unbroken s \<longleftrightarrow> CR \<notin> set s \<and> position LFLF (s @ [NL]) = None"

lemma unbroken_boundary:
  assumes "unbroken s" "CR \<notin> set rest"
  shows "find_event_boundary (s @ LFLF @ rest) = Some (length s, 2)"
proof -
  have "\<not> prefix LFLF (drop j (s @ LFLF @ rest))" if "j < length s" for j
  proof -
    have "prefix LFLF (drop j ((s @ [NL]) @ NL # rest)) \<longleftrightarrow> prefix LFLF (drop j (s @ [NL]))"
      by (rule prefix_drop_append) (use that in \<open>simp add: LFLF_def\<close>)
    moreover have "\<not> prefix LFLF (drop j (s @ [NL]))"
      using assms(1) unfolding unbroken_def by (simp add: position_None_iff LFLF_def)
    ultimately show ?thesis by (simp add: LFLF_def)
  qed
  then have "position LFLF (s @ LFLF @ rest) = Some (length s)"
    by (subst position_Some_iff) (simp_all add: LFLF_def)
  moreover have "CR \<notin> set (s @ LFLF @ rest)"
    using assms by (auto simp: unbroken_def LFLF_def NL_def CR_def)
  ultimately show ?thesis by (simp add: no_cr_boundary)
qed

lemma comment_hides:
  assumes "unbroken note" "parse_sse_data env (oe_lossy env note) = None"
    "unbroken event" "\<not> list_all ascii_white event"
    "parse_sse_data env (oe_lossy env event) = Some (Inr (SseJson chunk))"
    "apply_chunk env chunk accumulator_new = Inr (acc, deltas)"
    "CR \<notin> set later" "length (event @ LFLF @ later) \<le> MAX_SSE_BUFFER_BYTES"
  shows "consume_sse_byte_stream env idle_s [Bytes (note @ LFLF @ event @ LFLF @ later)] =
    finish_stream env acc (delta_callbacks deltas)"
proof -
  let ?rest = "event @ LFLF @ later"
  have cr: "CR \<notin> set ?rest" "CR \<notin> set (later @ LFLF)"
    using assms(3,7) by (auto simp: unbroken_def LFLF_def NL_def CR_def)
  have "drain_events env accumulator_new (note @ LFLF @ ?rest) [] = Reads accumulator_new ?rest []"
    using unbroken_boundary [OF assms(1) cr(1)] assms(2)
    by (simp add: drain_events.simps [of env accumulator_new "note @ _"] take_sse_event_def, simp add: LFLF_def)
  moreover have "drain_events env accumulator_new [] [] = Reads accumulator_new [] []"
    by (simp add: drain_events.simps [of env accumulator_new "[]"] take_sse_event_def find_event_boundary_def position_def)
  moreover have "take_sse_event env (?rest @ LFLF) = (Some (Inr (SseJson chunk)), drop (length event + 2) (?rest @ LFLF))"
    using unbroken_boundary [OF assms(3) cr(2)] assms(5) by (simp add: take_sse_event_def)
  ultimately show ?thesis
    using assms(4,6,8) by (simp add: consume_sse_byte_stream_def read_round_def end_of_bytes_def)
qed

section \<open>A stream of events\<close>

text \<open>The events of a stream, each with its chunk, as the gateway writes them.\<close>

definition event_bytes :: "string list \<Rightarrow> string" where
  "event_bytes events = concat (map (\<lambda>event. event @ LFLF) events)"

definition carries :: "openai_env \<Rightarrow> string \<Rightarrow> json \<Rightarrow> bool" where
  "carries env event chunk \<longleftrightarrow>
     unbroken event \<and> length event < MAX_SSE_BUFFER_BYTES \<and>
     parse_sse_data env (oe_lossy env event) = Some (Inr (SseJson chunk))"

lemma event_bytes_simps [simp]:
  "event_bytes [] = []" "event_bytes (e # es) = e @ LFLF @ event_bytes es"
  by (simp_all add: event_bytes_def)

lemma carries_no_cr: "list_all2 (carries env) events chunks \<Longrightarrow> CR \<notin> set (event_bytes events)"
  by (induction rule: list_all2_induct) (auto simp: carries_def unbroken_def LFLF_def NL_def CR_def)

lemma empty_boundary [simp]: "find_event_boundary [] = None"
  by (simp add: find_event_boundary_def position_def)

lemma carries_boundary:
  "carries env event chunk \<Longrightarrow> list_all2 (carries env) events chunks \<Longrightarrow>
   find_event_boundary (event @ LFLF @ event_bytes events) = Some (length event, 2)"
  by (rule unbroken_boundary) (simp_all only: carries_def [of env event] carries_no_cr not_False_eq_True)

lemma carries_framed: "list_all2 (carries env) events chunks \<Longrightarrow> well_framed env (event_bytes events)"
proof (induction rule: list_all2_induct)
  case (Cons event events chunk chunks)
  then have "find_event_boundary (event @ LFLF @ event_bytes events) = Some (length event, 2)"
    by (intro carries_boundary)
  with Cons show ?case
    by (simp add: well_framed.simps [of env "event @ _"] carries_def, simp add: LFLF_def)
qed (simp add: well_framed.simps [of env "[]"])

lemma drain_chunks:
  "list_all2 (carries env) events chunks \<Longrightarrow> read_chunks env chunks acc = Some acc' \<Longrightarrow>
   \<exists>told'. drain_events env acc (event_bytes events) told = Reads acc' [] told'"
proof (induction arbitrary: acc told rule: list_all2_induct)
  case Nil
  then show ?case
    by (simp add: drain_events.simps [of env acc' "[]"] take_sse_event_def)
next
  case (Cons event events chunk chunks)
  obtain acc1 deltas where a: "apply_chunk env chunk acc = Inr (acc1, deltas)" "read_chunks env chunks acc1 = Some acc'"
    using Cons.prems by (auto split: sum.splits)
  have "find_event_boundary (event @ LFLF @ event_bytes events) = Some (length event, 2)"
    using Cons.hyps by (intro carries_boundary)
  then have "take_sse_event env (event @ LFLF @ event_bytes events) = (Some (Inr (SseJson chunk)), event_bytes events)"
    using Cons.hyps by (simp add: take_sse_event_def carries_def, simp add: LFLF_def)
  then show ?case
    using Cons.IH [OF a(2), of "told @ delta_callbacks deltas"]
    by (simp add: drain_events.simps [of env acc "event @ _"] a)
qed

lemma consume_chunks:
  assumes "list_all2 (carries env) events chunks" "read_chunks env chunks accumulator_new = Some acc"
    "concat pieces = event_bytes events"
  shows "fst (consume_sse_byte_stream env idle_s (map Bytes pieces)) = into_response env acc"
proof -
  obtain told where "drain_events env accumulator_new (event_bytes events) [] = Reads acc [] told"
    using drain_chunks [OF assms(1,2)] by blast
  moreover have "consume_sse_byte_stream env idle_s (map Bytes pieces) =
      read_stream env idle_s accumulator_new (event_bytes events) [] []"
    unfolding consume_sse_byte_stream_def
    using read_stream_joined [of "[]" pieces env idle_s accumulator_new "[]"] assms
    by (simp add: carries_no_cr carries_framed)
  ultimately show ?thesis
    by (simp add: read_round_def end_of_bytes_def finish_stream_def)
qed

text \<open>The calls a list of fragments spells out: per index the last name and all the arguments.\<close>

definition last_name :: "json list \<Rightarrow> string" where
  "last_name fs = (case List.map_filter fragment_name fs of [] \<Rightarrow> [] | names \<Rightarrow> last names)"

definition spoken_calls :: "openai_env \<Rightarrow> json list \<Rightarrow> (string \<times> string) list" where
  "spoken_calls env fs =
     filter (\<lambda>(name, arguments). name \<noteq> [])
       (map (\<lambda>k. let mine = filter (\<lambda>tc. fragment_index tc = k) fs
                 in (last_name mine, concat (map (fragment_arguments env) mine)))
          (sorted_list_of_set (fragment_index ` set fs)))"

lemma spoken_calls_joined:
  "spoken_calls env fs = map (\<lambda>entry. (cf_name entry, cf_arguments entry))
     (filter (\<lambda>entry. cf_name entry \<noteq> []) (map snd (calls_by_index env fs)))"
  by (simp add: spoken_calls_def calls_by_index_def joined_name joined_arguments last_name_def Let_def
      filter_map o_def)

lemma enumerate_mapped: "enumerate n (map f xs) = map (\<lambda>(i, x). (i, f x)) (enumerate n xs)"
  by (induction xs arbitrary: n) simp_all

lemma streamed_calls_spoken:
  assumes "read_chunks env chunks accumulator_new = Some acc"
  shows "lr_tool_calls (into_response env acc) =
    map (\<lambda>(i, name, arguments). openai_tool_call env i name arguments)
      (enumerate 0 (spoken_calls env (concat (map chunk_fragments chunks))))"
  by (simp add: into_response_def stream_calls_enumerate streamed_calls [OF assms] spoken_calls_joined
      enumerate_mapped split_beta o_def)

end
