(* ===== verification/Run_Examples.thy ===== *)
theory Run_Examples
  imports Run_Invariants Examples
begin

text \<open>
  Concrete runs: a scripted provider that first asks for a tool with malformed arguments and then answers, and histories on
  which the governance of the prompt can be watched.
\<close>

definition script_provider :: "llm_response list llm_provider" where
  "script_provider =
     \<lparr>pv_chat = (\<lambda>request script. case script of [] \<Rightarrow> (response_new, []) | r # rs \<Rightarrow> (r, rs)),
      pv_chat_stream = (\<lambda>request script. case script of [] \<Rightarrow> ((response_new, []), []) | r # rs \<Rightarrow> ((r, []), rs))\<rparr>"

definition ex_llm_call :: llm_tool_call where
  "ex_llm_call = \<lparr>tc_id = ''c1'', tc_name = ''note'', tc_arguments = [(ARG_PARSE_ERROR_KEY, JString ''eof'')],
     lc_extra_content = None, lc_provider_fields = None, lc_function_fields = None\<rparr>"

definition ex_tokens :: token_env where
  "ex_tokens = \<lparr>tk_encode = None, tk_show = (\<lambda>v. [])\<rparr>"

definition ex_run_env :: run_env where
  "ex_run_env = \<lparr>re_pipe = (\<lambda>i. ex_env), re_tokens = ex_tokens, re_schedule = (\<lambda>i calls. []), re_fadd = (\<lambda>a b. 0)\<rparr>"

definition ex_question :: json where
  "ex_question = JObject [(''role'', JString ''user''), (''content'', JString ''hello'')]"

definition ex_run_spec :: "(nat, unit) agent_run_spec" where
  "ex_run_spec = \<lparr>as_pipe = ex_spec, as_initial_messages = [ex_question], as_max_iterations = 5,
     as_max_tokens = None, as_error_message = None, as_max_iterations_message = None,
     as_concurrent_tools = False, as_context_window_tokens = None, as_context_block_limit = None,
     as_checkpoint_callback = False\<rparr>"

section \<open>A run with the scripted provider\<close>

lemma noop_simps [simp]:
  "fire noop_hook e s = s" "finalize noop_hook ctx content st = (content, st)"
  "rh_wants_streaming noop_hook h = False"
  by (cases s) (simp_all add: fire_def finalize_def noop_hook_def)

lemma emit_step_fields [simp]:
  "rn_messages (emit_step_checkpoint ops env spec step kind turn_start st) = rn_messages st"
  "rn_provider (emit_step_checkpoint ops env spec step kind turn_start st) = rn_provider st"
  by (auto simp: emit_step_checkpoint_def emit_checkpoint_def Let_def split: option.splits prod.splits)

definition ex_answer :: llm_response where
  "ex_answer = response_new\<lparr>lr_content := Some ''done''\<rparr>"

definition ex_asks :: llm_response where
  "ex_asks = response_new\<lparr>lr_tool_calls := [ex_llm_call], lr_finish_reason := ''tool_calls''\<rparr>"

lemma ex_not_blank: "is_blank_text (Some ''done'') = False"
  by code_simp

text \<open>The script answers in the next iteration.\<close>

lemma script_answers:
  assumes "rn_provider st = [ex_answer]"
  shows "\<exists>st1. run_iteration memory_ops ex_run_env script_provider noop_hook spec turn_start i st =
      BreakLoop \<lparr>rf_stop_reason = ''completed'', rf_final_content = Some ''done'', rf_error = None\<rparr> st1 \<and>
    rn_messages st1 = rn_messages st @ [text_message (Some ''done'') ex_answer]"
proof -
  have script: "pv_chat script_provider rq [ex_answer] = (ex_answer, [])" for rq
    by (simp add: script_provider_def)
  have fields: "lr_tool_calls ex_answer = []" "lr_content ex_answer = Some ''done''"
    "lr_finish_reason ex_answer = ''stop''"
    by (simp_all add: ex_answer_def response_new_def)
  show ?thesis
    by (auto simp: run_iteration_def Let_def split_beta request_model_def assms script fields
        text_branch_def finish_text_def ex_not_blank accumulate_usage_def push_message_def)
qed

text \<open>A call with malformed arguments is answered with an error, and the loop goes on.\<close>

lemma ex_call_refused:
  "\<exists>out. prepare_tool_call ops env spec (tool_call_request.truncate ex_llm_call) ps = (Returns (Inl out), ps) \<and>
     to_fatal out = None \<and> to_added_context out = []"
  by (simp add: prepare_tool_call_def guard_well_formed_arguments_def tool_call_request.truncate_def ex_llm_call_def
      outcome_error_def Let_def)

lemma refused_outcome:
  assumes "to_fatal out = None" "to_added_context out = []" "\<not> sp_fail_on_tool_error spec"
  shows "\<exists>out' ps'. complete_tool_call ops env spec call (Inl out) ps = (out', ps') \<and>
    to_fatal out' = None \<and> to_added_context out' = []"
proof -
  obtain normalized files where "normalized_text env spec call (raw_text out) (ps_result_files ps) = (normalized, files)"
    by fastforce
  then show ?thesis
    using assms by (simp add: complete_tool_call_def observed_def with_normalized_content_def Let_def)
qed

lemma script_call_executes:
  "\<exists>r ps'. execute_tools memory_ops env schedule ex_run_spec [tool_call_request.truncate ex_llm_call] ps = (Returns r, ps') \<and>
     br_fatal r = None \<and> br_added_context r = []"
proof -
  let ?call = "tool_call_request.truncate ex_llm_call"
  obtain out where p: "prepare_tool_call memory_ops env ex_spec ?call ps = (Returns (Inl out), ps)"
    "to_fatal out = None" "to_added_context out = []" using ex_call_refused by blast
  have "\<not> sp_fail_on_tool_error ex_spec" by (simp add: ex_spec_def)
  then obtain out' ps' where c: "complete_tool_call memory_ops env ex_spec ?call (Inl out) ps = (out', ps')"
    "to_fatal out' = None" "to_added_context out' = []"
    using refused_outcome [OF p(2,3)] by blast
  have s: "as_pipe ex_run_spec = ex_spec" "\<not> as_concurrent_tools ex_run_spec"
    by (simp_all add: ex_run_spec_def)
  show ?thesis
    using c by (auto simp: execute_tools_def partition_tool_batches_def s p complete_batch_def complete_at_def
        collect_outcome_def take_added_context_def into_triple_def no_results_def)
qed

lemma script_calls:
  assumes "rn_provider st = ex_asks # rs"
  shows "\<exists>st1. run_iteration memory_ops ex_run_env script_provider noop_hook ex_run_spec turn_start i st =
      ContinueLoop st1 \<and> rn_provider st1 = rs"
proof -
  have script: "pv_chat script_provider rq (ex_asks # rs) = (ex_asks, rs)" for rq
    by (simp add: script_provider_def)
  have fields: "lr_tool_calls ex_asks = [ex_llm_call]" "lr_finish_reason ex_asks = ''tool_calls''"
    by (simp_all add: ex_asks_def response_new_def)
  have branch: "\<exists>st2. tool_branch memory_ops ex_env schedule noop_hook ex_run_spec turn_start ex_asks ctx st' =
      ContinueLoop st2 \<and> rn_provider st2 = rs" if "rn_provider st' = rs" for schedule ctx st'
  proof -
    define s2 where "s2 = emit_step_checkpoint memory_ops ex_env ex_run_spec PreTool TYPE_AWAITING_TOOLS turn_start
      (push_message (requesting_message ex_env ex_asks) st')"
    obtain r ps where ex: "execute_tools memory_ops ex_env schedule ex_run_spec
        [tool_call_request.truncate ex_llm_call] (rn_pipe s2) = (Returns r, ps)" "br_fatal r = None" "br_added_context r = []"
      using script_call_executes by blast
    have "rn_provider s2 = rs" using that by (simp add: s2_def push_message_def)
    then show ?thesis
      using ex by (simp add: tool_branch_def fields finish_tools_def is_fatal_error_def is_tripped_def Let_def flip: s2_def)
  qed
  have e: "re_pipe ex_run_env i = ex_env" by (simp add: ex_run_env_def)
  show ?thesis
    by (simp add: run_iteration_def Let_def split_beta request_model_def assms script fields e accumulate_usage_def)
      (intro conjI impI branch; simp)
qed

definition ex_run :: "agent_run_result returns \<times> (nat, unit, memory_store, llm_response list) run_state" where
  "ex_run = run_agent memory_ops ex_run_env script_provider noop_hook ex_run_spec 0 ()
     (rj_new ''cli:x'', []) [] [ex_asks, ex_answer]"

lemma ex_run_completes:
  "\<exists>result. fst ex_run = Returns result \<and> rr_stop_reason result = ''completed'' \<and> rr_final_content result = Some ''done''"
proof -
  define st0 where "st0 = run_state_new ex_run_spec (0 :: nat) () (rj_new ''cli:x'', [] :: memory_store) [] [ex_asks, ex_answer]"
  have p0: "rn_provider st0 = [ex_asks, ex_answer]" by (simp add: st0_def run_state_new_def)
  define ts where "ts = turn_start_index (as_initial_messages ex_run_spec)"
  obtain st1 where st1: "run_iteration memory_ops ex_run_env script_provider noop_hook ex_run_spec ts 0 st0 = ContinueLoop st1"
    "rn_provider st1 = [ex_answer]" using script_calls [OF p0] by blast
  obtain st2 where st2: "run_iteration memory_ops ex_run_env script_provider noop_hook ex_run_spec ts 1 st1 =
      BreakLoop \<lparr>rf_stop_reason = ''completed'', rf_final_content = Some ''done'', rf_error = None\<rparr> st2"
    using script_answers [OF st1(2)] by blast
  have "as_max_iterations ex_run_spec = Suc (Suc 3)" by (simp add: ex_run_spec_def)
  then have "run_loop memory_ops ex_run_env script_provider noop_hook ex_run_spec ts 0 (as_max_iterations ex_run_spec) st0 =
      (Returns \<lparr>rf_stop_reason = ''completed'', rf_final_content = Some ''done'', rf_error = None\<rparr>, st2)"
    using st1 st2 by (simp add: numeral_eq_Suc)
  then show ?thesis
    by (simp add: ex_run_def run_agent_def run_result_def flip: st0_def ts_def)
qed

section \<open>Histories\<close>

definition ex_calling :: "string list \<Rightarrow> json" where
  "ex_calling ids = JObject [(''role'', JString ''assistant''), (''content'', JNull),
     (''tool_calls'', JArray (map (\<lambda>i. JObject [(''id'', JString i)]) ids))]"

definition ex_result :: "string \<Rightarrow> string \<Rightarrow> json" where
  "ex_result i t = JObject [(''role'', JString ''tool''), (''tool_call_id'', JString i),
     (''name'', JString ''exec''), (''content'', JString t)]"

definition ex_ok :: json where
  "ex_ok = JObject [(''role'', JString ''assistant''), (''content'', JString ''ok'')]"

text \<open>A turn whose second call was interrupted.\<close>

definition ex_interrupted :: "json list" where
  "ex_interrupted = [ex_question, ex_calling [''c1'', ''c2''], ex_result ''c1'' ''out'', ex_question]"

lemma ex_interrupted_shape:
  "in_place ex_interrupted" "distinct (concat (map declared_ids ex_interrupted))" "starts_run ex_interrupted"
  by code_simp+

text \<open>A background turn, with no user message and one large result, in a narrow window.\<close>

definition ex_background :: "json list" where
  "ex_background = [ex_calling [''c1''], ex_result ''c1'' (replicate 600 (CHR ''x'')), ex_ok]"

definition ex_narrow_spec :: "(nat, unit) agent_run_spec" where
  "ex_narrow_spec = ex_run_spec\<lparr>as_pipe := ex_spec\<lparr>sp_tools := registry_new\<rparr>,
     as_context_window_tokens := Some 8000, as_context_block_limit := Some 140\<rparr>"

lemma ex_background_tidy: "tidy ex_background"
  by (simp add: tidy_def ex_background_def ex_calling_def ex_result_def ex_ok_def has_role_def get_str_def
      declared_ids_def tool_call_ids_def get_array_def str_or_empty_def answered_id_def List.map_filter_simps)


lemma ex_tokens_of:
  "estimate_message_tokens ex_tokens (ex_calling [''c1'']) = 4" "estimate_message_tokens ex_tokens ex_ok = 4"
  "estimate_message_tokens ex_tokens (ex_result ''c1'' (replicate 600 (CHR ''x''))) = 156"
    apply code_simp
   apply code_simp
  by (simp add: estimate_message_tokens_def message_payload_def ex_result_def ex_tokens_def nonempty_field_def
      get_str_def Let_def FRAMING_def)

lemma ex_does_not_fit: "140 < estimate_prompt_tokens ex_tokens ex_background None"
  by (simp add: estimate_prompt_tokens_def prompt_parts_def ex_background_def ex_calling_def ex_result_def ex_ok_def
      ex_tokens_def nonempty_field_def get_str_def Let_def)

lemma ex_roles:
  "has_role r (ex_calling ids) \<longleftrightarrow> r = ''assistant''" "has_role r (ex_result i t) \<longleftrightarrow> r = ''tool''"
  "has_role r ex_ok \<longleftrightarrow> r = ''assistant''"
  by (auto simp: ex_calling_def ex_result_def ex_ok_def has_role_def get_str_def)

lemma ex_roles_user [simp]: "\<not> is_user (ex_calling ids)" "\<not> is_user (ex_result i t)" "\<not> is_user ex_ok"
  by (simp_all add: ex_calling_def ex_result_def ex_ok_def get_str_def)

lemma ex_snip: "snip_history ex_tokens ex_narrow_spec ex_background = [ex_calling [''c1''], ex_ok]"
proof -
  have f: "as_context_window_tokens ex_narrow_spec = Some 8000" "snip_budget ex_narrow_spec 8000 = 140"
    by (simp_all add: snip_budget_def ex_narrow_spec_def)
  have o: "offered_tools ex_narrow_spec = None" by code_simp
  have s: "filter (has_role ''system'') ex_background = []" "non_system ex_background = ex_background"
    by (simp_all add: ex_background_def ex_roles)
  have r: "snip_remaining ex_tokens None 140 ex_background = 140"
    by (simp add: snip_remaining_def s total_tokens_def tool_defs_tokens_def)
  have g: "snip_select ex_tokens 140 ex_background = [ex_calling [''c1''], ex_ok]"
    by (simp add: snip_select_def keep_greedily_def ex_background_def ex_tokens_of)
  have l: "trim_to_legal [ex_calling [''c1''], ex_ok] = [ex_calling [''c1''], ex_ok]" by code_simp
  show ?thesis
    using ex_does_not_fit s by (simp add: snip_history_def f o r snip_kept_def g l) (simp add: ex_background_def)
qed

lemma ex_snip_unanswered:
  "''c1'' \<in> declared_in [ex_calling [''c1''], ex_ok]" "''c1'' \<notin> fulfilled_ids [ex_calling [''c1''], ex_ok]"
  by code_simp+


lemma ex_legal: "legal [ex_question]" "legal [ex_ok]"
  by (simp_all add: legal_def answered_id_def str_or_empty_def get_str_def ex_question_def ex_ok_def)

end
