(* ===== verification/Provider_Examples.thy ===== *)
theory Provider_Examples
  imports Wire_Laws Stream_Laws Run_Examples
begin

text \<open>
  Concrete providers: a gateway whose JSON texts are those of single content chunks, a backend that
  is overloaded twice and then answers, and one whose stream breaks after a few letters.
\<close>

section \<open>A gateway\<close>

definition quoted :: "string \<Rightarrow> string" where
  "quoted s = [CHR 0x22] @ s @ [CHR 0x22]"

text \<open>The text of values without strings to escape, and the event that carries one.\<close>

fun plain_text :: "json \<Rightarrow> string" where
  "plain_text (JString s) = quoted s"
| "plain_text (JNumber (PosInt n)) = show_nat (unat n)"
| "plain_text (JArray vs) = ''['' @ join '','' (map plain_text vs) @ '']''"
| "plain_text (JObject fs) =
     [CHR 0x7B] @ join '','' (map (\<lambda>(k, v). quoted k @ '':'' @ plain_text v) fs) @ [CHR 0x7D]"
| "plain_text v = ''null''"

definition event_of :: "json \<Rightarrow> string" where
  "event_of chunk = ''data: '' @ plain_text chunk"

text \<open>A piece of a call, in a chunk of its own.\<close>

definition call_chunk :: "u64 \<Rightarrow> (string \<times> json) list \<Rightarrow> json" where
  "call_chunk index func =
     JObject [(''choices'', JArray [JObject [(''delta'', JObject [(''tool_calls'',
       JArray [JObject [(''index'', JNumber (PosInt index)), (''function'', JObject func)]])])]])]"

definition ex_pieces :: "json list" where
  "ex_pieces = [call_chunk 1 [(''name'', JString ''read''), (''arguments'', JString ''[1'')],
     call_chunk 0 [(''name'', JString ''list'')], call_chunk 1 [(''arguments'', JString '',2]'')]]"

definition ex_chunks :: "json list" where
  "ex_chunks = [content_chunk ''1'', content_chunk ''0''] @ ex_pieces"

definition ex_value_ops :: value_ops where
  "ex_value_ops = \<lparr>vo_parse_f64 = (\<lambda>s. None), vo_f64_finite = (\<lambda>x. True), vo_as_f64 = (\<lambda>n. 0),
     vo_f64_less = (\<lambda>x y. False), vo_show_f64 = (\<lambda>x. []), vo_show_json = (\<lambda>v. []),
     vo_debug_type = (\<lambda>v. []), vo_lower = (\<lambda>s. s)\<rparr>"

definition ex_openai_env :: openai_env where
  "ex_openai_env = \<lparr>oe_ops = ex_value_ops, oe_f64_to_u32 = (\<lambda>x. 0),
     oe_parse = (\<lambda>s. case List.find (\<lambda>chunk. plain_text chunk = s) ex_chunks of
                       Some chunk \<Rightarrow> Inr chunk | None \<Rightarrow> Inl ''expected value''),
     oe_parse_args = (\<lambda>s. if s = ''{}'' then Inr [] else Inl ''expected value''),
     oe_lossy = (\<lambda>s. s), oe_ids = (\<lambda>n. ''call_'' @ show_nat n), oe_sha1_hex = (\<lambda>s. s)\<rparr>"

lemma ex_lossy [simp]: "oe_lossy ex_openai_env s = s"
  by (simp add: ex_openai_env_def)

lemma one_line_unbroken:
  assumes "NL \<notin> set s" "CR \<notin> set s"
  shows "unbroken s"
proof -
  have "\<not> prefix LFLF (drop i (s @ [NL]))" for i
  proof
    assume p: "prefix LFLF (drop i (s @ [NL]))"
    then have "i + 2 \<le> length (s @ [NL])"
      using prefix_drop_length [OF _ p] by (simp add: LFLF_def)
    then have "prefix LFLF (drop i s @ [NL])" "drop i s \<noteq> []"
      using p by simp_all
    then have "hd (drop i s) = NL" by (cases "drop i s") (simp_all add: LFLF_def)
    then show False
      using assms(1) \<open>drop i s \<noteq> []\<close> by (metis hd_in_set in_set_dropD)
  qed
  then show ?thesis
    using assms(2) by (simp add: unbroken_def position_None_iff LFLF_def)
qed


lemma strip_crs_id: "CR \<notin> set line \<Longrightarrow> strip_crs line = line"
  by (cases line rule: rev_cases) (auto simp: strip_crs_def)

lemma data_line_parsed:
  assumes "NL \<notin> set body" "CR \<notin> set body" "body = CHR ''{'' # inner @ ''}''"
    "oe_parse env body = Inr value" "error_message_from_value value = None"
  shows "parse_sse_data env (''data: '' @ body) = Some (Inr (SseJson value))"
proof -
  have "str_lines (''data: '' @ body) = [''data: '' @ body]"
    by (subst str_lines_piece) (use assms(1) in \<open>auto simp: NL_def\<close>)
  moreover have "strip_crs (''data: '' @ body) = ''data: '' @ body"
    by (rule strip_crs_id) (use assms(2) in \<open>auto simp: CR_def\<close>)
  moreover have "trim body = body"
    unfolding assms(3) by (rule trim_braces)
  ultimately show ?thesis
    using assms(3,4,5) by (simp add: parse_sse_data_def data_part_def List.map_filter_simps)
qed

lemma event_parsed:
  assumes "let body = plain_text chunk in NL \<notin> set body \<and> CR \<notin> set body \<and>
      hd body = CHR ''{'' \<and> last body = CHR ''}'' \<and> 2 \<le> length body \<and> length body < 1000"
    "List.find (\<lambda>chunk'. plain_text chunk' = plain_text chunk) ex_chunks = Some chunk" "error_message_from_value chunk = None"
  shows "carries ex_openai_env (event_of chunk) chunk"
proof -
  let ?body = "plain_text chunk"
  have b: "NL \<notin> set ?body" "CR \<notin> set ?body" "hd ?body = CHR ''{''" "last ?body = CHR ''}''" "2 \<le> length ?body" "length ?body < 1000"
    using assms(1) by (simp_all add: Let_def)
  have "?body = CHR ''{'' # butlast (tl ?body) @ ''}''"
    using b(3-5) by (cases ?body; cases "tl ?body" rule: rev_cases) auto
  then have "parse_sse_data ex_openai_env (''data: '' @ ?body) = Some (Inr (SseJson chunk))"
    using b assms(2,3) by (intro data_line_parsed) (simp_all add: ex_openai_env_def)
  moreover have "unbroken (''data: '' @ ?body)"
    by (rule one_line_unbroken) (use b in \<open>auto simp: NL_def CR_def\<close>)
  ultimately show ?thesis
    using b by (simp add: carries_def event_of_def MAX_SSE_BUFFER_BYTES_def)
qed

lemma ex_chunks_carried: "list_all (\<lambda>chunk. carries ex_openai_env (event_of chunk) chunk) ex_chunks"
proof -
  have "list_all (\<lambda>chunk. let body = plain_text chunk in NL \<notin> set body \<and> CR \<notin> set body \<and>
      hd body = CHR ''{'' \<and> last body = CHR ''}'' \<and> 2 \<le> length body \<and> length body < 1000) ex_chunks"
    by code_simp
  moreover have "list_all (\<lambda>chunk. List.find (\<lambda>chunk'. plain_text chunk' = plain_text chunk) ex_chunks = Some chunk \<and>
      error_message_from_value chunk = None) ex_chunks"
    by code_simp
  ultimately show ?thesis
    unfolding list_all_iff by (blast intro: event_parsed)
qed

lemma ex_pieces_carried: "list_all2 (carries ex_openai_env) (map event_of ex_pieces) ex_pieces"
  using ex_chunks_carried by (simp add: ex_chunks_def list_all_iff list_all2_map1 list_all2_same)

lemma ex_content_carried:
  "carries ex_openai_env (event_of (content_chunk ''1'')) (content_chunk ''1'')"
  "carries ex_openai_env (event_of (content_chunk ''0'')) (content_chunk ''0'')"
  using ex_chunks_carried by (simp_all add: ex_chunks_def)

lemma ex_digits_carried:
  "list_all2 (carries ex_openai_env) (map event_of [content_chunk ''1'', content_chunk ''0'']) [content_chunk ''1'', content_chunk ''0'']"
  by (simp add: ex_content_carried)

lemma ex_lengths: "length (event_of (content_chunk ''1'')) = 45" "length (event_of (content_chunk ''0'')) = 45"
  by code_simp+

section \<open>Backends\<close>

text \<open>Overloaded for two requests, then answering; the state is the number of requests.\<close>

definition busy_backend :: "nat backend" where
  "busy_backend = \<lparr>be_chat = (\<lambda>rq n. (Inr (if n < 2 then error_response ''HTTP 503'' else ex_answer), n + 1)),
     be_chat_stream = (\<lambda>rq n. ((Inr (if n < 2 then error_response ''HTTP 503'' else ex_answer), []), n + 1))\<rparr>"

text \<open>A stream that breaks after a few letters, and is whole the next time.\<close>

definition breaking_backend :: "nat backend" where
  "breaking_backend = \<lparr>be_chat = (\<lambda>rq n. (Inr ex_answer, n + 1)),
     be_chat_stream = (\<lambda>rq n.
       if n = 0 then ((Inr (error_response ''connection reset''), [ContentDelta ''do'']), n + 1)
       else ((Inr ex_answer, [ContentDelta ''done'']), n + 1))\<rparr>"

definition ex_options :: chat_options where
  "ex_options = \<lparr>co_model = None, co_temperature = None, co_reasoning_effort = None, co_tool_choice = None\<rparr>"

definition ex_provider :: openai_provider where
  "ex_provider = \<lparr>op_spec = None, op_default_model = None, op_url = ''http://localhost/v1/chat/completions''\<rparr>"

definition ex_request :: provider_request where
  "ex_request = \<lparr>pr_messages = [ex_question], pr_tools = None, pr_max_tokens = None\<rparr>"

definition ex_wire_run :: "agent_run_result returns \<times> (nat, unit, memory_store, nat wire) run_state" where
  "ex_wire_run = run_agent memory_ops ex_run_env
     (retrying_provider (\<lambda>s. s) generation_new ex_options busy_backend) noop_hook ex_run_spec 0 ()
     (rj_new ''cli:x'', []) [] (wire_new 0)"

lemma transient_503: "transient_failure (\<lambda>s. s) (error_response ''HTTP 503'')"
  by code_simp

lemma transient_reset: "transient_failure (\<lambda>s. s) (error_response ''connection reset'')"
  by code_simp

lemma ex_question_ready: "legal [ex_question]" "list_all wire_ready [ex_question]"
  by (simp_all add: legal_def ex_question_def wire_ready_def answered_id_def declared_ids_def has_role_def get_str_def
      tool_call_ids_def get_array_def str_or_empty_def)

end
