(* ===== verification/Cron_Service.thy ===== *)
theory Cron_Service
  imports Text_Helpers
begin

text \<open>
  Scheduled jobs: \<open>src/cron/types.rs\<close>, \<open>src/cron/service.rs\<close> and \<open>src/cron/cron_service.rs\<close>.

  An \<open>i64\<close> of milliseconds is an integer with the wrap-around of a release build written out
  (\<open>wrap_i64\<close>).  The clock is read by the caller: every operation takes the times it sees, in order.
  The file is its text and its modification stamp; each operation takes a record of the outcomes of
  its system calls.  serde_json is the codec \<open>cron_codec\<close>; croner, chrono and chrono-tz are the fields
  of \<open>cron_env\<close>.

  The timer is a spawned task whose handle the service keeps: \<open>timer_task\<close> is how far it has come.
  Between the start and the end of a job's callback other tasks run, so these are separate
  operations; the sections of one public operation (change, save) are taken together.
\<close>

section \<open>Types\<close>

datatype cron_schedule_kind = KindAt | KindEvery | KindCron

record cron_schedule =
  sc_kind :: cron_schedule_kind
  sc_at_ms :: "int option"
  sc_every_ms :: "int option"
  sc_expr :: "string option"
  sc_tz :: "string option"

definition schedule_default :: cron_schedule where
  "schedule_default = \<lparr>sc_kind = KindEvery, sc_at_ms = None, sc_every_ms = None, sc_expr = None, sc_tz = None\<rparr>"

datatype cron_payload_kind = SystemEvent | AgentTurn

record cron_payload =
  cp_kind :: cron_payload_kind
  cp_message :: string
  cp_deliver :: bool
  cp_channel :: "string option"
  cp_to :: "string option"

definition payload_default :: cron_payload where
  "payload_default = \<lparr>cp_kind = AgentTurn, cp_message = [], cp_deliver = False, cp_channel = None, cp_to = None\<rparr>"

datatype cron_run_status = RunOk | RunError | RunSkipped

record cron_run_record =
  cr_run_at_ms :: int
  cr_status :: cron_run_status
  cr_duration_ms :: int
  cr_run_error :: "string option"

record cron_job_state =
  js_next_run_at_ms :: "int option"
  js_last_run_at_ms :: "int option"
  js_last_status :: "cron_run_status option"
  js_last_error :: "string option"
  js_run_history :: "cron_run_record list"

definition job_state_default :: cron_job_state where
  "job_state_default = \<lparr>js_next_run_at_ms = None, js_last_run_at_ms = None, js_last_status = None,
     js_last_error = None, js_run_history = []\<rparr>"

record cron_job =
  cj_id :: string
  cj_name :: string
  cj_enabled :: bool
  cj_schedule :: cron_schedule
  cj_payload :: cron_payload
  cj_state :: cron_job_state
  cj_created_at_ms :: int
  cj_updated_at_ms :: int
  cj_delete_after_run :: bool

record cron_store =
  ct_version :: int
  ct_jobs :: "cron_job list"

definition cron_store_default :: cron_store where
  "cron_store_default = \<lparr>ct_version = 1, ct_jobs = []\<rparr>"

section \<open>Schedules\<close>

definition wrap_i64 :: "int \<Rightarrow> int" where
  "wrap_i64 n = signed_take_bit 63 n"

definition I64_MAX :: int where "I64_MAX = 2 ^ 63 - 1"

text \<open>
  \<open>ce_find_next expr tz secs nanos\<close>: the next occurrence of a cron expression after that instant, in
  the named zone or the local one, if expression, zone and instant are valid.  Formats are chrono's.
\<close>

record cron_env =
  ce_find_next :: "string \<Rightarrow> string option \<Rightarrow> int \<Rightarrow> int \<Rightarrow> int option"
  ce_known_tz :: "string \<Rightarrow> bool"
  ce_rfc3339 :: "string \<Rightarrow> int option"
  ce_datetime :: "string \<Rightarrow> string \<Rightarrow> int option"
  ce_naive :: "string \<Rightarrow> string \<Rightarrow> int option"
  ce_from_local :: "string \<Rightarrow> int \<Rightarrow> int option"
  ce_show :: "string \<Rightarrow> int \<Rightarrow> int \<Rightarrow> string option"

definition next_cron_run :: "cron_env \<Rightarrow> string \<Rightarrow> int \<Rightarrow> string option \<Rightarrow> int option" where
  "next_cron_run env expr now tz = ce_find_next env expr tz (now div 1000) (now mod 1000 * 1000000)"

definition compute_next_run :: "cron_env \<Rightarrow> cron_schedule \<Rightarrow> int \<Rightarrow> int option" where
  "compute_next_run env schedule now =
     (case sc_kind schedule of
        KindAt \<Rightarrow> (case sc_at_ms schedule of
                    Some at_ms \<Rightarrow> if at_ms > now then Some at_ms else None
                  | None \<Rightarrow> None)
      | KindEvery \<Rightarrow> (case sc_every_ms schedule of
                       Some every_ms \<Rightarrow> if every_ms \<le> 0 then None else Some (wrap_i64 (now + every_ms))
                     | None \<Rightarrow> None)
      | KindCron \<Rightarrow> (case sc_expr schedule of
                      Some expr \<Rightarrow> if expr = [] then None else next_cron_run env expr now (sc_tz schedule)
                    | None \<Rightarrow> None))"

definition validate_timezone :: "cron_env \<Rightarrow> string \<Rightarrow> string option" where
  "validate_timezone env tz =
     (if ce_known_tz env tz then None else Some (''Error: unknown timezone '' @ [CHR 0x27] @ tz @ [CHR 0x27]))"

definition parse_at_iso :: "cron_env \<Rightarrow> string \<Rightarrow> string \<Rightarrow> string + int" where
  "parse_at_iso env at default_timezone =
     (case ce_rfc3339 env at of Some ms \<Rightarrow> Inr ms | None \<Rightarrow>
      case ce_datetime env ''%Y-%m-%dT%H:%M:%S%#z'' at of Some ms \<Rightarrow> Inr ms | None \<Rightarrow>
      case ce_datetime env ''%Y-%m-%dT%H:%M:%S%.f%#z'' at of Some ms \<Rightarrow> Inr ms | None \<Rightarrow>
      case (case ce_naive env ''%Y-%m-%dT%H:%M:%S'' at of
              Some naive \<Rightarrow> Some naive | None \<Rightarrow> ce_naive env ''%Y-%m-%dT%H:%M:%S%.f'' at) of
        None \<Rightarrow> Inl (''Error: invalid ISO datetime format '' @ [CHR 0x27] @ at @ [CHR 0x27] @
                     ''. Expected format: YYYY-MM-DDTHH:MM:SS'')
      | Some naive \<Rightarrow>
          (case validate_timezone env default_timezone of
             Some err \<Rightarrow> Inl err
           | None \<Rightarrow>
               (case ce_from_local env default_timezone naive of
                  Some ms \<Rightarrow> Inr ms
                | None \<Rightarrow> Inl (''Error: invalid local datetime '' @ [CHR 0x27] @ at @ [CHR 0x27]))))"

definition format_timestamp :: "cron_env \<Rightarrow> (int \<Rightarrow> string) \<Rightarrow> int \<Rightarrow> string \<Rightarrow> string + string" where
  "format_timestamp env show_int ms tz_name =
     (if \<not> ce_known_tz env tz_name
      then Inl (''Error: unknown timezone '' @ [CHR 0x27] @ tz_name @ [CHR 0x27])
      else case ce_show env tz_name (ms div 1000) (ms mod 1000 * 1000000) of
        Some dt \<Rightarrow> Inr (dt @ '' ('' @ tz_name @ '')'')
      | None \<Rightarrow> Inl (''Error: invalid timestamp '' @ show_int ms))"

text \<open>\<open>trim_start_matches\<close> takes the prefix off as often as it is there; the fuel is the length.\<close>

fun trim_start_matches :: "nat \<Rightarrow> string \<Rightarrow> string \<Rightarrow> string" where
  "trim_start_matches (Suc n) p s = (if p \<noteq> [] \<and> prefix p s then trim_start_matches n p (drop (length p) s) else s)"
| "trim_start_matches 0 p s = s"

definition validate_schedule_for_add :: "cron_env \<Rightarrow> cron_schedule \<Rightarrow> string + unit" where
  "validate_schedule_for_add env schedule =
     (if sc_tz schedule \<noteq> None \<and> sc_kind schedule \<noteq> KindCron
      then Inl ''tz can only be used with cron schedules''
      else case (if sc_kind schedule = KindCron
                 then Option.bind (sc_tz schedule) (validate_timezone env) else None) of
        Some msg \<Rightarrow> Inl (trim_start_matches (length msg) ''Error: '' msg)
      | None \<Rightarrow> Inr ())"

section \<open>The store and its file\<close>

definition MAX_RUN_HISTORY :: nat where "MAX_RUN_HISTORY = 20"

datatype remove_job_result = JobRemoved | JobProtected | JobNotFound

record cron_codec =
  cc_print :: "cron_store \<Rightarrow> string option"
  cc_parse :: "string \<Rightarrow> cron_store option"

text \<open>How \<open>fs::write\<close> ends: it truncates the file before it writes.\<close>

datatype write_end = Written | NotOpened | Torn nat

record cron_io =
  ci_meta :: bool
  ci_read :: bool
  ci_meta_read :: bool
  ci_mkdir :: bool
  ci_write :: write_end
  ci_meta_written :: bool
  ci_stamp :: nat

definition cron_io_ok :: "nat \<Rightarrow> cron_io" where
  "cron_io_ok stamp = \<lparr>ci_meta = True, ci_read = True, ci_meta_read = True, ci_mkdir = True,
     ci_write = Written, ci_meta_written = True, ci_stamp = stamp\<rparr>"

record cron_service =
  sv_file :: "(string \<times> nat) option"
  sv_store :: "cron_store option"
  sv_last_mtime :: "nat option"
  sv_running :: bool

definition cron_service_new :: "(string \<times> nat) option \<Rightarrow> cron_service" where
  "cron_service_new file = \<lparr>sv_file = file, sv_store = None, sv_last_mtime = None, sv_running = False\<rparr>"

definition reload_store_if_needed :: "cron_codec \<Rightarrow> cron_io \<Rightarrow> cron_service \<Rightarrow> cron_service" where
  "reload_store_if_needed cd io s =
     (let stale = (sv_store s \<noteq> None \<and> ci_meta io \<and>
                   (case sv_file s of Some (_, mtime) \<Rightarrow> sv_last_mtime s \<noteq> Some mtime | None \<Rightarrow> False))
      in if sv_store s \<noteq> None \<and> \<not> stale then s
         else case sv_file s of
           None \<Rightarrow> s\<lparr>sv_store := Some cron_store_default\<rparr>
         | Some (contents, mtime) \<Rightarrow>
             (case (if ci_read io then cc_parse cd contents else None) of
                None \<Rightarrow> s\<lparr>sv_store := Some cron_store_default\<rparr>
              | Some store \<Rightarrow>
                  s\<lparr>sv_store := Some store,
                    sv_last_mtime := (if ci_meta_read io then Some mtime else sv_last_mtime s)\<rparr>))"

definition save_store_to_disk :: "cron_codec \<Rightarrow> cron_io \<Rightarrow> cron_service \<Rightarrow> cron_service" where
  "save_store_to_disk cd io s =
     (case sv_store s of
        None \<Rightarrow> s
      | Some store \<Rightarrow>
          if \<not> ci_mkdir io then s
          else case cc_print cd store of
            None \<Rightarrow> s
          | Some json \<Rightarrow>
              (case ci_write io of
                 NotOpened \<Rightarrow> s
               | Torn n \<Rightarrow> s\<lparr>sv_file := Some (take n json, ci_stamp io)\<rparr>
               | Written \<Rightarrow>
                   s\<lparr>sv_file := Some (json, ci_stamp io),
                     sv_last_mtime := (if ci_meta_written io then Some (ci_stamp io) else sv_last_mtime s)\<rparr>))"

text \<open>\<open>store_ref\<close> is used after a reload, which leaves a store; \<open>store_mut\<close> reloads itself.\<close>

definition store_ref :: "cron_service \<Rightarrow> cron_store" where
  "store_ref s = (case sv_store s of Some store \<Rightarrow> store | None \<Rightarrow> cron_store_default)"

definition map_jobs :: "(cron_job list \<Rightarrow> cron_job list) \<Rightarrow> cron_service \<Rightarrow> cron_service" where
  "map_jobs f s = s\<lparr>sv_store := Some ((store_ref s)\<lparr>ct_jobs := f (ct_jobs (store_ref s))\<rparr>)\<rparr>"

definition store_mut ::
    "cron_codec \<Rightarrow> cron_io \<Rightarrow> (cron_job list \<Rightarrow> cron_job list) \<Rightarrow> cron_service \<Rightarrow> cron_service" where
  "store_mut cd io f s = map_jobs f (reload_store_if_needed cd io s)"

definition jobs_of :: "cron_service \<Rightarrow> cron_job list" where
  "jobs_of s = ct_jobs (store_ref s)"

definition find_job :: "string \<Rightarrow> cron_job list \<Rightarrow> cron_job option" where
  "find_job job_id jobs = List.find (\<lambda>j. cj_id j = job_id) jobs"

section \<open>The public operations\<close>

definition reschedule :: "cron_env \<Rightarrow> int \<Rightarrow> cron_job \<Rightarrow> cron_job" where
  "reschedule env now job =
     job\<lparr>cj_state := (cj_state job)\<lparr>js_next_run_at_ms := compute_next_run env (cj_schedule job) now\<rparr>\<rparr>"

definition unschedule :: "cron_job \<Rightarrow> cron_job" where
  "unschedule job = job\<lparr>cj_state := (cj_state job)\<lparr>js_next_run_at_ms := None\<rparr>\<rparr>"

definition recompute_next_runs :: "cron_env \<Rightarrow> cron_codec \<Rightarrow> cron_io \<Rightarrow> int \<Rightarrow> cron_service \<Rightarrow> cron_service" where
  "recompute_next_runs env cd io now s =
     store_mut cd io (map (\<lambda>job. if cj_enabled job then reschedule env now job else job)) s"

definition cron_start :: "cron_env \<Rightarrow> cron_codec \<Rightarrow> cron_io \<Rightarrow> int \<Rightarrow> cron_service \<Rightarrow> cron_service" where
  "cron_start env cd io now s =
     save_store_to_disk cd io
       (recompute_next_runs env cd io now (reload_store_if_needed cd io (s\<lparr>sv_running := True\<rparr>)))"

text \<open>\<open>sort_by_key\<close> is stable.\<close>

definition list_jobs :: "cron_codec \<Rightarrow> cron_io \<Rightarrow> bool \<Rightarrow> cron_service \<Rightarrow> cron_job list \<times> cron_service" where
  "list_jobs cd io include_disabled s =
     (let s = reload_store_if_needed cd io s
      in (sort_key (\<lambda>j. case js_next_run_at_ms (cj_state j) of Some t \<Rightarrow> t | None \<Rightarrow> I64_MAX)
            (filter (\<lambda>j. include_disabled \<or> cj_enabled j) (jobs_of s)), s))"

definition new_job ::
    "cron_env \<Rightarrow> int \<Rightarrow> string \<Rightarrow> string \<Rightarrow> cron_schedule \<Rightarrow> cron_payload \<Rightarrow> bool \<Rightarrow> cron_job" where
  "new_job env now job_id name schedule payload delete_after_run =
     \<lparr>cj_id = job_id, cj_name = name, cj_enabled = True, cj_schedule = schedule, cj_payload = payload,
      cj_state = job_state_default\<lparr>js_next_run_at_ms := compute_next_run env schedule now\<rparr>,
      cj_created_at_ms = now, cj_updated_at_ms = now, cj_delete_after_run = delete_after_run\<rparr>"

definition add_job ::
    "cron_env \<Rightarrow> cron_codec \<Rightarrow> cron_io \<Rightarrow> int \<Rightarrow> string \<Rightarrow> string \<Rightarrow> cron_schedule \<Rightarrow> string \<Rightarrow> bool \<Rightarrow>
     string option \<Rightarrow> string option \<Rightarrow> bool \<Rightarrow> cron_service \<Rightarrow> (string + cron_job) \<times> cron_service" where
  "add_job env cd io now job_id name schedule message deliver channel recipient delete_after_run s =
     (case validate_schedule_for_add env schedule of
        Inl e \<Rightarrow> (Inl e, s)
      | Inr _ \<Rightarrow>
          (let job = new_job env now job_id name schedule
                 \<lparr>cp_kind = AgentTurn, cp_message = message, cp_deliver = deliver,
                  cp_channel = channel, cp_to = recipient\<rparr> delete_after_run
           in (Inr job, save_store_to_disk cd io (store_mut cd io (\<lambda>jobs. jobs @ [job]) s))))"

definition register_system_job ::
    "cron_env \<Rightarrow> cron_codec \<Rightarrow> cron_io \<Rightarrow> int \<Rightarrow> cron_job \<Rightarrow> cron_service \<Rightarrow> cron_job \<times> cron_service" where
  "register_system_job env cd io now job s =
     (let job = (reschedule env now job)\<lparr>cj_created_at_ms := now, cj_updated_at_ms := now\<rparr>
      in (job, save_store_to_disk cd io
                 (store_mut cd io (\<lambda>jobs. filter (\<lambda>j. cj_id j \<noteq> cj_id job) jobs @ [job]) s)))"

definition remove_job ::
    "cron_codec \<Rightarrow> cron_io \<Rightarrow> string \<Rightarrow> cron_service \<Rightarrow> remove_job_result \<times> cron_service" where
  "remove_job cd io job_id s =
     (let s = reload_store_if_needed cd io s
      in case find_job job_id (jobs_of s) of
           None \<Rightarrow> (JobNotFound, s)
         | Some job \<Rightarrow>
             if cp_kind (cj_payload job) = SystemEvent then (JobProtected, s)
             else (JobRemoved,
                   save_store_to_disk cd io (map_jobs (filter (\<lambda>j. cj_id j \<noteq> job_id)) s)))"

text \<open>A change of the first job with an id.\<close>

fun change_job :: "string \<Rightarrow> (cron_job \<Rightarrow> cron_job) \<Rightarrow> cron_job list \<Rightarrow> cron_job list" where
  "change_job job_id f [] = []"
| "change_job job_id f (job # jobs) =
     (if cj_id job = job_id then f job # jobs else job # change_job job_id f jobs)"

definition enable_job ::
    "cron_env \<Rightarrow> cron_codec \<Rightarrow> cron_io \<Rightarrow> int \<Rightarrow> int \<Rightarrow> string \<Rightarrow> bool \<Rightarrow> cron_service \<Rightarrow>
     cron_job option \<times> cron_service" where
  "enable_job env cd io now now' job_id enabled s =
     (let s = reload_store_if_needed cd io s;
          switch = (\<lambda>job. (if enabled then reschedule env now' else unschedule)
                       (job\<lparr>cj_enabled := enabled, cj_updated_at_ms := now\<rparr>))
      in case find_job job_id (jobs_of s) of
           None \<Rightarrow> (None, s)
         | Some job \<Rightarrow>
             (Some (switch job), save_store_to_disk cd io (map_jobs (change_job job_id switch) s)))"

definition get_job :: "cron_codec \<Rightarrow> cron_io \<Rightarrow> string \<Rightarrow> cron_service \<Rightarrow> cron_job option \<times> cron_service" where
  "get_job cd io job_id s =
     (let s = reload_store_if_needed cd io s in (find_job job_id (jobs_of s), s))"

definition get_next_wake_ms :: "cron_job list \<Rightarrow> int option" where
  "get_next_wake_ms jobs =
     (case List.map_filter (\<lambda>j. js_next_run_at_ms (cj_state j)) (filter cj_enabled jobs) of
        [] \<Rightarrow> None
      | t # ts \<Rightarrow> Some (foldl min t ts))"

record cron_service_status =
  st_enabled :: bool
  st_jobs :: nat
  st_next_wake_at_ms :: "int option"

definition cron_status :: "cron_codec \<Rightarrow> cron_io \<Rightarrow> cron_service \<Rightarrow> cron_service_status \<times> cron_service" where
  "cron_status cd io s =
     (let s = reload_store_if_needed cd io s
      in (\<lparr>st_enabled = sv_running s, st_jobs = length (jobs_of s),
           st_next_wake_at_ms = get_next_wake_ms (jobs_of s)\<rparr>, s))"

section \<open>Running a job\<close>

definition is_due :: "int \<Rightarrow> cron_job \<Rightarrow> bool" where
  "is_due now job \<longleftrightarrow>
     cj_enabled job \<and> (case js_next_run_at_ms (cj_state job) of Some t \<Rightarrow> now \<ge> t | None \<Rightarrow> False)"

definition job_outcome :: "(string + unit) \<Rightarrow> cron_run_status \<times> string option" where
  "job_outcome result = (case result of Inr _ \<Rightarrow> (RunOk, None) | Inl e \<Rightarrow> (RunError, Some e))"

definition with_run :: "int \<Rightarrow> int \<Rightarrow> string + unit \<Rightarrow> cron_job \<Rightarrow> cron_job" where
  "with_run start_ms end_ms result job =
     (case job_outcome result of (status, error) \<Rightarrow>
        let history = js_run_history (cj_state job) @
              [\<lparr>cr_run_at_ms = start_ms, cr_status = status, cr_duration_ms = wrap_i64 (end_ms - start_ms),
                cr_run_error = error\<rparr>]
        in job\<lparr>cj_updated_at_ms := end_ms,
               cj_state := \<lparr>js_next_run_at_ms = js_next_run_at_ms (cj_state job),
                 js_last_run_at_ms = Some start_ms, js_last_status = Some status, js_last_error = error,
                 js_run_history = drop (length history - MAX_RUN_HISTORY) history\<rparr>\<rparr>)"

text \<open>What becomes of a job after a run: nothing, if it was to be deleted.\<close>

definition after_run :: "cron_env \<Rightarrow> int \<Rightarrow> cron_job \<Rightarrow> cron_job list" where
  "after_run env now job =
     (if sc_kind (cj_schedule job) = KindAt
      then if cj_delete_after_run job then [] else [unschedule (job\<lparr>cj_enabled := False\<rparr>)]
      else [reschedule env now job])"

fun replace_job :: "string \<Rightarrow> (cron_job \<Rightarrow> cron_job list) \<Rightarrow> cron_job list \<Rightarrow> cron_job list" where
  "replace_job job_id f [] = []"
| "replace_job job_id f (job # jobs) =
     (if cj_id job = job_id then f job @ jobs else job # replace_job job_id f jobs)"

text \<open>The end of \<open>execute_job\<close>: the callback has returned.\<close>

definition finish_job ::
    "cron_env \<Rightarrow> cron_codec \<Rightarrow> cron_io \<Rightarrow> string \<Rightarrow> int \<Rightarrow> string + unit \<Rightarrow> int \<Rightarrow> int \<Rightarrow> cron_service \<Rightarrow> cron_service" where
  "finish_job env cd io job_id start_ms result end_ms now s =
     store_mut cd io
       (replace_job job_id (\<lambda>job. after_run env now (with_run start_ms end_ms result job))) s"

text \<open>
  \<open>execute_job\<close> for a callback that does not touch the service; without a callback the run is a
  success.  \<open>clock\<close> are the three readings of the clock.
\<close>

type_synonym 'w on_job = "(cron_job \<Rightarrow> 'w \<Rightarrow> (string + unit) \<times> 'w) option"

definition call_back :: "'w on_job \<Rightarrow> cron_job \<Rightarrow> 'w \<Rightarrow> (string + unit) \<times> 'w" where
  "call_back on_job job w = (case on_job of Some callback \<Rightarrow> callback job w | None \<Rightarrow> (Inr (), w))"

definition execute_job ::
    "cron_env \<Rightarrow> cron_codec \<Rightarrow> cron_io \<Rightarrow> 'w on_job \<Rightarrow> int \<times> int \<times> int \<Rightarrow> string \<Rightarrow>
     'w \<times> cron_service \<Rightarrow> 'w \<times> cron_service" where
  "execute_job env cd io on_job clock job_id ws =
     (case (clock, ws) of ((start_ms, end_ms, now), (w, s)) \<Rightarrow>
        (case find_job job_id (jobs_of s) of
           None \<Rightarrow> (w, s)
         | Some job \<Rightarrow>
             (case call_back on_job job w of
                (result, w) \<Rightarrow> (w, finish_job env cd io job_id start_ms result end_ms now s))))"

definition run_job ::
    "cron_env \<Rightarrow> cron_codec \<Rightarrow> cron_io \<Rightarrow> 'w on_job \<Rightarrow> int \<times> int \<times> int \<Rightarrow> string \<Rightarrow> bool \<Rightarrow>
     'w \<times> cron_service \<Rightarrow> bool \<times> 'w \<times> cron_service" where
  "run_job env cd io on_job clock job_id force ws =
     (case ws of (w, s) \<Rightarrow>
        let s = reload_store_if_needed cd io s
        in case find_job job_id (jobs_of s) of
             None \<Rightarrow> (False, w, s)
           | Some job \<Rightarrow>
               if force \<or> cj_enabled job
               then (case execute_job env cd io on_job clock job_id (w, s) of
                       (w, s) \<Rightarrow> (True, w, save_store_to_disk cd io s))
               else (False, w, s))"

text \<open>The jobs due when the timer fires, and a whole round without interruption.\<close>

definition due_ids :: "int \<Rightarrow> cron_service \<Rightarrow> string list" where
  "due_ids now s = map cj_id (filter (is_due now) (jobs_of s))"

definition on_timer ::
    "cron_env \<Rightarrow> cron_codec \<Rightarrow> cron_io \<Rightarrow> 'w on_job \<Rightarrow> int \<Rightarrow> (string \<Rightarrow> int \<times> int \<times> int) \<Rightarrow>
     'w \<times> cron_service \<Rightarrow> 'w \<times> cron_service" where
  "on_timer env cd io on_job now clock ws =
     (case ws of (w, s) \<Rightarrow>
        let s = reload_store_if_needed cd io s;
            (w, s) = foldl (\<lambda>ws job_id. execute_job env cd io on_job (clock job_id) job_id ws) (w, s) (due_ids now s)
        in (w, save_store_to_disk cd io s))"

section \<open>The timer task\<close>

datatype timer_task =
    NoTask
  | Sleeping int
  | Waking "string list"
  | Executing string int "string list"

text \<open>\<open>arm_timer_async\<close>: the task of the old handle is aborted, wherever it is.\<close>

definition arm_timer :: "int \<Rightarrow> cron_service \<Rightarrow> timer_task" where
  "arm_timer now s =
     (case Option.bind (sv_store s) (\<lambda>store. get_next_wake_ms (ct_jobs store)) of
        None \<Rightarrow> NoTask
      | Some wake \<Rightarrow> if sv_running s then Sleeping (now + max (wrap_i64 (wake - now)) 0) else NoTask)"

text \<open>Service, task, spawned arm requests, and the starts and ends of callbacks so far.\<close>

datatype cron_event = CbStarted string | CbFinished string

record cron_world =
  cw_service :: cron_service
  cw_task :: timer_task
  cw_arms :: nat
  cw_events :: "cron_event list"

definition request_arm :: "cron_world \<Rightarrow> cron_world" where
  "request_arm cw = cw\<lparr>cw_arms := cw_arms cw + 1\<rparr>"

definition cron_stop :: "cron_world \<Rightarrow> cron_world" where
  "cron_stop cw = cw\<lparr>cw_service := (cw_service cw)\<lparr>sv_running := False\<rparr>, cw_task := NoTask\<rparr>"

text \<open>
  What other tasks may do to the service, with system calls that end as \<open>ok\<close> allows.  A new id is
  fresh; system jobs are registered as \<open>cli/commands.rs\<close> does, recurring and with an empty state.
\<close>

inductive cron_call ::
    "cron_env \<Rightarrow> cron_codec \<Rightarrow> (cron_io \<Rightarrow> bool) \<Rightarrow> cron_service \<Rightarrow> cron_service \<Rightarrow> bool"
  for env cd ok where
  call_add:
    "add_job env cd io now job_id name schedule message deliver channel recipient delete_after_run s = (Inr job, s') \<Longrightarrow>
     find_job job_id (jobs_of (reload_store_if_needed cd io s)) = None \<Longrightarrow> ok io \<Longrightarrow>
     cron_call env cd ok s s'"
| call_remove: "remove_job cd io job_id s = (result, s') \<Longrightarrow> ok io \<Longrightarrow> cron_call env cd ok s s'"
| call_enable: "enable_job env cd io now now' job_id enabled s = (result, s') \<Longrightarrow> ok io \<Longrightarrow> cron_call env cd ok s s'"
| call_register: "register_system_job env cd io now system_job s = (job, s') \<Longrightarrow> ok io \<Longrightarrow>
     cp_kind (cj_payload system_job) = SystemEvent \<Longrightarrow> sc_kind (cj_schedule system_job) \<noteq> KindAt \<Longrightarrow>
     js_run_history (cj_state system_job) = [] \<Longrightarrow> cron_call env cd ok s s'"
| call_run: "run_job env cd io (on_job :: unit on_job) clock job_id force (w, s) = (result, w', s') \<Longrightarrow> ok io \<Longrightarrow> cron_call env cd ok s s'"
| call_reload: "s' = reload_store_if_needed cd io s \<Longrightarrow> ok io \<Longrightarrow> cron_call env cd ok s s'"

text \<open>The steps of the timer task and of its surroundings.\<close>

inductive cron_step ::
    "cron_env \<Rightarrow> cron_codec \<Rightarrow> (cron_io \<Rightarrow> bool) \<Rightarrow> cron_world \<Rightarrow> cron_world \<Rightarrow> bool"
  for env cd ok where
  step_call: "cron_call env cd ok (cw_service cw) s \<Longrightarrow>
     cron_step env cd ok cw (request_arm (cw\<lparr>cw_service := s\<rparr>))"
| step_stop: "cron_step env cd ok cw (cron_stop cw)"
| step_arm: "cw_arms cw = Suc n \<Longrightarrow>
     cron_step env cd ok cw (cw\<lparr>cw_arms := n, cw_task := arm_timer now (cw_service cw)\<rparr>)"
| step_wake: "cw_task cw = Sleeping wake \<Longrightarrow> wake \<le> now \<Longrightarrow> ok io \<Longrightarrow>
     s = reload_store_if_needed cd io (cw_service cw) \<Longrightarrow>
     cron_step env cd ok cw (cw\<lparr>cw_service := s, cw_task := Waking (due_ids now s)\<rparr>)"
| step_skip: "cw_task cw = Waking (job_id # ids) \<Longrightarrow> find_job job_id (jobs_of (cw_service cw)) = None \<Longrightarrow>
     cron_step env cd ok cw (cw\<lparr>cw_task := Waking ids\<rparr>)"
| step_begin: "cw_task cw = Waking (job_id # ids) \<Longrightarrow> find_job job_id (jobs_of (cw_service cw)) = Some job \<Longrightarrow>
     cron_step env cd ok cw (cw\<lparr>cw_task := Executing job_id now ids, cw_events := cw_events cw @ [CbStarted job_id]\<rparr>)"
| step_finish: "cw_task cw = Executing job_id start_ms ids \<Longrightarrow> ok io \<Longrightarrow>
     cron_step env cd ok cw (cw\<lparr>cw_service := finish_job env cd io job_id start_ms result end_ms now (cw_service cw),
       cw_task := Waking ids, cw_events := cw_events cw @ [CbFinished job_id]\<rparr>)"
| step_done: "cw_task cw = Waking [] \<Longrightarrow> ok io \<Longrightarrow>
     cron_step env cd ok cw (request_arm (cw\<lparr>cw_service := save_store_to_disk cd io (cw_service cw), cw_task := NoTask\<rparr>))"

end
