(* ===== verification/Cron_Laws.thy ===== *)
theory Cron_Laws
  imports Cron_Service
begin

text \<open>
  What the scheduler promises: whatever fails, ids stay distinct, histories short and one-shots on
  time; with a working disk, a round of the timer runs exactly the due jobs, system jobs cannot be
  removed and a restart finds the jobs there were.  And where it falls short: a job can be cut off by
  the re-arming of the timer and run again, and a torn write loses every job.
\<close>

section \<open>Lists of jobs\<close>

lemma change_job_ids: "(\<And>job. cj_id (f job) = cj_id job) \<Longrightarrow> map cj_id (change_job i f jobs) = map cj_id jobs"
  by (induction jobs) auto

lemma change_job_set: "job \<in> set (change_job i f jobs) \<Longrightarrow> job \<in> set jobs \<or> (\<exists>j \<in> set jobs. cj_id j = i \<and> job = f j)"
  by (induction jobs) (auto split: if_splits)

lemma change_job_keeps: "job \<in> set jobs \<Longrightarrow> job \<in> set (change_job i f jobs) \<or> cj_id job = i \<and> f job \<in> set (change_job i f jobs)"
  by (induction jobs) (auto split: if_splits)

lemma replace_job_set: "job \<in> set (replace_job i f jobs) \<Longrightarrow> job \<in> set jobs \<or> (\<exists>j \<in> set jobs. cj_id j = i \<and> job \<in> set (f j))"
  by (induction jobs) (auto split: if_splits)

lemma replace_job_ids:
  assumes "\<And>job. cj_id ` set (f job) \<subseteq> {cj_id job}"
  shows "cj_id ` set (replace_job i f jobs) \<subseteq> cj_id ` set jobs"
proof
  fix k assume "k \<in> cj_id ` set (replace_job i f jobs)"
  then obtain job where "job \<in> set (replace_job i f jobs)" "k = cj_id job" by blast
  then show "k \<in> cj_id ` set jobs"
    using replace_job_set [of job i f jobs] assms by (metis image_eqI insertE singletonD subsetD)
qed

lemma replace_job_distinct:
  assumes f: "\<And>job. cj_id ` set (f job) \<subseteq> {cj_id job} \<and> length (f job) \<le> 1"
  shows "distinct (map cj_id jobs) \<Longrightarrow> distinct (map cj_id (replace_job i f jobs))"
proof (induction jobs)
  case (Cons job jobs)
  have "f job = [] \<or> (\<exists>job'. f job = [job'] \<and> cj_id job' = cj_id job)"
    using f [of job] by (cases "f job") auto
  moreover have "cj_id ` set (replace_job i f jobs) \<subseteq> cj_id ` set jobs"
    by (rule replace_job_ids) (use f in blast)
  ultimately show ?case using Cons by auto
qed simp

lemma replace_job_keeps: "job \<in> set jobs \<Longrightarrow> job \<in> set (replace_job i f jobs) \<or> cj_id job = i \<and> set (f job) \<subseteq> set (replace_job i f jobs)"
  by (induction jobs) (auto split: if_splits)

lemma find_job_Some: "find_job i jobs = Some job \<Longrightarrow> job \<in> set jobs \<and> cj_id job = i"
  by (auto simp: find_job_def find_Some_iff)

lemma find_job_None: "find_job i jobs = None \<longleftrightarrow> i \<notin> cj_id ` set jobs"
  by (auto simp: find_job_def find_None_iff)

lemma find_job_append: "i \<notin> cj_id ` set xs \<Longrightarrow> find_job i (xs @ ys) = find_job i ys"
  by (induction xs) (auto simp: find_job_def)

lemma replace_job_append: "i \<notin> cj_id ` set xs \<Longrightarrow> replace_job i f (xs @ ys) = xs @ replace_job i f ys"
  by (induction xs) auto

lemma job_simps [simp]:
  "cj_id (reschedule env now job) = cj_id job" "cj_id (unschedule job) = cj_id job"
  "cj_id (with_run a b r job) = cj_id job"
  "cj_payload (reschedule env now job) = cj_payload job" "cj_payload (unschedule job) = cj_payload job"
  "cj_payload (with_run a b r job) = cj_payload job"
  "cj_schedule (reschedule env now job) = cj_schedule job" "cj_schedule (unschedule job) = cj_schedule job"
  "cj_schedule (with_run a b r job) = cj_schedule job"
  "cj_enabled (reschedule env now job) = cj_enabled job" "cj_enabled (with_run a b r job) = cj_enabled job"
  by (simp_all add: reschedule_def unschedule_def with_run_def Let_def split: prod.split)

lemma after_run_ids: "cj_id ` set (after_run env now job) \<subseteq> {cj_id job} \<and> length (after_run env now job) \<le> 1"
  by (simp add: after_run_def)

lemma jobs_of_map [simp]: "jobs_of (map_jobs f s) = f (jobs_of s)"
  by (simp add: jobs_of_def map_jobs_def store_ref_def)

section \<open>Sound stores\<close>

text \<open>A history is short, and a one-shot is never scheduled for another time than its own.\<close>

definition sound_job :: "cron_job \<Rightarrow> bool" where
  "sound_job job \<longleftrightarrow>
     length (js_run_history (cj_state job)) \<le> MAX_RUN_HISTORY \<and>
     (sc_kind (cj_schedule job) = KindAt \<longrightarrow>
        js_next_run_at_ms (cj_state job) \<in> {None, sc_at_ms (cj_schedule job)})"

definition sound_jobs :: "cron_job list \<Rightarrow> bool" where
  "sound_jobs jobs \<longleftrightarrow> distinct (map cj_id jobs) \<and> (\<forall>job \<in> set jobs. sound_job job)"

definition sound_service :: "cron_codec \<Rightarrow> cron_service \<Rightarrow> bool" where
  "sound_service cd s \<longleftrightarrow>
     sound_jobs (jobs_of s) \<and>
     (\<forall>contents mtime store. sv_file s = Some (contents, mtime) \<longrightarrow> cc_parse cd contents = Some store \<longrightarrow>
        sound_jobs (ct_jobs store))"

text \<open>serde_json: a text reads back as what was printed, and a proper part of it does not read at all.\<close>

definition codec_reads_back :: "cron_codec \<Rightarrow> bool" where
  "codec_reads_back cd \<longleftrightarrow>
     (\<forall>store json. cc_print cd store = Some json \<longrightarrow>
        cc_parse cd json = Some store \<and> (\<forall>n < length json. cc_parse cd (take n json) = None))"

lemma codec_part: "codec_reads_back cd \<Longrightarrow> cc_print cd store = Some json \<Longrightarrow> cc_parse cd (take n json) = Some store' \<Longrightarrow> store' = store"
  by (cases "n < length json") (auto simp: codec_reads_back_def)

lemma codec_whole: "codec_reads_back cd \<Longrightarrow> cc_print cd store = Some json \<Longrightarrow> cc_parse cd json = Some store' \<Longrightarrow> store' = store"
  by (auto simp: codec_reads_back_def)

lemma compute_next_at:
  "sc_kind schedule = KindAt \<Longrightarrow> compute_next_run env schedule now \<in> {None, sc_at_ms schedule}"
  by (auto simp: compute_next_run_def split: option.splits)

lemma sound_reschedule [simp]: "sound_job job \<Longrightarrow> sound_job (reschedule env now job)"
  using compute_next_at [of "cj_schedule job" env now] by (auto simp: sound_job_def reschedule_def)

lemma sound_unschedule [simp]: "sound_job job \<Longrightarrow> sound_job (unschedule job)"
  by (simp add: sound_job_def unschedule_def)

lemma sound_with_run [simp]: "sound_job job \<Longrightarrow> sound_job (with_run a b r job)"
  by (auto simp: sound_job_def with_run_def Let_def split: prod.split)

lemma sound_flags [simp]:
  "sound_job (job\<lparr>cj_enabled := e\<rparr>) = sound_job job" "sound_job (job\<lparr>cj_updated_at_ms := t\<rparr>) = sound_job job"
  "sound_job (job\<lparr>cj_created_at_ms := t\<rparr>) = sound_job job"
  by (simp_all add: sound_job_def)

lemma sound_after_run: "sound_job job \<Longrightarrow> job' \<in> set (after_run env now job) \<Longrightarrow> sound_job job'"
  by (auto simp: after_run_def split: if_splits)

lemma sound_change:
  assumes "sound_jobs jobs" "\<And>job. cj_id (f job) = cj_id job" "\<And>job. sound_job job \<Longrightarrow> sound_job (f job)"
  shows "sound_jobs (change_job i f jobs)"
  using assms by (fastforce simp: sound_jobs_def change_job_ids dest: change_job_set)

lemma sound_replace:
  assumes "sound_jobs jobs" "\<And>job. cj_id ` set (f job) \<subseteq> {cj_id job} \<and> length (f job) \<le> 1"
    "\<And>job job'. sound_job job \<Longrightarrow> job' \<in> set (f job) \<Longrightarrow> sound_job job'"
  shows "sound_jobs (replace_job i f jobs)"
  using assms replace_job_distinct [of f jobs i] replace_job_set [of _ i f jobs] unfolding sound_jobs_def by metis

lemma sound_filter: "sound_jobs jobs \<Longrightarrow> sound_jobs (filter P jobs)"
  by (simp add: sound_jobs_def distinct_map_filter)

lemma sound_snoc: "sound_jobs jobs \<Longrightarrow> sound_job job \<Longrightarrow> cj_id job \<notin> cj_id ` set jobs \<Longrightarrow> sound_jobs (jobs @ [job])"
  by (auto simp: sound_jobs_def)

lemma sound_Nil [simp]: "sound_jobs []" "ct_jobs cron_store_default = []"
  by (simp_all add: sound_jobs_def cron_store_default_def)

lemma jobs_of_simps [simp]:
  "jobs_of (s\<lparr>sv_store := Some store\<rparr>) = ct_jobs store" "jobs_of (s\<lparr>sv_last_mtime := m\<rparr>) = jobs_of s"
  "jobs_of (s\<lparr>sv_file := f\<rparr>) = jobs_of s" "jobs_of (s\<lparr>sv_running := r\<rparr>) = jobs_of s"
  by (simp_all add: jobs_of_def store_ref_def)

lemma sound_reload: "sound_service cd s \<Longrightarrow> sound_service cd (reload_store_if_needed cd io s)"
  by (auto simp: sound_service_def reload_store_if_needed_def Let_def split: option.splits if_splits)

lemma sound_map_jobs: "sound_service cd s \<Longrightarrow> sound_jobs (f (jobs_of s)) \<Longrightarrow> sound_service cd (map_jobs f s)"
  unfolding sound_service_def by (simp, simp add: map_jobs_def)

lemma sound_save: "codec_reads_back cd \<Longrightarrow> sound_service cd s \<Longrightarrow> sound_service cd (save_store_to_disk cd io s)"
  by (auto simp: sound_service_def save_store_to_disk_def jobs_of_def store_ref_def
      dest: codec_part codec_whole split: option.splits write_end.splits)

lemma sound_serviceD: "sound_service cd s \<Longrightarrow> sound_jobs (jobs_of s)"
  by (simp add: sound_service_def)

lemma sound_store_mut:
  "sound_service cd s \<Longrightarrow> (\<And>jobs. sound_jobs jobs \<Longrightarrow> sound_jobs (f jobs)) \<Longrightarrow> sound_service cd (store_mut cd io f s)"
  unfolding store_mut_def by (intro sound_map_jobs sound_reload) (auto intro: sound_serviceD sound_reload)

lemma sound_new_job [simp]: "sound_job (new_job env now i name schedule payload del)" "cj_id (new_job env now i name schedule payload del) = i"
  using compute_next_at [of schedule env now] by (auto simp: sound_job_def new_job_def job_state_default_def)

lemma sound_finish: "sound_service cd s \<Longrightarrow> sound_service cd (finish_job env cd io i start_ms r end_ms now s)"
  unfolding finish_job_def using after_run_ids
  by (intro sound_store_mut sound_replace) (fastforce intro: sound_after_run [OF sound_with_run])+

lemma sound_execute: "sound_service cd s \<Longrightarrow> sound_service cd (snd (execute_job env cd io on_job clock i (w, s)))"
  by (auto simp: execute_job_def sound_finish split: option.split prod.split)

lemma run_job_cases:
  "run_job env cd io on_job clock i force (w, s) = (result, w', s') \<Longrightarrow>
   s' = reload_store_if_needed cd io s \<or>
   s' = save_store_to_disk cd io (snd (execute_job env cd io on_job clock i (w, reload_store_if_needed cd io s)))"
  by (auto simp: run_job_def Let_def split: option.splits if_splits prod.splits)

lemma sound_call:
  assumes "codec_reads_back cd" "cron_call env cd ok s s'" "sound_service cd s"
  shows "sound_service cd s'"
  using assms(2)
proof cases
  case (call_add io now job_id name schedule message deliver channel recipient delete_after_run job)
  have "sound_jobs (jobs_of (reload_store_if_needed cd io s))"
    using assms(3) by (rule sound_serviceD [OF sound_reload])
  with call_add have "sound_jobs (jobs_of (reload_store_if_needed cd io s) @ [job])"
    by (intro sound_snoc) (auto simp: add_job_def Let_def find_job_None split: sum.splits)
  then have "sound_service cd (map_jobs (\<lambda>jobs. jobs @ [job]) (reload_store_if_needed cd io s))"
    using assms(3) by (intro sound_map_jobs sound_reload)
  then show ?thesis
    using call_add(1) by (auto simp: add_job_def Let_def store_mut_def split: sum.splits
        intro!: sound_save [OF assms(1)])
next
  case (call_remove io job_id result)
  then show ?thesis
    using sound_reload [OF assms(3), of io] sound_filter [OF sound_serviceD [OF sound_reload [OF assms(3)]]]
    by (auto simp: remove_job_def Let_def split: option.splits if_splits
        intro!: sound_save [OF assms(1)] sound_map_jobs)
next
  case (call_enable io now now' job_id enabled result)
  let ?s = "reload_store_if_needed cd io s"
  have "sound_service cd ?s" using assms(3) by (rule sound_reload)
  moreover have "sound_jobs (change_job job_id (\<lambda>job. (if enabled then reschedule env now' else unschedule)
      (job\<lparr>cj_enabled := enabled, cj_updated_at_ms := now\<rparr>)) (jobs_of ?s))"
    using \<open>sound_service cd ?s\<close> by (intro sound_change) (auto simp: sound_service_def)
  ultimately show ?thesis
    using call_enable(1) by (auto simp: enable_job_def Let_def split: option.splits
        intro!: sound_save [OF assms(1)] sound_map_jobs)
next
  case (call_register io now system_job job)
  then have "sound_job job"
    using compute_next_at [of "cj_schedule system_job" env now]
    by (auto simp: register_system_job_def Let_def sound_job_def reschedule_def)
  then show ?thesis
    using call_register(1) assms(3)
    by (auto simp: register_system_job_def Let_def intro!: sound_save [OF assms(1)] sound_store_mut sound_snoc sound_filter)
next
  case (call_run io on_job clock job_id force w result w')
  from run_job_cases [OF this(1)] show ?thesis
    using sound_reload [OF assms(3)] sound_execute sound_save [OF assms(1)] by metis
next
  case (call_reload io)
  then show ?thesis using sound_reload [OF assms(3)] by simp
qed

lemma sound_running [simp]: "sound_service cd (s\<lparr>sv_running := r\<rparr>) = sound_service cd s"
  by (simp add: sound_service_def)

lemma sound_step:
  "cron_step env cd ok cw cw' \<Longrightarrow> codec_reads_back cd \<Longrightarrow> sound_service cd (cw_service cw) \<Longrightarrow> sound_service cd (cw_service cw')"
  by (induction rule: cron_step.induct)
    (auto simp: request_arm_def cron_stop_def intro: sound_call sound_finish sound_save sound_reload)

lemma sound_steps:
  "(cron_step env cd ok)\<^sup>*\<^sup>* cw cw' \<Longrightarrow> codec_reads_back cd \<Longrightarrow> sound_service cd (cw_service cw) \<Longrightarrow> sound_service cd (cw_service cw')"
  by (induction rule: rtranclp_induct) (auto dest: sound_step)

section \<open>A disk that works\<close>

definition works :: "cron_io \<Rightarrow> bool" where
  "works io \<longleftrightarrow> ci_mkdir io \<and> ci_write io = Written \<and> ci_meta_written io"

text \<open>The store is loaded, and the file is the one last read or written.\<close>

definition in_sync :: "cron_service \<Rightarrow> bool" where
  "in_sync s \<longleftrightarrow> sv_store s \<noteq> None \<and>
     (\<exists>contents mtime. sv_file s = Some (contents, mtime) \<and> sv_last_mtime s = Some mtime)"

definition on_disk :: "cron_codec \<Rightarrow> cron_service \<Rightarrow> bool" where
  "on_disk cd s \<longleftrightarrow> in_sync s \<and> map_option fst (sv_file s) = cc_print cd (store_ref s)"

definition prints :: "cron_codec \<Rightarrow> bool" where
  "prints cd \<longleftrightarrow> (\<forall>store. cc_print cd store \<noteq> None)"

lemma in_sync_reload [simp]: "in_sync s \<Longrightarrow> reload_store_if_needed cd io s = s"
  by (auto simp: in_sync_def reload_store_if_needed_def Let_def)

lemma in_sync_map_jobs: "in_sync s \<Longrightarrow> in_sync (map_jobs f s)"
  by (auto simp: in_sync_def map_jobs_def)

lemma save_works:
  assumes "works io" "prints cd" "sv_store s \<noteq> None"
  shows "on_disk cd (save_store_to_disk cd io s)" "store_ref (save_store_to_disk cd io s) = store_ref s"
proof -
  obtain store json where "sv_store s = Some store" "cc_print cd store = Some json"
    using assms(2,3) unfolding prints_def by blast
  then show "on_disk cd (save_store_to_disk cd io s)" "store_ref (save_store_to_disk cd io s) = store_ref s"
    using assms(1) by (simp_all add: works_def on_disk_def in_sync_def save_store_to_disk_def store_ref_def)
qed

lemma jobs_save: "jobs_of (save_store_to_disk cd io s) = jobs_of s"
  by (simp add: save_store_to_disk_def jobs_of_def store_ref_def split: option.split write_end.split)

lemma map_loaded [simp]: "sv_store (map_jobs f s) \<noteq> None"
  by (simp add: map_jobs_def)

lemma saved_change [simp]: "works io \<Longrightarrow> prints cd \<Longrightarrow> on_disk cd (save_store_to_disk cd io (map_jobs f s))"
  by (intro save_works) simp_all

lemma on_disk_in_sync: "on_disk cd s \<Longrightarrow> in_sync s"
  by (simp add: on_disk_def)

lemma in_sync_finish: "in_sync s \<Longrightarrow> in_sync (finish_job env cd io i a r b c s)"
  by (simp add: finish_job_def store_mut_def in_sync_map_jobs)

lemma in_sync_execute: "in_sync s \<Longrightarrow> in_sync (snd (execute_job env cd io on_job clock i (w, s)))"
  by (auto simp: execute_job_def in_sync_finish split: option.split prod.split)

lemma in_sync_loaded: "in_sync s \<Longrightarrow> sv_store s \<noteq> None"
  by (simp add: in_sync_def)

lemma call_saves:
  assumes "cron_call env cd ok s s'" "\<forall>io. ok io \<longrightarrow> works io" "prints cd" "in_sync s"
  shows "s' = s \<or> on_disk cd s'"
  using assms(1)
proof cases
  case (call_run io on_job clock job_id force w result w')
  have "in_sync (snd (execute_job env cd io on_job clock job_id (w, s)))"
    using assms(4) by (rule in_sync_execute)
  with run_job_cases [OF call_run(1)] show ?thesis
    using call_run(2) assms(2-4) save_works(1) in_sync_loaded in_sync_reload by metis
qed (use assms(2-4) in \<open>auto simp: add_job_def remove_job_def enable_job_def register_system_job_def store_mut_def Let_def
    split: sum.splits option.splits if_splits\<close>)

lemma call_on_disk:
  "cron_call env cd ok s s' \<Longrightarrow> \<forall>io. ok io \<longrightarrow> works io \<Longrightarrow> prints cd \<Longrightarrow> on_disk cd s \<Longrightarrow> on_disk cd s'"
  using call_saves on_disk_in_sync by blast

lemma call_in_sync:
  "cron_call env cd ok s s' \<Longrightarrow> \<forall>io. ok io \<longrightarrow> works io \<Longrightarrow> prints cd \<Longrightarrow> in_sync s \<Longrightarrow> in_sync s'"
  using call_saves on_disk_in_sync by blast

lemma calls_on_disk:
  "(cron_call env cd ok)\<^sup>*\<^sup>* s s' \<Longrightarrow> \<forall>io. ok io \<longrightarrow> works io \<Longrightarrow> prints cd \<Longrightarrow> on_disk cd s \<Longrightarrow> on_disk cd s'"
  by (induction rule: rtranclp_induct) (auto dest: call_on_disk)

lemma start_on_disk: "works io \<Longrightarrow> prints cd \<Longrightarrow> on_disk cd (cron_start env cd io now s)"
  by (simp add: cron_start_def recompute_next_runs_def store_mut_def)

lemma restart_reads:
  assumes "on_disk cd s" "codec_reads_back cd" "ci_read io"
  shows "store_ref (reload_store_if_needed cd io (cron_service_new (sv_file s))) = store_ref s"
proof -
  obtain contents mtime where f: "sv_file s = Some (contents, mtime)" "cc_print cd (store_ref s) = Some contents"
    using assms(1) by (auto simp: on_disk_def in_sync_def)
  then have "cc_parse cd contents = Some (store_ref s)"
    using assms(2) by (simp add: codec_reads_back_def)
  then show ?thesis
    using f(1) assms(3) by (simp add: reload_store_if_needed_def cron_service_new_def) (simp add: store_ref_def)
qed

section \<open>System jobs\<close>

text \<open>A recurring job of the system with that id.\<close>

definition has_system_job :: "string \<Rightarrow> cron_job list \<Rightarrow> bool" where
  "has_system_job i jobs \<longleftrightarrow>
     (\<exists>job \<in> set jobs. cj_id job = i \<and> cp_kind (cj_payload job) = SystemEvent \<and> sc_kind (cj_schedule job) \<noteq> KindAt)"

lemma system_change:
  "(\<And>job. cj_id (f job) = cj_id job \<and> cj_payload (f job) = cj_payload job \<and> cj_schedule (f job) = cj_schedule job) \<Longrightarrow>
   has_system_job i jobs \<Longrightarrow> has_system_job i (change_job k f jobs)"
  unfolding has_system_job_def by (metis change_job_keeps)

lemma system_finish:
  "has_system_job i jobs \<Longrightarrow> has_system_job i (replace_job k (\<lambda>job. after_run env now (with_run a b r job)) jobs)"
proof -
  assume "has_system_job i jobs"
  then obtain job where job: "job \<in> set jobs" "cj_id job = i" "cp_kind (cj_payload job) = SystemEvent"
    "sc_kind (cj_schedule job) \<noteq> KindAt" by (auto simp: has_system_job_def)
  let ?f = "\<lambda>job. after_run env now (with_run a b r job)"
  have "?f job = [reschedule env now (with_run a b r job)]" using job(4) by (simp add: after_run_def)
  then show ?thesis
    using replace_job_keeps [OF job(1), of k ?f] job unfolding has_system_job_def
    by (auto intro: bexI [of _ job] bexI [of _ "reschedule env now (with_run a b r job)"])
qed

lemma system_remove:
  assumes "sound_jobs jobs" "find_job k jobs = Some job" "cp_kind (cj_payload job) \<noteq> SystemEvent" "has_system_job i jobs"
  shows "has_system_job i (filter (\<lambda>j. cj_id j \<noteq> k) jobs)"
proof -
  obtain sys where sys: "sys \<in> set jobs" "cj_id sys = i" "cp_kind (cj_payload sys) = SystemEvent"
    "sc_kind (cj_schedule sys) \<noteq> KindAt" using assms(4) by (auto simp: has_system_job_def)
  have "job \<in> set jobs" "cj_id job = k" using find_job_Some [OF assms(2)] by auto
  then have "k \<noteq> i"
    using assms(1,3) sys by (auto simp: sound_jobs_def distinct_map dest: inj_onD)
  then show ?thesis using sys by (auto simp: has_system_job_def)
qed

lemma system_register:
  "has_system_job i jobs \<Longrightarrow> cp_kind (cj_payload job) = SystemEvent \<Longrightarrow> sc_kind (cj_schedule job) \<noteq> KindAt \<Longrightarrow>
   has_system_job i (filter (\<lambda>j. cj_id j \<noteq> cj_id job) jobs @ [job])"
  by (auto simp: has_system_job_def)

lemma system_execute:
  "in_sync s \<Longrightarrow> has_system_job i (jobs_of s) \<Longrightarrow> has_system_job i (jobs_of (snd (execute_job env cd io on_job clock k (w, s))))"
  by (auto simp: execute_job_def finish_job_def store_mut_def system_finish split: option.split prod.split)

lemma call_keeps_system:
  assumes "cron_call env cd ok s s'" "in_sync s" "sound_jobs (jobs_of s)" "has_system_job i (jobs_of s)"
  shows "has_system_job i (jobs_of s')"
  using assms(1)
proof cases
  case (call_add io now job_id name schedule message deliver channel recipient delete_after_run job)
  then show ?thesis
    using assms(2,4) by (auto simp: add_job_def Let_def store_mut_def jobs_save has_system_job_def split: sum.splits)
next
  case (call_remove io job_id result)
  then show ?thesis
    using assms(2-4) by (auto simp: remove_job_def Let_def jobs_save system_remove split: option.splits if_splits)
next
  case (call_enable io now now' job_id enabled result)
  have "has_system_job i (change_job job_id (\<lambda>job. (if enabled then reschedule env now' else unschedule)
      (job\<lparr>cj_enabled := enabled, cj_updated_at_ms := now\<rparr>)) (jobs_of s))"
    by (rule system_change) (use assms(4) in auto)
  then show ?thesis
    using call_enable assms(2,4) by (auto simp: enable_job_def Let_def jobs_save split: option.splits)
next
  case (call_register io now system_job job)
  then show ?thesis
    using assms(2) system_register [OF assms(4), of job]
    by (auto simp: register_system_job_def Let_def store_mut_def jobs_save)
next
  case (call_run io on_job clock job_id force w result w')
  from run_job_cases [OF this(1)] show ?thesis
    using assms(2,4) system_execute [OF assms(2,4)] by (elim disjE) (simp_all add: jobs_save)
qed (use assms(2,4) in simp)

definition keeps_system :: "cron_codec \<Rightarrow> string \<Rightarrow> cron_service \<Rightarrow> bool" where
  "keeps_system cd i s \<longleftrightarrow> in_sync s \<and> sound_service cd s \<and> has_system_job i (jobs_of s)"

lemma keeps_in_sync: "keeps_system cd i s \<Longrightarrow> in_sync s"
  by (simp add: keeps_system_def)

lemma keeps_save: "works io \<Longrightarrow> prints cd \<Longrightarrow> codec_reads_back cd \<Longrightarrow> keeps_system cd i s \<Longrightarrow> keeps_system cd i (save_store_to_disk cd io s)"
  unfolding keeps_system_def using on_disk_in_sync save_works(1) in_sync_loaded sound_save jobs_save by metis

lemma jobs_finish:
  "in_sync s \<Longrightarrow> jobs_of (finish_job env cd io k a r b c s) =
     replace_job k (\<lambda>job. after_run env c (with_run a b r job)) (jobs_of s)"
  by (simp add: finish_job_def store_mut_def)

lemma keeps_finish: "keeps_system cd i s \<Longrightarrow> keeps_system cd i (finish_job env cd io k a r b c s)"
  unfolding keeps_system_def using in_sync_finish sound_finish by (simp add: jobs_finish system_finish)

lemma keeps_call:
  "cron_call env cd ok s s' \<Longrightarrow> \<forall>io. ok io \<longrightarrow> works io \<Longrightarrow> prints cd \<Longrightarrow> codec_reads_back cd \<Longrightarrow>
   keeps_system cd i s \<Longrightarrow> keeps_system cd i s'"
  unfolding keeps_system_def using call_in_sync sound_call call_keeps_system sound_serviceD by blast

lemma keeps_running [simp]: "keeps_system cd i (s\<lparr>sv_running := r\<rparr>) = keeps_system cd i s"
  by (simp add: keeps_system_def in_sync_def)

lemma keeps_step:
  "cron_step env cd ok cw cw' \<Longrightarrow> \<forall>io. ok io \<longrightarrow> works io \<Longrightarrow> prints cd \<Longrightarrow> codec_reads_back cd \<Longrightarrow>
   keeps_system cd i (cw_service cw) \<Longrightarrow> keeps_system cd i (cw_service cw')"
  by (induction rule: cron_step.induct)
    (auto simp: request_arm_def cron_stop_def keeps_in_sync intro: keeps_call keeps_finish keeps_save)

lemma steps_keep_system:
  "(cron_step env cd ok)\<^sup>*\<^sup>* cw cw' \<Longrightarrow> \<forall>io. ok io \<longrightarrow> works io \<Longrightarrow> prints cd \<Longrightarrow> codec_reads_back cd \<Longrightarrow>
   keeps_system cd i (cw_service cw) \<Longrightarrow> keeps_system cd i (cw_service cw')"
  by (induction rule: rtranclp_induct) (auto dest: keeps_step)

section \<open>A round of the timer\<close>

text \<open>Every due job once, in the order of the store; the rest of the store is left alone.\<close>

fun run_due ::
    "cron_env \<Rightarrow> 'w on_job \<Rightarrow> int \<Rightarrow> (string \<Rightarrow> int \<times> int \<times> int) \<Rightarrow> cron_job list \<Rightarrow> 'w \<Rightarrow> 'w \<times> cron_job list" where
  "run_due env on_job now clock [] w = (w, [])"
| "run_due env on_job now clock (job # jobs) w =
     (if is_due now job
      then (case (call_back on_job job w, clock (cj_id job)) of
              ((result, w), (start_ms, end_ms, now')) \<Rightarrow>
                (case run_due env on_job now clock jobs w of
                   (w, jobs) \<Rightarrow> (w, after_run env now' (with_run start_ms end_ms result job) @ jobs)))
      else (case run_due env on_job now clock jobs w of (w, jobs) \<Rightarrow> (w, job # jobs)))"

lemma map_jobs_twice: "map_jobs g (map_jobs f s) = map_jobs (\<lambda>jobs. g (f jobs)) s"
  by (simp add: map_jobs_def store_ref_def)

lemma set_jobs: "map_jobs f s = map_jobs (\<lambda>_. f (jobs_of s)) s"
  by (simp add: map_jobs_def jobs_of_def)

lemma run_due_fold:
  assumes "in_sync s" "distinct (map cj_id (ahead @ jobs))" "jobs_of s = ahead @ jobs"
  shows "foldl (\<lambda>ws i. execute_job env cd io on_job (clock i) i ws) (w, s) (map cj_id (filter (is_due now) jobs)) =
    (case run_due env on_job now clock jobs w of (w, jobs') \<Rightarrow> (w, map_jobs (\<lambda>_. ahead @ jobs') s))"
  using assms
proof (induction jobs arbitrary: ahead w s)
  case Nil
  then show ?case
    by (auto simp: in_sync_def map_jobs_def jobs_of_def store_ref_def)
next
  case (Cons job jobs)
  have new: "cj_id job \<notin> cj_id ` set ahead" "cj_id job \<notin> cj_id ` set jobs"
    using Cons.prems(2) by auto
  show ?case
  proof (cases "is_due now job")
    case False
    then show ?thesis
      using Cons.IH [of s "ahead @ [job]" w] Cons.prems by (auto split: prod.split)
  next
    case True
    obtain result w1 where c: "call_back on_job job w = (result, w1)" by fastforce
    obtain start_ms end_ms now' where t: "clock (cj_id job) = (start_ms, end_ms, now')" by (metis prod_cases3)
    let ?done = "after_run env now' (with_run start_ms end_ms result job)"
    let ?s = "map_jobs (\<lambda>_. ahead @ ?done @ jobs) s"
    have found: "find_job (cj_id job) (jobs_of s) = Some job"
      unfolding Cons.prems(3) by (simp add: find_job_append [OF new(1)]) (simp add: find_job_def)
    have "finish_job env cd io (cj_id job) start_ms result end_ms now' s = ?s"
      unfolding finish_job_def store_mut_def in_sync_reload [OF Cons.prems(1)]
      by (subst set_jobs) (simp add: Cons.prems(3) replace_job_append [OF new(1)])
    then have "execute_job env cd io on_job (clock (cj_id job)) (cj_id job) (w, s) = (w1, ?s)"
      by (simp add: execute_job_def t found c)
    moreover have "distinct (map cj_id ((ahead @ ?done) @ jobs))"
      using Cons.prems(2) after_run_ids [of env now' "with_run start_ms end_ms result job"]
      by (cases ?done) auto
    ultimately show ?thesis
      using Cons.IH [of ?s "ahead @ ?done" w1] Cons.prems(1) True
      by (auto simp: c t in_sync_map_jobs map_jobs_twice split: prod.split)
  qed
qed

lemma on_timer_runs_due:
  assumes "in_sync s" "distinct (map cj_id (jobs_of s))"
  shows "on_timer env cd io on_job now clock (w, s) =
    (case run_due env on_job now clock (jobs_of s) w of
       (w, jobs) \<Rightarrow> (w, save_store_to_disk cd io (map_jobs (\<lambda>_. jobs) s)))"
  using run_due_fold [OF assms(1), of "[]" "jobs_of s" env cd io on_job clock w now] assms
  by (auto simp: on_timer_def due_ids_def Let_def split: prod.split)

section \<open>Next runs\<close>

text \<open>croner: the next occurrence is later than the instant asked about.\<close>

definition looks_ahead :: "cron_env \<Rightarrow> bool" where
  "looks_ahead env \<longleftrightarrow> (\<forall>expr now tz t. next_cron_run env expr now tz = Some t \<longrightarrow> now < t)"

lemma wrap_small: "- (2 ^ 63) \<le> n \<Longrightarrow> n \<le> I64_MAX \<Longrightarrow> wrap_i64 n = n"
  by (simp add: wrap_i64_def I64_MAX_def signed_take_bit_int_eq_self)

lemma next_run_later:
  assumes "looks_ahead env" "compute_next_run env schedule now = Some t" "0 \<le> now"
    "case sc_every_ms schedule of Some n \<Rightarrow> now + n \<le> I64_MAX | None \<Rightarrow> True"
  shows "now < t"
  using assms by (auto simp: compute_next_run_def looks_ahead_def wrap_small split: cron_schedule_kind.splits option.splits if_splits)

lemma rescheduled_not_due:
  assumes "looks_ahead env" "0 \<le> now" "case sc_every_ms (cj_schedule job) of Some n \<Rightarrow> now + n \<le> I64_MAX | None \<Rightarrow> True"
  shows "\<not> is_due now (reschedule env now job)"
  using next_run_later [OF assms(1) _ assms(2)] assms(3)
  by (fastforce simp: is_due_def reschedule_def split: option.splits)

section \<open>Where it falls short\<close>

text \<open>A torn write is read back as soon as the service looks at its file: no job is left.\<close>

lemma torn_write_forgets:
  assumes "codec_reads_back cd" "cc_print cd (store_ref s) = Some json" "n < length json"
    "sv_store s \<noteq> None" "ci_mkdir io" "ci_write io = Torn n" "sv_last_mtime s \<noteq> Some (ci_stamp io)" "ci_meta io'"
  shows "jobs_of (reload_store_if_needed cd io' (save_store_to_disk cd io s)) = []"
  using assms
  by (auto simp: save_store_to_disk_def reload_store_if_needed_def codec_reads_back_def store_ref_def)

text \<open>Arming the timer while it runs a job: the run is cut off, and starts again.\<close>

lemma foldl_min_le: "y \<in> insert x (set xs) \<Longrightarrow> foldl min x xs \<le> (y :: int)"
proof (induction xs arbitrary: x y)
  case (Cons a xs)
  have "foldl min (min x a) xs \<le> min x a" by (rule Cons.IH) simp
  moreover have "y \<in> set xs \<Longrightarrow> foldl min (min x a) xs \<le> y" by (rule Cons.IH) simp
  ultimately show ?case using Cons.prems by auto
qed simp

lemma next_wake_min:
  assumes "job \<in> set jobs" "cj_enabled job" "js_next_run_at_ms (cj_state job) = Some t"
  shows "\<exists>wake. get_next_wake_ms jobs = Some wake \<and> wake \<le> t"
proof -
  let ?ts = "List.map_filter (\<lambda>j. js_next_run_at_ms (cj_state j)) (filter cj_enabled jobs)"
  have "t \<in> set ?ts" using assms by (force simp: set_map_filter)
  then show ?thesis
    by (cases ?ts) (auto simp: get_next_wake_ms_def intro: foldl_min_le)
qed

text \<open>Arming drops the task in the middle of the callback; the job is still due, so it begins anew.\<close>

lemma cut_off_and_repeated:
  assumes "cw_task cw = Executing i start_ms ids" "cw_arms cw = Suc n" "sv_running (cw_service cw)"
    "in_sync (cw_service cw)" "due_ids now (cw_service cw) = i # later" "ok io"
    "case get_next_wake_ms (jobs_of (cw_service cw)) of Some wake \<Rightarrow> now - wake \<le> I64_MAX | None \<Rightarrow> True"
  shows "(cron_step env cd ok)\<^sup>*\<^sup>* cw
    (cw\<lparr>cw_arms := n, cw_task := Executing i now later, cw_events := cw_events cw @ [CbStarted i]\<rparr>)"
proof -
  let ?s = "cw_service cw"
  obtain job where job: "job \<in> set (jobs_of ?s)" "is_due now job" "cj_id job = i"
    using assms(5) by (force simp: due_ids_def filter_eq_Cons_iff map_eq_Cons_conv)
  obtain t where t: "cj_enabled job" "js_next_run_at_ms (cj_state job) = Some t" "t \<le> now"
    using job(2) by (auto simp: is_due_def split: option.splits)
  obtain wake where wake: "get_next_wake_ms (jobs_of ?s) = Some wake" "wake \<le> t"
    using next_wake_min [OF job(1) t(1,2)] by blast
  then have "max (wrap_i64 (wake - now)) 0 = 0"
    using assms(7) t(3) by (subst wrap_small) (auto simp: I64_MAX_def)
  then have "arm_timer now ?s = Sleeping now"
    using wake(1) assms(3,4) by (auto simp: arm_timer_def in_sync_def jobs_of_def store_ref_def split: option.splits)
  then have "cron_step env cd ok cw (cw\<lparr>cw_arms := n, cw_task := Sleeping now\<rparr>)" (is "cron_step _ _ _ _ ?cw1")
    using step_arm [OF assms(2), of env cd ok now] by simp
  moreover have "cron_step env cd ok ?cw1 (?cw1\<lparr>cw_service := ?s, cw_task := Waking (due_ids now ?s)\<rparr>)" (is "cron_step _ _ _ _ ?cw2")
    by (rule step_wake [where wake = now and now = now and io = io]) (use assms(4,6) in simp_all)
  moreover have "\<exists>job. find_job i (jobs_of ?s) = Some job"
    using job find_job_None [of i "jobs_of ?s"] by (cases "find_job i (jobs_of ?s)") auto
  then obtain job' where "find_job i (jobs_of (cw_service ?cw2)) = Some job'" by auto
  then have "cron_step env cd ok ?cw2 (?cw2\<lparr>cw_task := Executing i now later, cw_events := cw_events ?cw2 @ [CbStarted i]\<rparr>)"
    by (rule step_begin [rotated]) (use assms(5) in simp)
  ultimately show ?thesis by (simp add: rtranclp.rtrancl_into_rtrancl [OF rtranclp.rtrancl_into_rtrancl [OF r_into_rtranclp]])
qed

end
