(* ===== verification/Cron_Tool.thy ===== *)
theory Cron_Tool
  imports Cron_Laws Json
begin

text \<open>
  The \<open>cron\<close> tool of the model: \<open>src/agent/tools/cron.rs\<close> with the flag of
  \<open>src/agent/cron_context.rs\<close> that is up while a scheduled job runs.  The stack of the flag is local
  to a task; \<open>None\<close> is a task that has no stack.
\<close>

section \<open>The flag\<close>

type_synonym cron_context = "bool list option"

definition in_cron_context :: "cron_context \<Rightarrow> bool" where
  "in_cron_context ctx = (case ctx of Some stack \<Rightarrow> stack \<noteq> [] \<and> last stack | None \<Rightarrow> False)"

text \<open>Setting the flag panics in a task without a stack, resetting it does not.\<close>

definition set_cron_context :: "bool \<Rightarrow> cron_context \<Rightarrow> cron_context option" where
  "set_cron_context active ctx = (case ctx of Some stack \<Rightarrow> Some (Some (stack @ [active])) | None \<Rightarrow> None)"

definition reset_cron_context :: "cron_context \<Rightarrow> cron_context" where
  "reset_cron_context ctx = map_option butlast ctx"

lemma flag_set [simp]: "set_cron_context active ctx = Some ctx' \<Longrightarrow> in_cron_context ctx' = active"
  by (auto simp: set_cron_context_def in_cron_context_def split: option.splits)

lemma flag_restored [simp]: "set_cron_context active ctx = Some ctx' \<Longrightarrow> reset_cron_context ctx' = ctx"
  by (auto simp: set_cron_context_def reset_cron_context_def split: option.splits)

section \<open>Adding a job\<close>

record cron_tool =
  cl_default_timezone :: string
  cl_channel :: string
  cl_chat_id :: string

definition set_context :: "string \<Rightarrow> string \<Rightarrow> cron_tool \<Rightarrow> cron_tool" where
  "set_context channel chat_id tool = tool\<lparr>cl_channel := channel, cl_chat_id := chat_id\<rparr>"

definition NO_SCHEDULE :: string where
  "NO_SCHEDULE = ''Error: either every_seconds, cron_expr, or at is required''"

text \<open>The schedule asked for, and whether the job is deleted when it has run.\<close>

definition requested_schedule ::
    "cron_env \<Rightarrow> cron_tool \<Rightarrow> int option \<Rightarrow> string option \<Rightarrow> string option \<Rightarrow> string option \<Rightarrow>
     string + cron_schedule \<times> bool" where
  "requested_schedule env tool every_seconds cron_expr tz at =
     (case every_seconds of
        Some secs \<Rightarrow>
          (if secs \<le> 0 then Inl NO_SCHEDULE
           else Inr (schedule_default\<lparr>sc_kind := KindEvery, sc_every_ms := Some (wrap_i64 (secs * 1000))\<rparr>, False))
      | None \<Rightarrow>
     (case cron_expr of
        Some expr \<Rightarrow>
          (let effective_tz = (case tz of Some name \<Rightarrow> name | None \<Rightarrow> cl_default_timezone tool)
           in case validate_timezone env effective_tz of
                Some err \<Rightarrow> Inl err
              | None \<Rightarrow> Inr (schedule_default\<lparr>sc_kind := KindCron, sc_expr := Some expr, sc_tz := Some effective_tz\<rparr>, False))
      | None \<Rightarrow>
     (case at of
        Some at_str \<Rightarrow>
          (case parse_at_iso env at_str (cl_default_timezone tool) of
             Inl e \<Rightarrow> Inl e
           | Inr at_ms \<Rightarrow> Inr (schedule_default\<lparr>sc_kind := KindAt, sc_at_ms := Some at_ms\<rparr>, True))
      | None \<Rightarrow> Inl NO_SCHEDULE)))"

definition tool_add_job ::
    "cron_env \<Rightarrow> cron_codec \<Rightarrow> cron_io \<Rightarrow> int \<Rightarrow> string \<Rightarrow> cron_tool \<Rightarrow> string option \<Rightarrow> string \<Rightarrow> int option \<Rightarrow>
     string option \<Rightarrow> string option \<Rightarrow> string option \<Rightarrow> bool \<Rightarrow> cron_service \<Rightarrow> string \<times> cron_service" where
  "tool_add_job env cd io now new_id tool name message every_seconds cron_expr tz at deliver s =
     (if message = [] then (''Error: message is required for add'', s)
      else if cl_channel tool = [] \<or> cl_chat_id tool = []
      then (''Error: no session context (channel/chat_id)'', s)
      else if tz \<noteq> None \<and> cron_expr = None then (''Error: tz can only be used with cron_expr'', s)
      else case Option.bind tz (validate_timezone env) of Some err \<Rightarrow> (err, s) | None \<Rightarrow>
        (case requested_schedule env tool every_seconds cron_expr tz at of
           Inl e \<Rightarrow> (e, s)
         | Inr (schedule, delete_after) \<Rightarrow>
             (let job_name = (case name of Some n \<Rightarrow> n | None \<Rightarrow> take_chars 30 message)
              in case add_job env cd io now new_id job_name schedule message deliver
                        (Some (cl_channel tool)) (Some (cl_chat_id tool)) delete_after s of
                   (Inr job, s) \<Rightarrow>
                     (''Created job '' @ [CHR 0x27] @ cj_name job @ [CHR 0x27] @ '' (id: '' @ cj_id job @ '')'', s)
                 | (Inl e, s) \<Rightarrow> (''Error: '' @ e, s))))"

section \<open>Listing and removing\<close>

definition show_i64 :: "int \<Rightarrow> string" where
  "show_i64 n = (if n < 0 then ''-'' @ show_nat (nat (- n)) else show_nat (nat n))"

definition display_timezone :: "cron_tool \<Rightarrow> cron_schedule \<Rightarrow> string" where
  "display_timezone tool schedule = (case sc_tz schedule of Some tz \<Rightarrow> tz | None \<Rightarrow> cl_default_timezone tool)"

definition format_timing :: "cron_env \<Rightarrow> cron_tool \<Rightarrow> cron_schedule \<Rightarrow> string" where
  "format_timing env tool schedule =
     (case sc_kind schedule of
        KindCron \<Rightarrow>
          ''cron: '' @ (case sc_expr schedule of Some expr \<Rightarrow> expr | None \<Rightarrow> []) @
          (case sc_tz schedule of Some tz \<Rightarrow> '' ('' @ tz @ '')'' | None \<Rightarrow> [])
      | KindEvery \<Rightarrow>
          (case sc_every_ms schedule of
             Some ms \<Rightarrow>
               (if ms \<le> 0 then ''every (invalid)''
                else if ms mod 3600000 = 0 then ''every '' @ show_i64 (ms div 3600000) @ ''h''
                else if ms mod 60000 = 0 then ''every '' @ show_i64 (ms div 60000) @ ''m''
                else if ms mod 1000 = 0 then ''every '' @ show_i64 (ms div 1000) @ ''s''
                else ''every '' @ show_i64 ms @ ''ms'')
           | None \<Rightarrow> ''every (invalid)'')
      | KindAt \<Rightarrow>
          (case sc_at_ms schedule of
             None \<Rightarrow> ''at (not scheduled)''
           | Some at_ms \<Rightarrow>
               (case format_timestamp env show_i64 at_ms (display_timezone tool schedule) of
                  Inr ts \<Rightarrow> ''at '' @ ts
                | Inl e \<Rightarrow> ''at (invalid: '' @ e @ '')'')))"

definition format_timestamp_display :: "cron_env \<Rightarrow> cron_tool \<Rightarrow> int \<Rightarrow> cron_schedule \<Rightarrow> string" where
  "format_timestamp_display env tool ms schedule =
     (case format_timestamp env show_i64 ms (display_timezone tool schedule) of
        Inr ts \<Rightarrow> ts | Inl e \<Rightarrow> ''(invalid: '' @ e @ '')'')"

fun run_status_label :: "cron_run_status \<Rightarrow> string" where
  "run_status_label RunOk = ''ok''"
| "run_status_label RunError = ''error''"
| "run_status_label RunSkipped = ''skipped''"

definition EM_DASH :: string where "EM_DASH = [CHR 0xE2, CHR 0x80, CHR 0x94]"

definition format_state :: "cron_env \<Rightarrow> cron_tool \<Rightarrow> cron_job_state \<Rightarrow> cron_schedule \<Rightarrow> string list" where
  "format_state env tool st schedule =
     (case js_last_run_at_ms st of
        Some last_run \<Rightarrow>
          [''  Last run: '' @ format_timestamp_display env tool last_run schedule @ '' '' @ EM_DASH @ '' '' @
           (case js_last_status st of Some status \<Rightarrow> run_status_label status | None \<Rightarrow> ''unknown'') @
           (case js_last_error st of
              Some err \<Rightarrow> if err = [] then [] else '' ('' @ err @ '')'' | None \<Rightarrow> [])]
      | None \<Rightarrow> []) @
     (case js_next_run_at_ms st of
        Some next_ms \<Rightarrow> [''  Next run: '' @ format_timestamp_display env tool next_ms schedule] | None \<Rightarrow> [])"

definition DREAM_JOB_NAME :: string where "DREAM_JOB_NAME = ''dream''"
definition EVICT_STALE_SESSIONS_JOB_NAME :: string where
  "EVICT_STALE_SESSIONS_JOB_NAME = ''evict_stale_sessions''"

definition system_job_purpose :: "cron_job \<Rightarrow> string" where
  "system_job_purpose job =
     (if cj_name job = DREAM_JOB_NAME then ''Dream memory consolidation for long-term memory.''
      else if cj_name job = EVICT_STALE_SESSIONS_JOB_NAME
      then ''Drop unused sessions from memory; files are kept on disk.''
      else ''System-managed internal job.'')"

definition LINE_BREAK :: string where "LINE_BREAK = [CHR 0x0A]"

definition job_lines :: "cron_env \<Rightarrow> cron_tool \<Rightarrow> cron_job \<Rightarrow> string list" where
  "job_lines env tool j =
     [''- '' @ cj_name j @ '' (id: '' @ cj_id j @ '', '' @ format_timing env tool (cj_schedule j) @ '')''] @
     (if cp_kind (cj_payload j) = SystemEvent
      then [''  Purpose: '' @ system_job_purpose j,
            ''  Protected: visible for inspection, but cannot be removed.'']
      else []) @
     format_state env tool (cj_state j) (cj_schedule j)"

definition tool_list_jobs ::
    "cron_env \<Rightarrow> cron_codec \<Rightarrow> cron_io \<Rightarrow> cron_tool \<Rightarrow> cron_service \<Rightarrow> string \<times> cron_service" where
  "tool_list_jobs env cd io tool s =
     (case list_jobs cd io False s of
        (jobs, s) \<Rightarrow>
          (if jobs = [] then ''No scheduled jobs.''
           else ''Scheduled jobs:'' @ LINE_BREAK @ join LINE_BREAK (map (\<lambda>j. join LINE_BREAK (job_lines env tool j)) jobs), s))"

definition tool_remove_job :: "cron_codec \<Rightarrow> cron_io \<Rightarrow> string \<Rightarrow> cron_service \<Rightarrow> string \<times> cron_service" where
  "tool_remove_job cd io job_id s =
     (if job_id = [] then (''Error: job_id is required for remove'', s)
      else case remove_job cd io job_id s of
        (JobRemoved, s) \<Rightarrow> (''Removed job '' @ [CHR 0x27] @ job_id @ [CHR 0x27], s)
      | (JobNotFound, s) \<Rightarrow> (''Error: job '' @ [CHR 0x27] @ job_id @ [CHR 0x27] @ '' not found'', s)
      | (JobProtected, s) \<Rightarrow>
          (''Error: job '' @ [CHR 0x27] @ job_id @ [CHR 0x27] @ '' is protected and cannot be removed'', s))"

section \<open>A call\<close>

fun as_i64 :: "json \<Rightarrow> int option" where
  "as_i64 (JNumber (PosInt n)) = (if uint n \<le> I64_MAX then Some (uint n) else None)"
| "as_i64 (JNumber (NegInt n)) = Some (sint n)"
| "as_i64 _ = None"

definition str_or_blank :: "json \<Rightarrow> string \<Rightarrow> string" where
  "str_or_blank params key = (case get_str params key of Some s \<Rightarrow> s | None \<Rightarrow> [])"

definition cron_execute ::
    "cron_env \<Rightarrow> cron_codec \<Rightarrow> cron_io \<Rightarrow> int \<Rightarrow> string \<Rightarrow> cron_context \<Rightarrow> cron_tool \<Rightarrow> json \<Rightarrow> cron_service \<Rightarrow>
     string \<times> cron_service" where
  "cron_execute env cd io now new_id ctx tool params s =
     (let action = str_or_blank params ''action''
      in if action = ''add'' then
           (if in_cron_context ctx then (''Error: cannot add job inside a cron job context'', s)
            else tool_add_job env cd io now new_id tool (get_str params ''name'') (str_or_blank params ''message'')
                   (Option.bind (json_get params ''every_seconds'') as_i64) (get_str params ''cron_expr'')
                   (get_str params ''tz'') (get_str params ''at'')
                   (case Option.bind (json_get params ''deliver'') as_bool of Some b \<Rightarrow> b | None \<Rightarrow> True) s)
         else if action = ''list'' then tool_list_jobs env cd io tool s
         else if action = ''remove'' then tool_remove_job cd io (str_or_blank params ''job_id'') s
         else (''Error: unknown or unsupported action '' @ [CHR 0x27] @ action @ [CHR 0x27], s))"

section \<open>What a call can change\<close>

text \<open>The job a call adds, if it adds one: a turn of the agent for the chat the call was made in.\<close>

definition added_job :: "cron_tool \<Rightarrow> string \<Rightarrow> json \<Rightarrow> cron_job \<Rightarrow> bool" where
  "added_job tool new_id params job \<longleftrightarrow>
     cj_id job = new_id \<and> cj_enabled job \<and> cp_kind (cj_payload job) = AgentTurn \<and>
     get_str params ''message'' = Some (cp_message (cj_payload job)) \<and> cp_message (cj_payload job) \<noteq> [] \<and>
     cp_channel (cj_payload job) = Some (cl_channel tool) \<and> cl_channel tool \<noteq> [] \<and>
     cp_to (cj_payload job) = Some (cl_chat_id tool) \<and> cl_chat_id tool \<noteq> [] \<and>
     (cj_delete_after_run job \<longleftrightarrow> sc_kind (cj_schedule job) = KindAt)"

lemma requested_kind:
  "requested_schedule env tool every cron tz at = Inr (schedule, del) \<Longrightarrow> del \<longleftrightarrow> sc_kind schedule = KindAt"
  by (auto simp: requested_schedule_def Let_def split: option.splits sum.splits if_splits)

lemma tool_add_changes:
  assumes "tool_add_job env cd io now new_id tool name (str_or_blank params ''message'') every cron tz at deliver s = (out, s')"
  shows "s' = s \<or> (\<exists>job. added_job tool new_id params job \<and>
    s' = save_store_to_disk cd io (store_mut cd io (\<lambda>jobs. jobs @ [job]) s))"
proof (cases "s' = s")
  case False
  with assms obtain schedule del job_name where r: "requested_schedule env tool every cron tz at = Inr (schedule, del)"
    "add_job env cd io now new_id job_name schedule (str_or_blank params ''message'') deliver
       (Some (cl_channel tool)) (Some (cl_chat_id tool)) del s = (Inr (new_job env now new_id job_name schedule
         \<lparr>cp_kind = AgentTurn, cp_message = str_or_blank params ''message'', cp_deliver = deliver,
          cp_channel = Some (cl_channel tool), cp_to = Some (cl_chat_id tool)\<rparr> del), s')"
    and fields: "str_or_blank params ''message'' \<noteq> []" "cl_channel tool \<noteq> []" "cl_chat_id tool \<noteq> []"
    by (auto simp: tool_add_job_def add_job_def Let_def split: if_splits option.splits sum.splits prod.splits)
  then have "get_str params ''message'' = Some (str_or_blank params ''message'')"
    by (auto simp: str_or_blank_def split: option.splits)
  then have "added_job tool new_id params (new_job env now new_id job_name schedule
      \<lparr>cp_kind = AgentTurn, cp_message = str_or_blank params ''message'', cp_deliver = deliver,
       cp_channel = Some (cl_channel tool), cp_to = Some (cl_chat_id tool)\<rparr> del)"
    using fields requested_kind [OF r(1)] by (simp add: added_job_def new_job_def)
  moreover have "s' = save_store_to_disk cd io (store_mut cd io (\<lambda>jobs. jobs @ [new_job env now new_id job_name schedule
      \<lparr>cp_kind = AgentTurn, cp_message = str_or_blank params ''message'', cp_deliver = deliver,
       cp_channel = Some (cl_channel tool), cp_to = Some (cl_chat_id tool)\<rparr> del]) s)"
    using r(2) by (auto simp: add_job_def Let_def split: sum.splits)
  ultimately show ?thesis by blast
qed simp

text \<open>
  A call adds at most that one job, and none in a cron context; it removes at most the named job, and
  no job of the system; otherwise it only reads.
\<close>

lemma cron_execute_changes:
  assumes "cron_execute env cd io now new_id ctx tool params s = (out, s')"
  shows "s' = s \<or> s' = reload_store_if_needed cd io s \<or>
    (get_str params ''action'' = Some ''add'' \<and> \<not> in_cron_context ctx \<and>
     (\<exists>job. added_job tool new_id params job \<and>
        s' = save_store_to_disk cd io (store_mut cd io (\<lambda>jobs. jobs @ [job]) s))) \<or>
    (get_str params ''action'' = Some ''remove'' \<and>
     (\<exists>i job. get_str params ''job_id'' = Some i \<and>
        find_job i (jobs_of (reload_store_if_needed cd io s)) = Some job \<and> cp_kind (cj_payload job) = AgentTurn \<and>
        s' = save_store_to_disk cd io (store_mut cd io (filter (\<lambda>j. cj_id j \<noteq> i)) s)))"
proof -
  have action: "str_or_blank params key = str \<Longrightarrow> str \<noteq> [] \<Longrightarrow> get_str params key = Some str" for key str
    by (auto simp: str_or_blank_def split: option.splits)
  consider (add) "str_or_blank params ''action'' = ''add''" "\<not> in_cron_context ctx"
    | (list) "str_or_blank params ''action'' = ''list''" | (remove) "str_or_blank params ''action'' = ''remove''"
    | (none) "s' = s"
    using assms by (auto simp: cron_execute_def Let_def split: if_splits)
  then show ?thesis
  proof cases
    case add
    with assms obtain name every cron tz at deliver where
      "tool_add_job env cd io now new_id tool name (str_or_blank params ''message'') every cron tz at deliver s = (out, s')"
      by (simp add: cron_execute_def Let_def)
    from tool_add_changes [OF this] show ?thesis
      using action [OF add(1)] add(2) by blast
  next
    case list
    with assms show ?thesis
      by (auto simp: cron_execute_def Let_def tool_list_jobs_def list_jobs_def split: if_splits)
  next
    case remove
    with assms have t: "tool_remove_job cd io (str_or_blank params ''job_id'') s = (out, s')"
      by (simp add: cron_execute_def Let_def)
    show ?thesis
    proof (cases "find_job (str_or_blank params ''job_id'') (jobs_of (reload_store_if_needed cd io s))")
      case None
      with t show ?thesis by (auto simp: tool_remove_job_def remove_job_def Let_def split: if_splits)
    next
      case (Some job)
      with t action [OF remove] action [of "''job_id''"] show ?thesis
        by (cases "cp_kind (cj_payload job)")
          (auto simp: tool_remove_job_def remove_job_def Let_def store_mut_def split: if_splits)
    qed
  qed simp
qed

end
