(* ===== verification/Cron_Examples.thy ===== *)
theory Cron_Examples
  imports Cron_Tool Journal_File "HOL-Library.Countable"
begin

text \<open>
  A codec for stores of jobs that can be evaluated symbolically (not serde's: it writes the number of
  a store in unary), and services on which the results about the scheduler are applied.
\<close>

section \<open>A codec\<close>

instance cron_schedule_kind :: countable by countable_datatype
instance cron_payload_kind :: countable by countable_datatype
instance cron_run_status :: countable by countable_datatype

instance cron_schedule_ext :: (countable) countable
  by (rule countable_classI [of "\<lambda>r. to_nat (sc_kind r, sc_at_ms r, sc_every_ms r, sc_expr r, sc_tz r, cron_schedule.more r)"])
    simp

instance cron_payload_ext :: (countable) countable
  by (rule countable_classI [of "\<lambda>r. to_nat (cp_kind r, cp_message r, cp_deliver r, cp_channel r, cp_to r, cron_payload.more r)"])
    simp

instance cron_run_record_ext :: (countable) countable
  by (rule countable_classI [of "\<lambda>r. to_nat (cr_run_at_ms r, cr_status r, cr_duration_ms r, cr_run_error r, cron_run_record.more r)"])
    simp

instance cron_job_state_ext :: (countable) countable
  by (rule countable_classI [of "\<lambda>r. to_nat (js_next_run_at_ms r, js_last_run_at_ms r, js_last_status r, js_last_error r,
      js_run_history r, cron_job_state.more r)"]) simp

instance cron_job_ext :: (countable) countable
  by (rule countable_classI [of "\<lambda>r. to_nat (cj_id r, cj_name r, cj_enabled r, cj_schedule r, cj_payload r, cj_state r,
      cj_created_at_ms r, cj_updated_at_ms r, cj_delete_after_run r, cron_job.more r)"]) simp

instance cron_store_ext :: (countable) countable
  by (rule countable_classI [of "\<lambda>r. to_nat (ct_version r, ct_jobs r, cron_store.more r)"]) simp

definition numbered_codec :: cron_codec where
  "numbered_codec = \<lparr>cc_print = (\<lambda>store. Some (''{'' @ replicate (to_nat store) (CHR ''1'') @ ''}'')),
     cc_parse = (\<lambda>line. if unary_parse line = None then None else Some (from_nat (length line - 2)))\<rparr>"

lemma numbered_codec_ok: "codec_reads_back numbered_codec" "prints numbered_codec"
proof -
  have "unary_parse (''{'' @ replicate n (CHR ''1'') @ ''}'') \<noteq> None" for n
    by (simp add: unary_parse_def)
  moreover have "k < n + 2 \<Longrightarrow> unary_parse (take k (''{'' @ replicate n (CHR ''1'') @ ''}'')) = None" for k n
    by (rule unary_torn)
  ultimately show "codec_reads_back numbered_codec"
    unfolding codec_reads_back_def numbered_codec_def by (auto simp del: append.simps take_append)
  show "prints numbered_codec" by (simp add: prints_def numbered_codec_def)
qed

section \<open>Services\<close>

definition plain_cron_env :: cron_env where
  "plain_cron_env = \<lparr>ce_find_next = (\<lambda>expr tz secs nanos. Some ((secs div 86400 + 1) * 86400000)),
     ce_known_tz = (\<lambda>tz. tz = ''UTC''), ce_rfc3339 = (\<lambda>s. None), ce_datetime = (\<lambda>f s. None),
     ce_naive = (\<lambda>f s. None), ce_from_local = (\<lambda>tz n. None), ce_show = (\<lambda>tz secs nanos. None)\<rparr>"

definition hourly :: cron_schedule where
  "hourly = schedule_default\<lparr>sc_every_ms := Some 3600000\<rparr>"

definition dream_job :: cron_job where
  "dream_job = \<lparr>cj_id = DREAM_JOB_NAME, cj_name = DREAM_JOB_NAME, cj_enabled = True, cj_schedule = hourly,
     cj_payload = payload_default\<lparr>cp_kind := SystemEvent\<rparr>, cj_state = job_state_default,
     cj_created_at_ms = 0, cj_updated_at_ms = 0, cj_delete_after_run = False\<rparr>"

text \<open>A started service with a job of the system.\<close>

definition fresh_service :: cron_service where
  "fresh_service = cron_start plain_cron_env numbered_codec (cron_io_ok 1) 0 (cron_service_new None)"

definition dream_service :: cron_service where
  "dream_service = snd (register_system_job plain_cron_env numbered_codec (cron_io_ok 2) 0 dream_job fresh_service)"

lemma io_ok_works [simp]: "works (cron_io_ok stamp)" "ci_read (cron_io_ok stamp)"
  by (simp_all add: works_def cron_io_ok_def)

lemma fresh_on_disk: "on_disk numbered_codec fresh_service"
  unfolding fresh_service_def by (rule start_on_disk) (simp_all add: numbered_codec_ok)

lemma fresh_jobs: "jobs_of fresh_service = []"
  by (simp add: fresh_service_def cron_start_def jobs_save recompute_next_runs_def store_mut_def reload_store_if_needed_def
      cron_service_new_def cron_store_default_def, simp add: jobs_of_def store_ref_def)

lemma fresh_sound: "sound_service numbered_codec fresh_service"
  unfolding fresh_service_def cron_start_def recompute_next_runs_def
  by (intro sound_save sound_store_mut sound_reload numbered_codec_ok)
    (auto simp: sound_service_def cron_service_new_def jobs_of_def store_ref_def sound_jobs_def o_def if_distrib cong: if_cong)

lemma dream_fields:
  "cj_id dream_job = DREAM_JOB_NAME" "cp_kind (cj_payload dream_job) = SystemEvent" "cj_schedule dream_job = hourly"
  "sc_kind hourly = KindEvery" "sc_every_ms hourly = Some 3600000" "js_run_history (cj_state dream_job) = []" "cj_enabled dream_job"
  by (simp_all add: dream_job_def hourly_def schedule_default_def job_state_default_def)

lemma dream_call: "cron_call plain_cron_env numbered_codec works fresh_service dream_service"
  unfolding dream_service_def
  by (rule call_register [OF prod.collapse [symmetric]]) (simp_all add: dream_fields io_ok_works)

lemma dream_jobs: "jobs_of dream_service =
  [(reschedule plain_cron_env 0 dream_job)\<lparr>cj_created_at_ms := 0, cj_updated_at_ms := 0\<rparr>]"
  by (simp add: dream_service_def register_system_job_def Let_def jobs_save store_mut_def
      on_disk_in_sync [OF fresh_on_disk] fresh_jobs)

lemma dream_running: "sv_running dream_service"
  by (simp add: dream_service_def register_system_job_def Let_def save_store_to_disk_def store_mut_def map_jobs_def
      on_disk_in_sync [OF fresh_on_disk] numbered_codec_def cron_io_ok_def, simp add: fresh_service_def cron_start_def
      save_store_to_disk_def recompute_next_runs_def store_mut_def map_jobs_def reload_store_if_needed_def
      cron_service_new_def numbered_codec_def cron_io_ok_def)

lemma dream_on_disk: "on_disk numbered_codec dream_service"
  using call_on_disk [OF dream_call] numbered_codec_ok(2) fresh_on_disk by blast

lemma dream_keeps: "keeps_system numbered_codec DREAM_JOB_NAME dream_service"
  using sound_call [OF numbered_codec_ok(1) dream_call fresh_sound] on_disk_in_sync [OF dream_on_disk]
  by (simp add: keeps_system_def dream_jobs has_system_job_def)
    (simp add: dream_fields reschedule_def)

end
