(* ===== verification/Spec2Isabelle.thy ===== *)
theory Spec2Isabelle
  imports Ask_Examples Session_Examples Inbox_Laws Agent_Durability Journal_Defects Tool_Registry Tool_Schema Tool_Guards
    Pipeline_Laws Provider_Examples Cron_Examples
begin

text \<open>
  A model of the core of the bot in \<open>src/src\<close>: what happens to a request, to its tool calls and to
  its conversation when the process can die at any moment, who may let a tool run, and how the loop
  between model and tools builds its prompts, goes on and ends.

  \<^bold>\<open>Parts and theories.\<close>  An inbound message (\<open>Bus_Events\<close>, \<open>bus/events.rs\<close>) goes through the bus
  (\<open>Message_Bus\<close>, \<open>bus/queue.rs\<close>), whose guard asks the inbox ledger (\<open>Inbox\<close>, \<open>session/inbox.rs\<close>), which
  folds \<open>Inbox\<close> records of the session's journal.  The journal (\<open>Journal\<close>, \<open>session/journal.rs\<close>) is an
  append-only log behind the trait \<open>JournalStore\<close>: here a record of operations \<open>journal_store\<close> with its
  promises as the locale \<open>journal_laws\<close>.  The trait has two implementations: \<open>Journal_Memory\<close> (an
  interpretation) and \<open>Journal_File\<close> (\<open>session/journal_file.rs\<close>, bytes of files and a script of I/O
  outcomes; \<open>file_laws\<close> gives the locale for every codec).  A turn writes its records through
  \<open>Turn_Journal\<close> (\<open>agent/turn_journal.rs\<close>).  The model loop is \<open>Agent_Runner\<close> (\<open>agent/runner.rs\<close>): it
  builds each prompt with \<open>Context_Governance\<close> (same file), reads responses as \<open>Llm_Types\<close>
  (\<open>providers/base.rs\<close>) has them and runs batches of tool calls; a tool call goes through \<open>Tool_Pipeline\<close>
  (\<open>agent/tool_pipeline.rs\<close>), which uses \<open>Tool_Registry\<close>, \<open>Tool_Schema\<close> (\<open>agent/tools/\<close>) and \<open>Tool_Guards\<close>
  (\<open>agent/circuit_breaker.rs\<close>, \<open>utils/runtime.rs\<close>), and asks the hooks of its turn: chains and the hooks
  that ask a user are \<open>Ask_Hooks\<close> (\<open>agent/hook.rs\<close>, \<open>cli/confirm_tools.rs\<close>) over the brokers of
  \<open>Approval\<close> (\<open>agent/tool_approval.rs\<close>, \<open>agent/question_broker.rs\<close>).  After a restart \<open>Resume\<close> plans
  (\<open>agent/resume.rs\<close>), \<open>Recovery\<close> decides from the folded journal (\<open>agent/recovery.rs\<close>),
  \<open>Checkpoint_Payload\<close> rebuilds messages, and \<open>Agent_Durability\<close> holds the pieces of \<open>agent/agent_loop.rs\<close>
  that put these together.  The conversation is \<open>Session\<close>; \<open>Session_Manager\<close> caches, saves, deletes and
  forks sessions over the trait \<open>SessionStore\<close> (\<open>Session_Store\<close>, locale \<open>session_store_laws\<close>), implemented by
  \<open>Session_File\<close> (all of \<open>session/manager.rs\<close>).

  The loop's provider is that of \<open>Provider_Retry\<close> (\<open>providers/base.rs\<close>: panics, retries, prompts without
  images) around the OpenAI-compatible backend: \<open>Openai_Request\<close> builds and posts a body
  (\<open>providers/openai_compat_provider.rs\<close>, \<open>cache_control.rs\<close>) and \<open>Openai_Stream\<close> reads the answer, whole or as
  server-sent events (\<open>providers/openai_compat_stream.rs\<close>).

  Scheduled jobs are \<open>Cron_Service\<close> (\<open>cron/\<close>: store, file, timer task) and \<open>Cron_Tool\<close> (\<open>agent/tools/cron.rs\<close>,
  \<open>agent/cron_context.rs\<close>).

  \<^bold>\<open>How state corresponds.\<close>  A store behind an \<open>Arc\<close> is threaded as an argument \<open>st\<close>; a handle with an atomic
  flag is a pair of the handle and the store; \<open>Result\<close> is a sum with the error on the left; a possible
  panic is the constructor \<open>Panics\<close>.  A mutex that is poisoned is a flag of the state.  \<open>u32\<close> attempts
  are words; what a backend was sent, slept and told is the record \<open>wire\<close>; a byte stream is the list of what it
  yields; sequence numbers are natural numbers (a journal of more than two to the 64 records is out of
  scope).  Time stamps, number formatting, serde and the file system are parameters; the assumptions
  \<open>codec_ok\<close> and \<open>env_ok\<close> are what serde_json gives for one line.  \<open>Crash_Safety\<close> composes the operations into the step
  relation \<open>crash_step\<close>, in which a crash can come between any two effects; \<open>queue_step\<close> interleaves the
  tasks on a queue; \<open>cron_step\<close> interleaves the timer with calls; \<open>mgr_step\<close>, \<open>broker_step\<close> and \<open>bus_step\<close> are the operations other tasks can run in between.

  \<^bold>\<open>Lemma groups.\<close>  \<open>Context_Laws\<close>: repairing, collapsing and cutting the history against recursive or pointwise
  references.  \<open>Runner_Laws\<close>: the loop refines the step relations \<open>conv_continue\<close> and \<open>conv_end\<close> on a
  conversation, for every provider, hook, tool and schedule; \<open>Run_Invariants\<close>: their invariants, and a potential
  (\<open>credit\<close>) that bounds the requests.  \<open>Retry_Laws\<close>: the retry loop against the first settled attempt, and the locale
  \<open>provider_ledger\<close>, which carries a relation between requests and provider through a run; \<open>Stream_Laws\<close>: reading is
  independent of chunks, and fragments are joined; \<open>Request_Laws\<close>, \<open>Wire_Laws\<close>: bodies stay legal conversations.  \<open>Recovery\<close>, \<open>Inbox_Laws\<close>: each fold equals a declarative reference, pruning and compaction
  keep what decisions read.  \<open>Crash_Safety\<close>, \<open>Agent_Durability\<close>: an invariant over crash steps bounds the
  executions of a call, and resuming is a run of such steps.  \<open>Pipeline_Laws\<close>, \<open>Ask_Hooks\<close>: gates and
  write-ahead order of a call, who allowed it.  \<open>Tool_Schema\<close>, \<open>Tool_Registry\<close>, \<open>Tool_Guards\<close>: the reference
  behaviour of each.  \<open>Session_Laws\<close>, \<open>Session_Manager_Laws\<close>, \<open>Session_File_Laws\<close>: what saving, cutting and
  deleting keep.  \<open>Cron_Laws\<close>: what any sequence of steps keeps, rounds against a recursive reference.
  \<open>Journal_Defects\<close>: where the code misses its contract.  \<open>Examples\<close>, \<open>Ask_Examples\<close>,
  \<open>Session_Examples\<close>, \<open>Run_Examples\<close>, \<open>Provider_Examples\<close>, \<open>Cron_Examples\<close>: the inputs of the witnesses.

  \<^bold>\<open>Termination.\<close>  Loops of the source are structural recursions or folds; \<open>validate\<close>, \<open>cast_value\<close> recurse on
  the value with a proved measure, \<open>skip_tools\<close> on the distance to the end of the history, the model loop on the
  iterations left, \<open>drain_events\<close> on the buffer.  Fuel is used only where it is the length of the text read
  (\<open>strip_front\<close>, \<open>split_white\<close>), each step of which takes a character.

  \<^bold>\<open>Not modelled.\<close>  The HTTP client and the Anthropic provider, interleavings inside two calls of one concurrent batch, a tool that
  loads deferred tools during a run, channels, sockets, user interfaces, the bodies of tools,
  memory and prompt building: asynchronous I/O or code the modelled parts only call.

  The properties C1, C2, \<dots> below restate the library's results, each with a concrete instance when it has
  a hypothesis.
\<close>

section \<open>Tool execution across crashes\<close>

text \<open>
  C1: However often the process dies and is restarted, a tool call of a strict-mode turn runs at
  most once, or at most twice if its tool declares itself safe to replay.  This holds on every
  store that keeps the laws of \<open>JournalStore\<close>, from an empty journal of the session, for every
  sequence of live calls, replays, blocked calls, cancelled futures, other records, prunes and
  crashes.
\<close>

theorem executions_after_crashes:
  assumes "journal_laws ops good slot next_number" and "good st"
    and "scan_entries (rj_scan ops rj st) = []"
    and "(crash_step ops safe_of)\<^sup>*\<^sup>* (Waiting, (rj, st), \<lambda>_. 0) (p, w, x)"
  shows "x k \<le> (if safe_of k then 2 else 1)"
  using assms by (rule journal_laws.executions_bounded)

theorem executions_after_crashes_witness:
  "\<exists>w x. (crash_step memory_ops (\<lambda>_. True))\<^sup>*\<^sup>* (Waiting, (rj_new ''cli:x'', []), \<lambda>_. 0) (Waiting, w, x) \<and>
     x (''t1'', ''c1'') = 2 \<and> (\<forall>k. x k \<le> 2)"
  using ex_second_run
    executions_after_crashes [OF mem.journal_laws_axioms mem_inv_empty ex_scan_empty, of "\<lambda>_. True"]
  by fastforce

text \<open>
  C2: Resuming an interrupted turn keeps that bound: after any run of steps, the process dies and
  \<open>replay_interrupted_calls\<close> of the resumed turn runs over the whole journal, with tools that
  record their executions and may answer in any way, panics included.
\<close>

theorem executions_after_replay:
  assumes "journal_laws ops good slot next_number" and "good st"
    and "scan_entries (rj_scan ops rj st) = []"
    and "(crash_step ops safe_of)\<^sup>*\<^sup>* (Waiting, (rj, st), \<lambda>_. 0) (p, w, x)"
    and "counting_tools tools"
    and "replay_interrupted_calls ops now tools Strict (rj_session_key (fst w)) turn_id (x, snd w) = (b, x', w')"
  shows "x' k \<le> (if safe_of k then 2 else 1)"
  using journal_laws.executions_bounded [OF assms(1-3)]
    journal_laws.crash_then_replay_steps [OF assms(1-6)] by blast

theorem executions_after_replay_witness:
  "fst (snd (replay_interrupted_calls memory_ops ''now'' ex_count_registry Strict ''cli:x'' ''t1''
     ((\<lambda>_. 0)((''t1'', ''c1'') := 1), ex_store))) (''t1'', ''c1'') \<le> (if True then 2 else 1)"
proof -
  let ?r = "replay_interrupted_calls memory_ops ''now'' ex_count_registry Strict ''cli:x'' ''t1''
     ((\<lambda>_. 0)((''t1'', ''c1'') := 1), ex_store)"
  obtain b x' w' where r: "?r = (b, x', w')" by (cases ?r)
  show ?thesis
    unfolding r fst_conv snd_conv
    by (rule executions_after_replay [OF mem.journal_laws_axioms mem_inv_empty ex_scan_empty
          ex_first_run [of "\<lambda>_. True", OF TrueI] ex_counting])
      (use r in \<open>simp add: rj_new_def\<close>)
qed







section \<open>The model loop and its prompts\<close>

text \<open>
  C6: Every prompt a run sends is legal: no tool result without the call it answers, in the first
  requests of an iteration and in the final retry, and neither is there one in the history the run
  leaves, whatever the provider, the hooks and the tools do.
\<close>

theorem every_prompt_is_legal:
  assumes "legal (as_initial_messages spec)"
  shows "legal (rn_messages (snd (run_agent ops renv provider hook spec w h journal files p))) \<and>
    (\<forall>rq \<in> set (rn_requests (snd (run_agent ops renv provider hook spec w h journal files p))).
       legal (pr_messages rq))"
proof -
  obtain res st where r: "run_agent ops renv provider hook spec w h journal files p = (res, st)" by fastforce
  from run_prompts_legal [OF r assms] show ?thesis by (simp add: r)
qed

theorem every_prompt_is_legal_witness:
  "list_all (\<lambda>rq. legal (pr_messages rq)) (rn_requests (snd ex_run))"
proof -
  have "legal (as_initial_messages ex_run_spec)" using ex_legal by (simp add: ex_run_spec_def)
  from conjunct2 [OF every_prompt_is_legal [OF this]] show ?thesis unfolding ex_run_def list_all_iff .
qed

text \<open>
  C7: A run answers every call it makes: if in the history it starts from every call is answered
  right behind the message that made it, and by nothing else, then the same holds of the history it
  returns, unless a tool error aborted it between a request and its results.
\<close>

theorem run_answers_every_call:
  assumes "fst (run_agent ops renv provider hook spec w h journal files p) = Returns result"
    and "answered_in_place (as_initial_messages spec)" and "in_place (as_initial_messages spec)"
    and "rr_stop_reason result \<noteq> ''tool_error''"
  shows "answered_in_place (rr_messages result) \<and> in_place (rr_messages result)"
proof -
  obtain st where "run_agent ops renv provider hook spec w h journal files p = (Returns result, st)"
    using assms(1) by (metis prod.collapse)
  from run_answers_in_place [OF this] assms(2-4) show ?thesis by (simp add: tidy_def)
qed

theorem run_answers_every_call_witness:
  "\<exists>result. fst ex_run = Returns result \<and> answered_in_place (rr_messages result)"
proof -
  obtain result where r: "fst ex_run = Returns result" "rr_stop_reason result = ''completed''"
    using ex_run_completes by blast
  have "answered_in_place (as_initial_messages ex_run_spec)" "in_place (as_initial_messages ex_run_spec)"
    by code_simp+
  from run_answers_every_call [OF r(1) [unfolded ex_run_def] this] r show ?thesis by simp
qed

text \<open>
  C8: A run ends, and it ends soon: it makes at most two requests per iteration, and however large
  the limit on iterations is, at most ten requests and nine more for every round of tools, since
  retries for blank and for truncated answers are used up and only a round of tools renews them.
\<close>

theorem requests_are_bounded:
  "length (rn_requests (snd (run_agent ops renv provider hook spec w h journal files p))) \<le>
     min (2 * as_max_iterations spec)
       (10 + 9 * (tool_rounds (rn_messages (snd (run_agent ops renv provider hook spec w h journal files p))) -
                  tool_rounds (as_initial_messages spec)))"
proof -
  obtain res st where r: "run_agent ops renv provider hook spec w h journal files p = (res, st)" by fastforce
  from run_requests_bounded [OF r] show ?thesis by (simp add: r)
qed



text \<open>
  C10: A run extends its history: the initial messages stay at the front unless the last of them is
  an assistant text, and the user is told what the history says: the final content is the content of
  the last message; an error is reported exactly by the three error endings; a completed run has a
  text that is not blank.
\<close>

theorem run_ends_as_told:
  assumes "fst (run_agent ops renv provider hook spec w h journal files p) = Returns result"
    and "as_initial_messages spec \<noteq> []" and "\<not> bare_reply (last (as_initial_messages spec))"
  shows "prefix (as_initial_messages spec) (rr_messages result) \<and>
    (\<forall>t. rr_final_content result = Some t \<longrightarrow> get_str (last (rr_messages result)) ''content'' = Some t) \<and>
    (rr_error result \<noteq> None \<longleftrightarrow>
       rr_stop_reason result \<in> {''error'', ''tool_error'', CIRCUIT_BREAKER_STOP_REASON}) \<and>
    (rr_stop_reason result = ''completed'' \<longrightarrow> \<not> is_blank_text (rr_final_content result)) \<and>
    rr_stop_reason result \<in> {''completed'', ''empty_final_response'', ''error'', ''tool_error'',
      CIRCUIT_BREAKER_STOP_REASON, ''max_iterations''}"
proof -
  obtain st where r: "run_agent ops renv provider hook spec w h journal files p = (Returns result, st)"
    using assms(1) by (metis prod.collapse)
  obtain f where f: "result = run_result f st" "says_so f (conv_of st)" using run_end_says_so [OF r] by blast
  show ?thesis
    using run_extends_history [OF r assms(3)] f by (simp add: says_so_def run_result_def conv_of_simps)
qed

theorem run_ends_as_told_witness:
  "\<exists>result. fst ex_run = Returns result \<and> prefix [ex_question] (rr_messages result) \<and>
     get_str (last (rr_messages result)) ''content'' = Some ''done''"
proof -
  obtain result where r: "fst ex_run = Returns result" "rr_final_content result = Some ''done''"
    using ex_run_completes by blast
  have i: "as_initial_messages ex_run_spec = [ex_question]" by (simp add: ex_run_spec_def)
  have "\<not> bare_reply (last (as_initial_messages ex_run_spec))"
    by (simp add: i bare_reply_def ex_question_def has_role_def get_str_def)
  from run_ends_as_told [OF r(1) [unfolded ex_run_def] _ this] r i show ?thesis by auto
qed

text \<open>
  C11: Repairing a history is the recursive reference: behind every message and the tool results
  that follow it come the synthetic results of its unanswered calls.  Nothing is lost or reordered,
  every call has a result, legality does not change, and a repaired history is left alone.
\<close>

theorem backfill_is_the_reference:
  "backfill_missing_tool_results ms = fill_calls (fulfilled_ids ms) ms \<and>
   subseq ms (backfill_missing_tool_results ms) \<and>
   declared_in ms \<subseteq> fulfilled_ids (backfill_missing_tool_results ms) \<and>
   (legal (backfill_missing_tool_results ms) \<longleftrightarrow> legal ms) \<and>
   backfill_missing_tool_results (backfill_missing_tool_results ms) = backfill_missing_tool_results ms"
  using backfill_is_fill fill_keeps_messages backfill_answers_every_call backfill_legal backfill_idempotent
  by metis

text \<open>
  C12: Collapsing changes exactly the stale results: a tool message of a compactable tool, at or
  before the last user message, with at least ten compactable results after it; of those only the
  content, and only a long one.  Doing it again changes nothing, and legality stays.
\<close>

theorem microcompact_collapses_stale_results:
  "microcompact ms = map (\<lambda>i. if stale_result ms i then compact_result (ms ! i) else ms ! i) [0..<length ms] \<and>
   list_all2 content_only ms (microcompact ms) \<and>
   microcompact (microcompact ms) = microcompact ms \<and>
   (legal (microcompact ms) \<longleftrightarrow> legal ms)"
proof -
  have "microcompact ms = map (\<lambda>i. if stale_result ms i then compact_result (ms ! i) else ms ! i) [0..<length ms]"
    by (rule nth_equalityI) (simp_all add: microcompact_nth)
  then show ?thesis
    using microcompact_content_only microcompact_idempotent microcompact_legal by blast
qed

text \<open>
  C13: Fitting the context window keeps what it must: all system messages, and the current turn, from
  the last user message on, to the end; what is left of older messages keeps its order, and together
  with the current turn it stays within the remaining budget.
\<close>

theorem snip_keeps_the_current_turn:
  assumes "is_user u" and "\<forall>m \<in> set post. \<not> is_user m" and "legal post"
    and "ms = pre @ u # post"
  shows "filter (has_role ''system'') (snip_history tk spec ms) = filter (has_role ''system'') ms \<and>
    subseq (non_system (snip_history tk spec ms)) (non_system ms) \<and>
    suffix (u # non_system post) (non_system (snip_history tk spec ms)) \<and>
    (snip_history tk spec ms = ms \<or> non_system (snip_history tk spec ms) = u # non_system post \<or>
     total_tokens tk (non_system (snip_history tk spec ms)) \<le>
       snip_remaining tk (offered_tools spec) (snip_budget spec (the (as_context_window_tokens spec))) ms)"
proof -
  note turn = snip_history_current_turn [OF assms, of tk spec]
  have "non_system (snip_history tk spec ms) = u # non_system post \<or>
      length (non_system (snip_history tk spec ms)) > length (u # non_system post)"
    using turn(1) by (auto simp: suffix_def)
  with snip_history_parts [of tk spec ms] turn show ?thesis by blast
qed

theorem snip_keeps_the_current_turn_witness:
  "suffix [ex_question, ex_ok] (non_system (snip_history ex_tokens ex_narrow_spec (ex_background @ [ex_question, ex_ok])))"
proof -
  have "is_user ex_question" "\<not> has_role ''system'' ex_ok" "\<not> is_user ex_ok"
    by code_simp+
  with ex_legal snip_keeps_the_current_turn [of ex_question "[ex_ok]" "ex_background @ [ex_question, ex_ok]" ex_background
      ex_tokens ex_narrow_spec]
  show ?thesis by simp
qed

section \<open>What reaches the provider, and what it answers\<close>

text \<open>
  C14: What is posted for a run is legal as the gateway sees it: behind retries, cache marks, removal
  of images, sanitizing and the renaming of call ids, no posted body has a tool result without the
  call it answers, whatever the hooks, the tools and the backend do.
\<close>

theorem wire_bodies_are_legal:
  assumes "legal (as_initial_messages spec)" and "list_all wire_ready (as_initial_messages spec)"
  shows "\<forall>rq \<in> set (wi_sent (rn_provider (snd (run_agent ops renv
      (retrying_provider lower gs opts backend) hook spec w h journal files (wire_new b))))).
    legal (body_messages (build_request env of_f32 p rq))"
proof -
  obtain res st where r: "run_agent ops renv (retrying_provider lower gs opts backend) hook spec w h journal files
      (wire_new b) = (res, st)" by fastforce
  from run_bodies_legal [OF r assms] show ?thesis by (simp add: r)
qed

theorem wire_bodies_are_legal_witness:
  "list_all (\<lambda>rq. legal (body_messages (build_request ex_openai_env (\<lambda>x. JNull) ex_provider rq)))
     (wi_sent (rn_provider (snd ex_wire_run)))"
proof -
  have i: "as_initial_messages ex_run_spec = [ex_question]" by (simp add: ex_run_spec_def)
  show ?thesis
    unfolding ex_wire_run_def list_all_iff
    by (rule wire_bodies_are_legal) (simp_all only: i ex_question_ready)
qed

text \<open>
  C15: A request with retries is the first attempt that settles it: an attempt that is no error, or
  is one for good, and then a last try without images if the prompt has any, else the fourth
  attempt.  It sends one to four requests, each with the prompt or the prompt without images, and
  sleeps the first of the delays, less than it sends.
\<close>

theorem retry_is_the_first_settled:
  "chat_with_retry lower gs opts backend rq w =
     first_settled lower (safe_chat backend) [1, 2, 4] (resolve_request gs opts rq) w \<and>
   safe_chat_stream_with_retry lower gs opts backend rq w =
     first_settled lower (safe_chat_stream backend) [1, 2, 4] (resolve_request gs opts rq) w \<and>
   charged [1, 2, 4] (resolve_request gs opts rq) w (snd (chat_with_retry lower gs opts backend rq w)) \<and>
   charged [1, 2, 4] (resolve_request gs opts rq) w (snd (safe_chat_stream_with_retry lower gs opts backend rq w))"
  unfolding chat_with_retry_def safe_chat_stream_with_retry_def CHAT_RETRY_DELAYS_def
  by (intro conjI with_retry_is_first_settled with_retry_charged [OF sends_safe_chat(1) surjective_pairing]
      with_retry_charged [OF sends_safe_chat(2) surjective_pairing])

text \<open>
  C16: A provider that recovers is reached: if the backend fails transiently at most three times and
  then answers, the answer is returned, after one, two and four seconds of sleep, and every attempt
  sent the same request.
\<close>

theorem retry_gets_through:
  assumes "k \<le> 3"
    and "\<forall>i < k. transient_failure lower (nth_response backend (resolve_request gs opts rq) i (wi_backend w))"
    and "lr_finish_reason (nth_response backend (resolve_request gs opts rq) k (wi_backend w)) \<noteq> ''error''"
  shows "chat_with_retry lower gs opts backend rq w =
    (nth_response backend (resolve_request gs opts rq) k (wi_backend w),
     w\<lparr>wi_backend := after_calls backend (resolve_request gs opts rq) (k + 1) (wi_backend w),
       wi_sent := wi_sent w @ replicate (k + 1) (resolve_request gs opts rq),
       wi_slept := wi_slept w @ take k [1, 2, 4]\<rparr>)"
  unfolding chat_with_retry_def
  using retry_recovers [of k CHAT_RETRY_DELAYS lower backend _ w] assms by (simp add: CHAT_RETRY_DELAYS_def)

theorem retry_gets_through_witness:
  "fst (chat_with_retry (\<lambda>s. s) generation_new ex_options busy_backend ex_request (wire_new 0)) = ex_answer"
proof -
  let ?rq = "resolve_request generation_new ex_options ex_request"
  have n: "nth_response busy_backend ?rq i 0 = (if i < 2 then error_response ''HTTP 503'' else ex_answer)" for i
  proof -
    have "after_calls busy_backend ?rq i 0 = i" for i
      by (induction i) (simp_all add: after_calls_def busy_backend_def)
    then show ?thesis by (simp add: nth_response_def busy_backend_def caught_def)
  qed
  have a: "lr_finish_reason ex_answer \<noteq> ''error''" by (simp add: ex_answer_def response_new_def)
  show ?thesis
    using retry_gets_through [of 2 "\<lambda>s. s" busy_backend generation_new ex_options ex_request "wire_new 0"] a
    by (simp add: n wire_new_def transient_503)
qed

text \<open>
  C17: How the network cuts the bytes makes no difference: for a stream of LF-ended events that all
  carry data and fit the buffer, any two ways to cut the same bytes give the same response and the
  same callbacks.
\<close>

theorem stream_ignores_chunking:
  assumes "concat pieces = concat pieces'"
    and "CR \<notin> set (concat pieces)" and "well_framed env (concat pieces)"
  shows "consume_sse_byte_stream env idle_s (map Bytes pieces) = consume_sse_byte_stream env idle_s (map Bytes pieces')"
  unfolding consume_sse_byte_stream_def
  using read_stream_joined [of "[]" pieces env idle_s accumulator_new "[]"]
    read_stream_joined [of "[]" pieces' env idle_s accumulator_new "[]"] assms by simp

theorem stream_ignores_chunking_witness:
  "let bytes = event_of (content_chunk ''1'') @ LFLF @ event_of (content_chunk ''0'') @ LFLF
   in consume_sse_byte_stream ex_openai_env 60 (map (\<lambda>c. Bytes [c]) bytes) =
      consume_sse_byte_stream ex_openai_env 60 [Bytes bytes]"
proof -
  let ?events = "map event_of [content_chunk ''1'', content_chunk ''0'']"
  have "concat (map (\<lambda>c. [c]) (event_bytes ?events)) = concat [event_bytes ?events]"
    by (simp add: event_bytes_def)
  from stream_ignores_chunking [OF this, of ex_openai_env 60] carries_no_cr [OF ex_digits_carried] carries_framed [OF ex_digits_carried]
  show ?thesis by (simp add: Let_def o_def event_bytes_def)
qed

text \<open>
  C18: What was shown is what is kept: unless the response is an error, its content is the
  concatenation of the content callbacks made, and its reasoning that of the reasoning callbacks,
  whatever arrives on the stream and however it ends.
\<close>

theorem streamed_text_is_kept:
  "case consume_sse_byte_stream env idle_s items of (response, told) \<Rightarrow>
     lr_finish_reason response = ''error'' \<or>
     lr_content response = non_empty (text_told told) \<and>
     lr_reasoning_content response = non_empty (reasoning_told told)"
  using stream_tells_truth [of env idle_s items] by (simp add: told_truth_def split_beta)



section \<open>The inbox ledger\<close>



text \<open>
  C21: Compaction of the ledger is exactly the eviction policy: folding the rewritten journal
  gives the retained entries, and every record of another kind stays, in its order.  The policy never
  drops a request that is not done, keeps their order, and leaves at most the configured number of
  entries unless the unfinished ones alone are more.
\<close>

theorem compaction_is_the_eviction_policy:
  "let kept = fold_entries (compact_entries parse_ts now ttl m es);
       unfinished = filter (\<lambda>entry. ib_state entry \<noteq> InboxDone)
   in kept = retained_entries parse_ts (fold_entries es) now ttl m
   \<and> filter (\<lambda>e. \<not> is_inbox e) (compact_entries parse_ts now ttl m es) = filter (\<lambda>e. \<not> is_inbox e) es
   \<and> unfinished kept = unfinished (fold_entries es)
   \<and> length kept \<le> max m (length (unfinished (fold_entries es)))"
  by (simp add: fold_compact compact_others retained_unfinished retained_bound Let_def)

section \<open>What recovery decides\<close>

text \<open>
  C22: What recovery folds a journal to is what the journal says: per call, in order of first
  appearance, name, arguments and safety of the first record, status and result of the first terminal
  one, and the number of intents; as unfinished the turns started without an end or restore record,
  each with its first start and highest attempt; to restore those without a settling record.
\<close>

theorem journal_folds_are_the_references:
  "tool_call_states es =
     map (\<lambda>k. the (call_spec k (call_records k es))) (firsts (List.map_filter call_key_of es))
   \<and> distinct (map key_of_state (tool_call_states es))
   \<and> unfinished_turns es =
     map (\<lambda>t. turn_spec t es) (filter (\<lambda>t. t \<notin> set (ended es)) (firsts (started es)))
   \<and> turns_to_restore es = filter (\<lambda>t. t \<notin> set (settled es)) (firsts (started es))"
  by (intro conjI tool_call_states_eq distinct_tool_call_states unfinished_turns_eq turns_to_restore_eq)

text \<open>
  C23: Pruning a journal changes no recovery decision: the unfinished turns, the turns to
  restore, the messages of every open turn and the calls of the open turns are the same before
  and after.
\<close>

theorem prune_keeps_recovery_decisions:
  assumes "journal_laws ops good slot next_number" and "good st"
    and "prune_journal ops rj st = (Inr n, st')"
  shows "unfinished_turns (scan_entries (rj_scan ops rj st')) = unfinished_turns (scan_entries (rj_scan ops rj st))
    \<and> turns_to_restore (scan_entries (rj_scan ops rj st')) = turns_to_restore (scan_entries (rj_scan ops rj st))
    \<and> (\<forall>t \<in> open_turn_ids (scan_entries (rj_scan ops rj st)).
         turn_messages_for_restore now (scan_entries (rj_scan ops rj st')) t =
         turn_messages_for_restore now (scan_entries (rj_scan ops rj st)) t)
    \<and> tool_call_states (scan_entries (rj_scan ops rj st')) =
        filter (\<lambda>s. tcs_turn_id s \<in> open_turn_ids (scan_entries (rj_scan ops rj st)))
          (tool_call_states (scan_entries (rj_scan ops rj st)))"
  using journal_laws.prune_journal_decisions [OF assms] by blast

theorem prune_keeps_recovery_decisions_witness:
  "unfinished_turns (scan_entries (rj_scan memory_ops (rj_new ''cli:x'') ex_pruned)) =
   unfinished_turns (scan_entries (rj_scan memory_ops (rj_new ''cli:x'') ex_ended))"
  by (rule prune_keeps_recovery_decisions
      [OF mem.journal_laws_axioms ex_inv(2) ex_prune, THEN conjunct1])

text \<open>
  C24: Only a turn that the configuration allows to resume is resumed: it is unfinished in one
  of the scanned journals, began before this process started, is not older than the limit, and
  its attempt number is one more than the recorded one and within the limit, with no wrap-around.
\<close>

theorem resumed_turn_was_eligible:
  assumes "ResumeTurn t a \<in> set (plan_resumes parse_ts ops st now cutoff policy)"
  shows "rp_auto_resume policy
    \<and> (\<exists>scan \<in> set (js_scan_all ops st). t \<in> set (unfinished_turns (scan_entries scan)))
    \<and> \<not> is_stale parse_ts t now (rp_max_age policy)
    \<and> started_before_cutoff parse_ts (ut_started_at t) cutoff
    \<and> unat a = Suc (unat (ut_attempts t)) \<and> a \<le> rp_max_attempts policy"
  using plan_resumes_resumed [OF assms] by blast

theorem resumed_turn_was_eligible_witness:
  "unat (1 :: u32) = Suc (unat (ut_attempts ex_turn_record)) \<and> 1 \<le> rp_max_attempts ex_policy"
proof -
  have "ResumeTurn ex_turn_record 1 \<in> set (plan_resumes (\<lambda>s. Some 5) memory_ops ex_started 50 10 ex_policy)"
    by (simp add: ex_plan)
  from resumed_turn_was_eligible [OF this] show ?thesis by blast
qed


section \<open>Arguments, tools and guards\<close>


section \<open>Sessions\<close>



text \<open>
  C28: Saving keeps the conversation: after a successful save, in this process or after a
  restart, the archive followed by the live messages is the old archive followed by all messages of
  the saved session, and the next prompt is the same as before the save.
\<close>

theorem save_keeps_the_conversation:
  assumes "session_store_laws ops good slot can_save can_archive"
    and "good (mg_store m)" and "ss_key s \<notin> mg_deleted m"
    and "can_archive (take (consolidated_len s) (ss_messages s))" and "can_save (snd (take_consolidated_prefix s))"
    and "mgr_save ops s m = (Inr (), m')"
    and "m'' = m' \<or> m'' = with_store (mg_store m') hours"
  shows "\<exists>live. get_session_internal ops now (ss_key s) m'' = Some live \<and>
    so_load_archive ops (mg_store m'') (ss_key s) @ ss_messages live =
      so_load_archive ops (mg_store m) (ss_key s) @ ss_messages s \<and>
    get_history cap live = get_history cap s"
  using session_store_laws.save_keeps_history [OF assms, where now = now] assms(7) get_history_taken [of cap s]
  by (auto simp: with_store_def)

theorem save_keeps_the_conversation_witness:
  "\<exists>live. get_session_internal ex_ops 9 ''cli:x'' (with_store (mg_store ex_saved) 0) = Some live \<and>
    so_load_archive ex_ops (mg_store (with_store (mg_store ex_saved) 0)) ''cli:x'' @ ss_messages live =
      so_load_archive ex_ops (mg_store ex_manager) ''cli:x'' @ [ex_hello, ex_reply] \<and>
    get_history (Some 5) live = get_history (Some 5) ex_session"
  using save_keeps_the_conversation [where now = 9 and cap = "Some 5" and hours = 0,
      OF jsonl_laws [OF ex_env_ok] _ _ _ _ ex_save_eq disjI2 [OF refl]] ex_storable ex_disk_ok ex_taken_parts
  by (simp add: ex_manager_def with_store_def)

text \<open>
  C29: A failed save loses nothing: the cache and what loads from the store are unchanged, and
  the archive has at most gained a prefix of the saved messages, which are still in the session.
\<close>

theorem failed_save_loses_nothing:
  assumes "session_store_laws ops good slot can_save can_archive"
    and "good (mg_store m)" and "can_archive (take (consolidated_len s) (ss_messages s))"
    and "mgr_save ops s m = (Inl e, m')"
  shows "mg_cache m' = mg_cache m \<and> so_load ops now (mg_store m') k = so_load ops now (mg_store m) k \<and>
    (\<exists>n. so_load_archive ops (mg_store m') (ss_key s) =
      so_load_archive ops (mg_store m) (ss_key s) @ take n (ss_messages s))"
  using session_store_laws.save_error_loses_nothing [OF assms] by blast

theorem failed_save_loses_nothing_witness:
  "mg_cache (snd (mgr_save ex_ops ex_session (with_store (ex_disk [io_ok\<lparr>io_line := Some 2\<rparr>]) 0))) = []"
proof -
  let ?r = "mgr_save ex_ops ex_session (with_store (ex_disk [io_ok\<lparr>io_line := Some 2\<rparr>]) 0)"
  have e: "fst ?r = Inl ''write''"
    by (simp add: mgr_save_def with_store_def ex_taken_parts jsonl_append_archive_def ex_disk_def pop_io_def
        io_ok_def Let_def)
  then have "?r = (Inl ''write'', snd ?r)" by (simp add: prod_eq_iff)
  from failed_save_loses_nothing [OF jsonl_laws [OF ex_env_ok] _ _ this] show ?thesis
    using ex_disk_ok ex_storable by (simp add: with_store_def ex_taken_parts)
qed

text \<open>
  C30: A fork before user message n is refused exactly if the whole conversation, archive included,
  has fewer than n visible user messages; otherwise its messages are the public copies of the
  prefix with n visible user messages up to the next one, without the volatile metadata, and its
  cursor lies within them.
\<close>

theorem fork_is_the_public_prefix:
  assumes "get_session_internal ops now source_key m = Some source"
    and "full = so_load_archive ops (mg_store m) source_key @ ss_messages source"
  shows "(fst (fork_session_before_user_index ops now source_key target_key before m) = Inl InvalidIndex \<longleftrightarrow>
      visible_users full < before) \<and>
    (fst (fork_session_before_user_index ops now source_key target_key before m) = Inr new \<longrightarrow>
      (\<exists>n \<le> length full. ss_messages new = map public_history_message (take n full) \<and>
        visible_users (take n full) = before \<and> (n < length full \<longrightarrow> is_visible_user_message (full ! n)) \<and>
        ss_key new = target_key \<and> ss_last_consolidated new \<le> length (ss_messages new) \<and>
        (\<forall>k \<in> set FORK_VOLATILE_METADATA_KEYS. map_of (ss_metadata new) k = None)))"
  using fork_result [OF assms] by blast

theorem fork_is_the_public_prefix_witness:
  "\<exists>n \<le> 2. ss_messages ex_forked = map public_history_message (take n [ex_hello, ex_reply]) \<and>
     visible_users (take n [ex_hello, ex_reply]) = 1"
proof -
  from fork_is_the_public_prefix [OF ex_source refl, of "''cli:y''" 1 ex_forked] ex_fork ex_archive
  obtain n where "n \<le> 2" "ss_messages ex_forked = map public_history_message (take n [ex_hello, ex_reply])"
      "visible_users (take n [ex_hello, ex_reply]) = 1"
    by (auto simp: ex_taken_parts numeral_2_eq_2)
  then show ?thesis by blast
qed

text \<open>
  C31: \<open>retain_recent_legal_suffix\<close> keeps a contiguous window that is legal (no tool result without
  its call), within the bound unless the caller asks for whole turns, starting at a user message when the turns of
  the conversation are closed and there is one, and the cursor still separates the same messages.
\<close>

theorem retained_window_is_legal:
  assumes "0 < max_messages" and "max_messages < length (ss_messages s)"
    and "t = retain_recent_legal_suffix now max_messages to_user s"
  shows "\<exists>start stop. start \<le> stop \<and> stop \<le> length (ss_messages s) \<and>
    ss_messages t = drop start (take stop (ss_messages s)) \<and> legal (ss_messages t) \<and>
    (\<not> to_user \<longrightarrow> length (ss_messages t) \<le> max_messages) \<and>
    (\<forall>i < length (ss_messages t). i < ss_last_consolidated t \<longleftrightarrow> start + i < ss_last_consolidated s) \<and>
    (list_ex is_user (ss_messages s) \<and> turns_closed (ss_messages s) \<longrightarrow>
       start < stop \<and> is_user (ss_messages s ! start))"
  by (rule retain_spec [OF assms])

theorem retained_window_is_legal_witness:
  "legal (ss_messages (retain_recent_legal_suffix 7 1 False ex_session))"
  using retained_window_is_legal [of 1 ex_session _ 7 False] by (fastforce simp: ex_taken_parts)

section \<open>Scheduled jobs\<close>

text \<open>
  C32: System jobs stay: with a disk that works, whatever sequence of calls, timer rounds, runs and
  aborts of the timer follows, a recurring job of the system is in the store, the ids are distinct,
  no history has more than twenty runs, and a one-shot has no other next run than its time.
\<close>

theorem system_jobs_stay:
  assumes "(cron_step env cd works)\<^sup>*\<^sup>* cw cw'"
    and "codec_reads_back cd" and "prints cd"
    and "in_sync (cw_service cw)" and "sound_service cd (cw_service cw)" and "has_system_job i (jobs_of (cw_service cw))"
  shows "has_system_job i (jobs_of (cw_service cw')) \<and> sound_jobs (jobs_of (cw_service cw'))"
  using steps_keep_system [OF assms(1) _ assms(3,2), of i] assms(4-6) sound_serviceD
  by (auto simp: keeps_system_def)

theorem system_jobs_stay_witness:
  "has_system_job DREAM_JOB_NAME (jobs_of (snd (remove_job numbered_codec (cron_io_ok 3) DREAM_JOB_NAME dream_service)))"
proof -
  let ?s = "snd (remove_job numbered_codec (cron_io_ok 3) DREAM_JOB_NAME dream_service)"
  let ?cw = "\<lparr>cw_service = dream_service, cw_task = NoTask, cw_arms = 0, cw_events = []\<rparr>"
  have "cron_call plain_cron_env numbered_codec works (cw_service ?cw) ?s"
    using call_remove [of numbered_codec "cron_io_ok 3" DREAM_JOB_NAME dream_service "fst (remove_job numbered_codec (cron_io_ok 3) DREAM_JOB_NAME dream_service)" ?s works plain_cron_env]
    by (simp add: prod.collapse)
  then have "(cron_step plain_cron_env numbered_codec works)\<^sup>*\<^sup>* ?cw (request_arm (?cw\<lparr>cw_service := ?s\<rparr>))"
    by (intro r_into_rtranclp step_call)
  from system_jobs_stay [OF this numbered_codec_ok, of DREAM_JOB_NAME] dream_keeps show ?thesis
    by (simp add: keeps_system_def request_arm_def)
qed

text \<open>
  C33: A round of the timer runs what is due: each job that is enabled and whose time has come, once,
  in the order of the store, with the job as it was; then a one-shot is deleted or disabled, a recurring
  one gets its next run; no other job changes.
\<close>

theorem timer_runs_what_is_due:
  assumes "in_sync s" and "distinct (map cj_id (jobs_of s))"
  shows "on_timer env cd io on_job now clock (w, s) =
    (case run_due env on_job now clock (jobs_of s) w of
       (w, jobs) \<Rightarrow> (w, save_store_to_disk cd io (map_jobs (\<lambda>_. jobs) s)))"
  using on_timer_runs_due [OF assms] .

theorem timer_runs_what_is_due_witness:
  "fst (on_timer plain_cron_env numbered_codec (cron_io_ok 3) (Some (\<lambda>job ran. (Inr (), cj_id job # ran))) 3600000
     (\<lambda>i. (3600001, 3600002, 3600003)) ([], dream_service)) = [DREAM_JOB_NAME]"
proof -
  have "distinct (map cj_id (jobs_of dream_service))" by (simp add: dream_jobs)
  then show ?thesis
    by (simp add: timer_runs_what_is_due [OF on_disk_in_sync [OF dream_on_disk]] dream_jobs is_due_def reschedule_def compute_next_run_def dream_fields wrap_small I64_MAX_def
        call_back_def after_run_def with_run_def job_outcome_def Let_def)
qed

text \<open>
  C34: Jobs survive a restart: after a start and any sequence of calls, with a disk that works, a new
  process reads exactly the store the old one had.
\<close>

theorem jobs_survive_a_restart:
  assumes "(cron_call env cd works)\<^sup>*\<^sup>* (cron_start env cd io now s) s'"
    and "works io" and "codec_reads_back cd" and "prints cd" and "ci_read io'"
  shows "store_ref (reload_store_if_needed cd io' (cron_service_new (sv_file s'))) = store_ref s'"
  using restart_reads [OF calls_on_disk [OF assms(1) _ assms(4) start_on_disk] assms(3,5)] assms(2,4) by simp

theorem jobs_survive_a_restart_witness:
  "jobs_of (reload_store_if_needed numbered_codec (cron_io_ok 9) (cron_service_new (sv_file dream_service))) =
   jobs_of dream_service"
proof -
  have "(cron_call plain_cron_env numbered_codec works)\<^sup>*\<^sup>*
      (cron_start plain_cron_env numbered_codec (cron_io_ok 1) 0 (cron_service_new None)) dream_service"
    using dream_call unfolding fresh_service_def by (rule r_into_rtranclp)
  from jobs_survive_a_restart [OF this io_ok_works(1) numbered_codec_ok io_ok_works(2)] show ?thesis
    by (simp add: jobs_of_def)
qed



section \<open>Approval and hooks\<close>

text \<open>
  C36: The approval broker grants only what was given: whatever requests, answers, grants,
  cancellations and revocations reach it, a tool of a chat counts as granted only if some answer of that
  chat approved a call of it, or a grant named it, in a scope that covers it (the turn that asked, the named tools, or
  the session), and the chat has not revoked its grants since.
\<close>

theorem grants_are_earned:
  assumes "broker_is_granted chat turn tool (broker_run ops broker_new)"
  shows "earned ops chat turn tool"
  by (rule granted_earned [OF assms])

theorem grants_are_earned_witness:
  "earned [OpRegister ''q'' ''chat'' [\<lparr>ac_id = ''c1'', ac_name = ''note'', ac_arguments_preview = []\<rparr>] None,
     OpResolve ''chat'' ''q'' [''c1''] (Some GrantSessionTool)] ''chat'' (Some ''t9'') ''note''"
  by (rule grants_are_earned)
    (simp add: broker_is_granted_def grants_is_granted_def chat_entry_def no_grants_def broker_new_def
      register_for_turn_def resolve_with_grant_def broker_add_grant_def grants_add_def Let_def)

text \<open>
  C37: With confirmation on for web chats, a tool runs only in a web chat that allowed it: if a call
  through the pipeline changed anything outside, every gate was passed, the turn belongs to a named web
  chat, and this chat gave a grant that covers the tool or answered the request for this call
  with its id before the limit.  No answer, a dropped bus, another chat's answer or another channel never suffice.
\<close>

theorem web_calls_need_the_chat:
  assumes "sp_hook spec = Some (loop_hook_chain primary (ws_ask_hook env # extras))" and "fresh_ids env"
    and "ps_world (snd (run_tool_call ops penv spec call ps)) \<noteq> ps_world ps"
  shows "\<exists>tool params. cleared spec call ps tool params \<and>
    web_chat_allows env (call_request spec call params)
      (snd (hk_authorize primary (call_request spec call params) (ps_hook ps)))"
  by (rule pipeline_asks_the_chat [OF assms])

theorem web_calls_need_the_chat_witness:
  "\<exists>tool params. cleared ex_web_spec ex_call ex_web_state tool params \<and>
    web_chat_allows ex_ask_env (call_request ex_web_spec ex_call params) broker_new"
  using web_calls_need_the_chat [of ex_web_spec ex_silent_hook ex_ask_env "[]" memory_ops ex_env ex_call ex_web_state]
    ex_fresh ex_web_world
  by (simp add: ex_web_spec_def ex_web_state_def ex_silent_hook_def)

text \<open>
  C38: A chain of hooks fails closed: a call is allowed exactly if every hook, asked in order,
  allows it, and its result is shown exactly if every hook, each seeing what the earlier ones
  left, answers without a panic and without a block.
\<close>

theorem hook_chain_fails_closed:
  "(fst (composite_authorize hooks request h) = AllowCall \<longleftrightarrow> all_allow hooks request h)
   \<and> (pd_block_reason (fst (composite_after hooks result h)) = None \<longleftrightarrow> all_pass hooks result no_decision h)"
  by (simp add: composite_after_def composite_allows_iff composite_shows_iff)

section \<open>Where the code falls short of its contract\<close>

text \<open>
  C39: A retried stream repeats its text: the callbacks of an attempt that failed in the middle are
  followed by those of the next attempt from its start, and nothing tells the receiver to forget the
  first ones.
\<close>

theorem retried_stream_repeats_text:
  assumes "be_chat_stream backend (resolve_request gs opts rq) (wi_backend w) = ((outcome, events), b)"
    and "transient_failure lower (caught outcome)"
    and "be_chat_stream backend (resolve_request gs opts rq) b = ((Inr response, events'), b')"
    and "lr_finish_reason response \<noteq> ''error''"
  shows "fst (pv_chat_stream (retrying_provider lower gs opts backend) rq w) = (response, events @ events')"
  using stream_retried [of backend "resolve_request gs opts rq" "w\<lparr>wi_events := []\<rparr>", OF _ assms(2-4)] assms(1)
  by (simp add: retrying_provider_def safe_chat_stream_with_retry_def CHAT_RETRY_DELAYS_def split_beta del: with_retry.simps)

theorem retried_stream_repeats_text_witness:
  "fst (pv_chat_stream (retrying_provider (\<lambda>s. s) generation_new ex_options breaking_backend) ex_request (wire_new 0)) =
     (ex_answer, [ContentDelta ''do'', ContentDelta ''done''])"
proof -
  have a: "lr_finish_reason ex_answer \<noteq> ''error''" by (simp add: ex_answer_def response_new_def)
  show ?thesis
    using retried_stream_repeats_text [of breaking_backend generation_new ex_options ex_request "wire_new 0"
        "Inr (error_response ''connection reset'')" "[ContentDelta ''do'']" 1 "\<lambda>s. s" ex_answer "[ContentDelta ''done'']" 2] a
    by (simp add: breaking_backend_def wire_new_def caught_def transient_reset)
qed

text \<open>
  C40: A running job is cut off and run again: when the timer is armed while it runs a job, as every
  call that changes the store makes it, its task is aborted; the job is still due, so it is started a
  second time with the first start neither finished nor recorded.
\<close>

theorem running_job_is_cut_off:
  assumes "cw_task cw = Executing i start_ms ids" and "cw_arms cw = Suc n"
    and "sv_running (cw_service cw)" and "in_sync (cw_service cw)"
    and "due_ids now (cw_service cw) = i # later" and "ok io"
    and "case get_next_wake_ms (jobs_of (cw_service cw)) of Some wake \<Rightarrow> now - wake \<le> I64_MAX | None \<Rightarrow> True"
  shows "(cron_step env cd ok)\<^sup>*\<^sup>* cw
    (cw\<lparr>cw_arms := n, cw_task := Executing i now later, cw_events := cw_events cw @ [CbStarted i]\<rparr>)"
  using assms by (rule cut_off_and_repeated)

theorem running_job_is_cut_off_witness:
  "\<exists>cw. (cron_step plain_cron_env numbered_codec works)\<^sup>*\<^sup>*
      \<lparr>cw_service = dream_service, cw_task = Executing DREAM_JOB_NAME 3600000 [], cw_arms = 1,
        cw_events = [CbStarted DREAM_JOB_NAME]\<rparr> cw \<and>
    cw_events cw = [CbStarted DREAM_JOB_NAME, CbStarted DREAM_JOB_NAME] \<and> jobs_of (cw_service cw) = jobs_of dream_service"
proof -
  let ?cw = "\<lparr>cw_service = dream_service, cw_task = Executing DREAM_JOB_NAME 3600000 [], cw_arms = 1,
    cw_events = [CbStarted DREAM_JOB_NAME]\<rparr>"
  have next_run: "js_next_run_at_ms (cj_state (reschedule plain_cron_env 0 dream_job)) = Some 3600000"
    by (simp add: reschedule_def compute_next_run_def dream_fields wrap_small I64_MAX_def)
  have due: "due_ids 3600005 dream_service = DREAM_JOB_NAME # []"
    by (simp add: due_ids_def dream_jobs is_due_def next_run dream_fields)
  have wake: "case get_next_wake_ms (jobs_of dream_service) of Some wake \<Rightarrow> 3600005 - wake \<le> I64_MAX | None \<Rightarrow> True"
    by (simp add: get_next_wake_ms_def dream_jobs next_run dream_fields I64_MAX_def List.map_filter_simps)
  have "(cron_step plain_cron_env numbered_codec works)\<^sup>*\<^sup>* ?cw
    (?cw\<lparr>cw_arms := 0, cw_task := Executing DREAM_JOB_NAME 3600005 [], cw_events := cw_events ?cw @ [CbStarted DREAM_JOB_NAME]\<rparr>)"
    by (rule running_job_is_cut_off [where io = "cron_io_ok 0" and start_ms = 3600000 and ids = "[]"])
      (use due wake dream_running on_disk_in_sync [OF dream_on_disk] in simp_all)
  then show ?thesis by (intro exI conjI) (assumption, simp_all)
qed

end
